theory Spec2Isabelle
  imports Main
begin

unbundle bit_operations_syntax

section \<open>The abstract syntax tree\<close>

text \<open>
  The lowering pass of \<^verbatim>\<open>src/core/cfg.cpp\<close> reads an AST and writes a reduced AST
  into the basic blocks of a control flow graph. Input and output share the node classes,
  so one datatype per class family serves both. Every node carries its address (the
  value \<^verbatim>\<open>%p\<close> prints), because the pass derives the names of its temporaries from the
  identity of a node. Line and column numbers are pure annotations and are left out.
\<close>

type_synonym addr = nat
type_synonym blockref = nat
type_synonym InternedString = string

datatype ctx_type = Load | Store | Del | Param

text \<open>The operator tags the pass looks at, and one constructor for all the others.\<close>

datatype op_type = And | Or | Eq | OtherOp nat

datatype num_type = Num_INT | Num_LONG | Num_FLOAT | Num_COMPLEX

datatype opcode =
    NONZERO | GET_ITER | ISINSTANCE | IMPORT_NAME | IMPORT_FROM | IMPORT_STAR
  | LANDINGPAD | SET_EXC_INFO | UNCACHE_EXC_INFO | LOCALS | NONE

text \<open>
  A pointer that may be null is an \<open>option\<close>. \<open>AST_Num\<close> keeps the number type and the
  payload of the literal; \<open>AST_OtherExpr\<close> stands for every expression class that
  \<^verbatim>\<open>remapExpr\<close> has no case for.
\<close>

datatype expr =
    AST_Attribute addr expr InternedString ctx_type
  | AST_AugBinOp addr expr op_type expr
  | AST_BinOp addr expr op_type expr
  | AST_BoolOp addr op_type "expr list"
  | AST_Call addr expr "expr list" "(InternedString \<times> expr) list" "expr option" "expr option"
  | AST_ClsAttribute addr expr InternedString
  | AST_Compare addr expr "op_type list" "expr list"
  | AST_Dict addr "expr list" "expr list"
  | AST_DictComp addr expr expr "comprehension list"
  | AST_GeneratorExp addr expr "comprehension list"
  | AST_IfExp addr expr expr expr
  | AST_Index addr expr
  | AST_Lambda addr arguments expr
  | AST_LangPrimitive addr opcode "expr list"
  | AST_List addr "expr list" ctx_type
  | AST_ListComp addr expr "comprehension list"
  | AST_Name addr InternedString ctx_type
  | AST_Num addr num_type int
  | AST_Repr addr expr
  | AST_Set addr "expr list"
  | AST_Slice addr "expr option" "expr option" "expr option"
  | AST_Str addr string
  | AST_Subscript addr expr expr ctx_type
  | AST_Tuple addr "expr list" ctx_type
  | AST_UnaryOp addr op_type expr
  | AST_Yield addr "expr option"
  | AST_OtherExpr addr nat
and comprehension =
    AST_comprehension addr expr expr "expr list"
and arguments =
    AST_arguments "expr list" "expr list" InternedString InternedString

datatype import_alias = AST_alias addr InternedString InternedString

datatype stmt =
    AST_Assign addr "expr list" expr
  | AST_AugAssign addr expr op_type expr
  | AST_Assert addr expr "expr option"
  | AST_Break addr
  | AST_ClassDef addr InternedString "expr list" "expr list" "stmt list"
  | AST_Continue addr
  | AST_Delete addr "expr list"
  | AST_Exec addr
  | AST_Expr addr expr
  | AST_For addr expr expr "stmt list" "stmt list"
  | AST_FunctionDef addr InternedString arguments "expr list" "stmt list"
  | AST_Global addr "InternedString list"
  | AST_If addr expr "stmt list" "stmt list"
  | AST_Import addr "import_alias list"
  | AST_ImportFrom addr InternedString "import_alias list" int
  | AST_Pass addr
  | AST_Print addr "expr option" bool "expr list"
  | AST_Raise addr "expr option" "expr option" "expr option"
  | AST_Return addr "expr option"
  | AST_TryExcept addr "stmt list" "excepthandler list" "stmt list"
  | AST_TryFinally addr "stmt list" "stmt list"
  | AST_While addr expr "stmt list" "stmt list"
  | AST_With addr expr "expr option" "stmt list"
  | AST_Jump addr blockref
  | AST_Branch addr expr "blockref option" "blockref option"
  | AST_Invoke addr stmt blockref blockref
and excepthandler =
    AST_ExceptHandler addr "expr option" "expr option" "stmt list"

text \<open>The root of the tree that is being lowered (\<^verbatim>\<open>source->ast->type\<close>).\<close>

datatype root_kind = FunctionDef | Lambda | Expression | ClassDef | Module

fun expr_addr :: "expr \<Rightarrow> addr" where
  "expr_addr (AST_Attribute a _ _ _) = a"
| "expr_addr (AST_AugBinOp a _ _ _) = a"
| "expr_addr (AST_BinOp a _ _ _) = a"
| "expr_addr (AST_BoolOp a _ _) = a"
| "expr_addr (AST_Call a _ _ _ _ _) = a"
| "expr_addr (AST_ClsAttribute a _ _) = a"
| "expr_addr (AST_Compare a _ _ _) = a"
| "expr_addr (AST_Dict a _ _) = a"
| "expr_addr (AST_DictComp a _ _ _) = a"
| "expr_addr (AST_GeneratorExp a _ _) = a"
| "expr_addr (AST_IfExp a _ _ _) = a"
| "expr_addr (AST_Index a _) = a"
| "expr_addr (AST_Lambda a _ _) = a"
| "expr_addr (AST_LangPrimitive a _ _) = a"
| "expr_addr (AST_List a _ _) = a"
| "expr_addr (AST_ListComp a _ _) = a"
| "expr_addr (AST_Name a _ _) = a"
| "expr_addr (AST_Num a _ _) = a"
| "expr_addr (AST_Repr a _) = a"
| "expr_addr (AST_Set a _) = a"
| "expr_addr (AST_Slice a _ _ _) = a"
| "expr_addr (AST_Str a _) = a"
| "expr_addr (AST_Subscript a _ _ _) = a"
| "expr_addr (AST_Tuple a _ _) = a"
| "expr_addr (AST_UnaryOp a _ _) = a"
| "expr_addr (AST_Yield a _) = a"
| "expr_addr (AST_OtherExpr a _) = a"

text \<open>The tests on \<^verbatim>\<open>node->type\<close> and on the first character of a name.\<close>

fun is_Name :: "expr \<Rightarrow> bool" where
  "is_Name (AST_Name _ _ _) = True"
| "is_Name _ = False"

fun is_Num :: "expr \<Rightarrow> bool" where
  "is_Num (AST_Num _ _ _) = True"
| "is_Num _ = False"

fun is_Str :: "expr \<Rightarrow> bool" where
  "is_Str (AST_Str _ _) = True"
| "is_Str _ = False"

text \<open>\<^verbatim>\<open>id.str()[0] == '#'\<close>; on the empty string the first character is the
  terminating zero, which is not \<^verbatim>\<open>#\<close>.\<close>

fun starts_hash :: "InternedString \<Rightarrow> bool" where
  "starts_hash [] = False"
| "starts_hash (c # _) = (c = CHR ''#'')"

text \<open>\<^verbatim>\<open>e->type == AST_TYPE::Name && ast_cast<AST_Name>(e)->id.str()[0] == '#'\<close>\<close>

fun is_temp_Name :: "expr \<Rightarrow> bool" where
  "is_temp_Name (AST_Name _ n _) = starts_hash n"
| "is_temp_Name _ = False"

fun is_Jump :: "stmt \<Rightarrow> bool" where
  "is_Jump (AST_Jump _ _) = True"
| "is_Jump _ = False"

fun is_Branch :: "stmt \<Rightarrow> bool" where
  "is_Branch (AST_Branch _ _ _ _) = True"
| "is_Branch _ = False"

fun is_Return :: "stmt \<Rightarrow> bool" where
  "is_Return (AST_Return _ _) = True"
| "is_Return _ = False"

fun is_Raise :: "stmt \<Rightarrow> bool" where
  "is_Raise (AST_Raise _ _ _ _) = True"
| "is_Raise _ = False"

fun is_Invoke :: "stmt \<Rightarrow> bool" where
  "is_Invoke (AST_Invoke _ _ _ _) = True"
| "is_Invoke _ = False"

section \<open>The state of the pass\<close>

text \<open>
  A \<^verbatim>\<open>CFGBlock\<close>. \<open>idx = -1\<close> is a deferred block. Blocks live in a heap of blocks and
  are referred to by their position there, which stands for the \<^verbatim>\<open>CFGBlock*\<close>.
\<close>

record CFGBlock =
  idx :: int
  info :: string
  body :: "stmt list"
  predecessors :: "blockref list"
  successors :: "blockref list"

text \<open>The reasons why a \<^verbatim>\<open>finally\<close> block is entered, with the values of the enum.\<close>

datatype Why = FALLTHROUGH | CONTINUE | BREAK | RETURN | EXCEPTION

fun why_num :: "Why \<Rightarrow> nat" where
  "why_num FALLTHROUGH = 0"
| "why_num CONTINUE = 1"
| "why_num BREAK = 2"
| "why_num RETURN = 3"
| "why_num EXCEPTION = 4"

record ContInfo =
  continue_dest :: "blockref option"
  break_dest :: "blockref option"
  return_dest :: "blockref option"
  say_why :: bool
  did_why :: int
  why_name :: InternedString

record ExcBlockInfo =
  exc_dest :: blockref
  exc_type_name :: InternedString
  exc_value_name :: InternedString
  exc_traceback_name :: InternedString

text \<open>
  The fields of \<^verbatim>\<open>CFGVisitor\<close> together with the \<^verbatim>\<open>CFG\<close> it owns. The two stacks are
  lists whose head is the top (\<^verbatim>\<open>back()\<close>). \<open>next_addr\<close> is the allocator: every
  \<^verbatim>\<open>new\<close> of an AST node takes the next address. \<open>scope_replacements\<close> records the
  calls of \<^verbatim>\<open>registerScopeReplacement\<close>.
\<close>

record visitor =
  heap :: "CFGBlock list"
  blocks :: "blockref list"
  curblock :: "blockref option"
  continuations :: "ContInfo list"
  exc_handlers :: "ExcBlockInfo list"
  next_addr :: addr
  scope_replacements :: "(addr \<times> addr) list"

text \<open>
  What the pass reads of \<^verbatim>\<open>SourceInfo\<close>: the kind of the root, the future flag
  \<^verbatim>\<open>FF_ABSOLUTE_IMPORT\<close>, the name mangler and the name of the enclosing module; and the
  global option \<^verbatim>\<open>ENABLE_PYPA_PARSER\<close>.
\<close>

record SourceInfo =
  root_type :: root_kind
  absolute_import :: bool
  mangleName :: "InternedString \<Rightarrow> InternedString"
  parent_module_name :: string
  enable_pypa_parser :: bool

section \<open>Errors and the monad of the pass\<close>

text \<open>
  \<open>SyntaxError\<close> is the exception \<^verbatim>\<open>raiseExcHelper(SyntaxError, ...)\<close> raises.
  \<open>Abort\<close> is a failed \<^verbatim>\<open>assert\<close>, \<^verbatim>\<open>ASSERT\<close>, \<^verbatim>\<open>RELEASE_ASSERT\<close> or a call of
  \<^verbatim>\<open>abort()\<close>: the model is the build in which assertions are compiled in.
  \<open>BadPointer\<close> is the dereference of a null pointer or of a pointer to no block.
\<close>

datatype error = SyntaxError string | Abort string | BadPointer

type_synonym 'a M = "visitor \<Rightarrow> error + ('a \<times> visitor)"

definition ret :: "'a \<Rightarrow> 'a M" where
  "ret x = (\<lambda>s. Inr (x, s))"

definition bnd :: "'a M \<Rightarrow> ('a \<Rightarrow> 'b M) \<Rightarrow> 'b M" where
  "bnd m f = (\<lambda>s. case m s of Inl e \<Rightarrow> Inl e | Inr (x, s') \<Rightarrow> f x s')"

definition thn :: "unit M \<Rightarrow> 'b M \<Rightarrow> 'b M" where
  "thn m n = bnd m (\<lambda>_. n)"

definition fail :: "error \<Rightarrow> 'a M" where
  "fail e = (\<lambda>s. Inl e)"

definition gets :: "(visitor \<Rightarrow> 'a) \<Rightarrow> 'a M" where
  "gets f = (\<lambda>s. Inr (f s, s))"

definition modify :: "(visitor \<Rightarrow> visitor) \<Rightarrow> unit M" where
  "modify f = (\<lambda>s. Inr ((), f s))"

definition assert_that :: "bool \<Rightarrow> string \<Rightarrow> unit M" where
  "assert_that c msg = (if c then ret () else fail (Abort msg))"

definition whenM :: "bool \<Rightarrow> unit M \<Rightarrow> unit M" where
  "whenM c m = (if c then m else ret ())"

text \<open>\<^verbatim>\<open>new\<close>: the address of the fresh node.\<close>

definition alloc :: "addr M" where
  "alloc = (\<lambda>s. Inr (next_addr s, s\<lparr>next_addr := Suc (next_addr s)\<rparr>))"

subsection \<open>Blocks\<close>

definition get_block :: "blockref \<Rightarrow> CFGBlock M" where
  "get_block b = (\<lambda>s. if b < length (heap s) then Inr (heap s ! b, s) else Inl BadPointer)"

definition upd_block :: "blockref \<Rightarrow> (CFGBlock \<Rightarrow> CFGBlock) \<Rightarrow> unit M" where
  "upd_block b f =
     (\<lambda>s. if b < length (heap s) then Inr ((), s\<lparr>heap := (heap s)[b := f (heap s ! b)]\<rparr>)
          else Inl BadPointer)"

text \<open>Dereferencing \<^verbatim>\<open>curblock\<close> where the source does so without a test.\<close>

definition the_curblock :: "blockref M" where
  "the_curblock = bnd (gets curblock) (\<lambda>c. case c of None \<Rightarrow> fail BadPointer | Some b \<Rightarrow> ret b)"

definition set_curblock :: "blockref option \<Rightarrow> unit M" where
  "set_curblock c = modify (\<lambda>s. s\<lparr>curblock := c\<rparr>)"

text \<open>\<^verbatim>\<open>CFGBlock::connectTo\<close> and \<^verbatim>\<open>CFGBlock::unconnectFrom\<close>.\<close>

definition connectTo :: "blockref \<Rightarrow> blockref \<Rightarrow> bool \<Rightarrow> unit M" where
  "connectTo this successor allow_backedge =
     bnd (get_block this) (\<lambda>tb.
     thn (assert_that (length (successors tb) \<le> 1) ''successors.size() <= 1'')
    (bnd (get_block successor) (\<lambda>sb.
     thn (whenM (\<not> allow_backedge)
           (thn (assert_that (idx tb \<ge> 0) ''this->idx >= 0'')
                (assert_that (idx sb = -1 \<or> idx sb > idx tb) ''edge from a block to an earlier block'')))
    (thn (upd_block this (\<lambda>b. b\<lparr>successors := successors b @ [successor]\<rparr>))
         (upd_block successor (\<lambda>b. b\<lparr>predecessors := predecessors b @ [this]\<rparr>))))))"

definition unconnectFrom :: "blockref \<Rightarrow> blockref \<Rightarrow> unit M" where
  "unconnectFrom this successor =
     thn (upd_block this (\<lambda>b. b\<lparr>successors := removeAll successor (successors b)\<rparr>))
         (upd_block successor (\<lambda>b. b\<lparr>predecessors := removeAll this (predecessors b)\<rparr>))"

text \<open>
  Modelled from the spec: the header \<^verbatim>\<open>core/cfg.h\<close> is not among the sources. It
  declares \<^verbatim>\<open>CFG::addBlock\<close> (allocates and immediately places),
  \<^verbatim>\<open>CFG::addDeferredBlock\<close> (allocates but does not place; \<open>idx = -1\<close>),
  \<^verbatim>\<open>CFG::placeBlock\<close> (appends, assigns \<open>idx\<close>; the block must be unplaced),
  \<^verbatim>\<open>CFG::getStartingBlock\<close> (the first placed block) and \<^verbatim>\<open>CFGBlock::push_back\<close>
  (appends a statement to the body).
\<close>

definition new_block :: "int \<Rightarrow> blockref M" where
  "new_block i =
     (\<lambda>s. Inr (length (heap s),
        s\<lparr>heap := heap s @ [\<lparr>idx = i, info = [], body = [], predecessors = [], successors = []\<rparr>]\<rparr>))"

definition addBlock :: "blockref M" where
  "addBlock =
     bnd (gets blocks) (\<lambda>bs.
     bnd (new_block (int (length bs))) (\<lambda>b.
     thn (modify (\<lambda>s. s\<lparr>blocks := blocks s @ [b]\<rparr>))
         (ret b)))"

definition addDeferredBlock :: "blockref M" where
  "addDeferredBlock = new_block (-1)"

definition placeBlock :: "blockref \<Rightarrow> unit M" where
  "placeBlock b =
     bnd (get_block b) (\<lambda>blk.
     thn (assert_that (idx blk = -1) ''block->idx == -1'')
    (bnd (gets blocks) (\<lambda>bs.
     thn (upd_block b (\<lambda>blk. blk\<lparr>idx := int (length bs)\<rparr>))
         (modify (\<lambda>s. s\<lparr>blocks := blocks s @ [b]\<rparr>)))))"

definition block_push_back :: "blockref \<Rightarrow> stmt \<Rightarrow> unit M" where
  "block_push_back b node = upd_block b (\<lambda>blk. blk\<lparr>body := body blk @ [node]\<rparr>)"

definition set_info :: "blockref \<Rightarrow> string \<Rightarrow> unit M" where
  "set_info b str = upd_block b (\<lambda>blk. blk\<lparr>info := str\<rparr>)"


section \<open>Names of temporaries and small constructors\<close>

text \<open>
  \<^verbatim>\<open>%p\<close> prints an address in hexadecimal, \<^verbatim>\<open>%d\<close> a number in decimal. Only the
  non-negative case of \<^verbatim>\<open>%d\<close> occurs.
\<close>

definition digit_char :: "nat \<Rightarrow> char" where
  "digit_char d = (''0123456789abcdef'' ! d)"

fun render_nat :: "nat \<Rightarrow> nat \<Rightarrow> string" where
  "render_nat base n =
     (if base < 2 \<or> n < base then [digit_char n]
      else render_nat base (n div base) @ [digit_char (n mod base)])"

declare render_nat.simps [simp del]

definition render_ptr :: "addr \<Rightarrow> string" where
  "render_ptr a = ''0x'' @ render_nat 16 a"

text \<open>
  The three overloads of \<^verbatim>\<open>nodeName\<close>. \<^verbatim>\<open>snprintf\<close> writes into a buffer of 40 or
  50 bytes and the source asserts that nothing was cut off.
\<close>

definition nodeName :: "addr \<Rightarrow> InternedString M" where
  "nodeName node =
     (let buf = ''#'' @ render_ptr node in
      thn (assert_that (length buf < 40) ''bytes < 40'') (ret buf))"

definition nodeName_suffix :: "addr \<Rightarrow> string \<Rightarrow> InternedString M" where
  "nodeName_suffix node suffix =
     (let buf = ''#'' @ render_ptr node @ ''_'' @ suffix in
      thn (assert_that (length buf < 50) ''bytes < 50'') (ret buf))"

definition nodeName_idx :: "addr \<Rightarrow> string \<Rightarrow> nat \<Rightarrow> InternedString M" where
  "nodeName_idx node suffix i =
     (let buf = ''#'' @ render_ptr node @ ''_'' @ suffix @ ''_'' @ render_nat 10 i in
      thn (assert_that (length buf < 50) ''bytes < 50'') (ret buf))"

definition RETURN_NAME :: string where
  "RETURN_NAME = ''#rtnval''"

definition makeName :: "InternedString \<Rightarrow> ctx_type \<Rightarrow> expr M" where
  "makeName ident ctx = bnd alloc (\<lambda>a. ret (AST_Name a ident ctx))"

definition makeLoad :: "InternedString \<Rightarrow> expr M" where
  "makeLoad ident = makeName ident Load"

definition makeNum :: "int \<Rightarrow> expr M" where
  "makeNum n = bnd alloc (\<lambda>a. ret (AST_Num a Num_INT n))"

definition makeExpr :: "expr \<Rightarrow> stmt M" where
  "makeExpr e = bnd alloc (\<lambda>a. ret (AST_Expr a e))"

definition makeLoadAttribute :: "expr \<Rightarrow> InternedString \<Rightarrow> bool \<Rightarrow> expr M" where
  "makeLoadAttribute base name clsonly =
     bnd alloc (\<lambda>a.
       if clsonly then ret (AST_ClsAttribute a base name)
       else ret (AST_Attribute a base name Load))"

definition makeCall :: "expr \<Rightarrow> expr list \<Rightarrow> expr M" where
  "makeCall func args = bnd alloc (\<lambda>a. ret (AST_Call a func args [] None None))"

text \<open>\<^verbatim>\<open>makeCompare\<close> ignores its operator argument and always compares for equality.\<close>

definition makeCompare :: "op_type \<Rightarrow> expr \<Rightarrow> expr \<Rightarrow> expr M" where
  "makeCompare oper left right = bnd alloc (\<lambda>a. ret (AST_Compare a left [Eq] [right]))"

definition makeLangPrimitive :: "opcode \<Rightarrow> expr list \<Rightarrow> expr M" where
  "makeLangPrimitive opc args = bnd alloc (\<lambda>a. ret (AST_LangPrimitive a opc args))"

section \<open>The invoke rewriter\<close>

text \<open>
  \<^verbatim>\<open>CFGVisitor::push_back\<close> and \<^verbatim>\<open>CFGVisitor::pushJump\<close> call each other: the rewriter
  ends the landing pad with \<^verbatim>\<open>pushJump\<close>, which appends its jump with \<^verbatim>\<open>push_back\<close>.
  The decision on an assignment is a function of its own: \<open>True\<close> where the source
  appends the statement as it is and returns, \<open>False\<close> where it falls through to the
  wrapping code.
\<close>

definition assign_needs_no_invoke :: "blockref \<Rightarrow> stmt \<Rightarrow> bool M" where
  "assign_needs_no_invoke cb node =
     (case node of
        AST_Assign a targets v \<Rightarrow>
          thn (assert_that (length targets = 1) ''asgn->targets.size() == 1'')
            (case hd targets of
               AST_Name ta ident c \<Rightarrow>
                 if \<not> starts_hash ident then
                   thn (assert_that (is_temp_Name v \<or> is_Str v \<or> is_Num v)
                          ''doing a non-trivial assignment in an invoke is not allowed'')
                  (thn (block_push_back cb node) (ret True))
                 else if is_temp_Name v then thn (block_push_back cb node) (ret True)
                 else if is_Num v \<or> is_Str v then thn (block_push_back cb node) (ret True)
                 else ret False
             | _ \<Rightarrow> ret False)
      | _ \<Rightarrow> ret False)"

fun branch_test_ok :: "stmt \<Rightarrow> bool" where
  "branch_test_ok (AST_Branch _ test _ _) = (is_Name test \<or> is_Num test)"
| "branch_test_ok _ = False"

function push_back :: "stmt \<Rightarrow> unit M"
  and pushJump :: "blockref \<Rightarrow> bool \<Rightarrow> unit M" where
  "push_back node =
     thn (assert_that (\<not> is_Invoke node) ''node->type != AST_TYPE::Invoke'')
    (bnd (gets curblock) (\<lambda>cur.
       case cur of
         None \<Rightarrow> ret ()
       | Some cb \<Rightarrow>
           bnd (gets exc_handlers) (\<lambda>handlers.
             if handlers = [] then block_push_back cb node
             else if is_Jump node then block_push_back cb node
             else if is_Branch node then
               thn (assert_that (branch_test_ok node) ''test_type == Name || test_type == Num'')
                   (block_push_back cb node)
             else if is_Return node then block_push_back cb node
             else
               bnd (assign_needs_no_invoke cb node) (\<lambda>finished.
                 if finished then ret ()
                 else
                   (let is_raise = is_Raise node in
                    bnd addBlock (\<lambda>normal_dest.
                    bnd (if is_raise then ret normal_dest else addBlock) (\<lambda>exc_dest_block.
                    bnd alloc (\<lambda>ia.
                    thn (block_push_back cb (AST_Invoke ia node normal_dest exc_dest_block))
                   (thn (connectTo cb normal_dest False)
                   (thn (whenM (\<not> is_raise) (connectTo cb exc_dest_block False))
                   (let exc_info = hd handlers in
                    thn (set_curblock (Some exc_dest_block))
                   (bnd alloc (\<lambda>aa.
                    bnd alloc (\<lambda>ta.
                    bnd (makeName (exc_type_name exc_info) Store) (\<lambda>n1.
                    bnd (makeName (exc_value_name exc_info) Store) (\<lambda>n2.
                    bnd (makeName (exc_traceback_name exc_info) Store) (\<lambda>n3.
                    bnd (makeLangPrimitive LANDINGPAD []) (\<lambda>lp.
                    thn (block_push_back exc_dest_block
                           (AST_Assign aa [AST_Tuple ta [n1, n2, n3] Store] lp))
                   (thn (pushJump (exc_dest exc_info) False)
                        (if is_raise then set_curblock None
                         else set_curblock (Some normal_dest)))))))))))))))))))))"
| "pushJump target allow_backedge =
     bnd alloc (\<lambda>a.
     thn (push_back (AST_Jump a target))
    (bnd the_curblock (\<lambda>cb.
     thn (connectTo cb target allow_backedge)
         (set_curblock None))))"
  by pat_completeness auto
termination
  by (relation "measure (\<lambda>x. case x of Inl node \<Rightarrow> (if is_Jump node then 0 else 2) | Inr _ \<Rightarrow> 1)")
     auto

declare push_back.simps [simp del]
declare pushJump.simps [simp del]

section \<open>Continuations: return, continue, break\<close>

text \<open>
  \<^verbatim>\<open>pushAssign(InternedString id, AST_expr* val)\<close> makes a \<open>Store\<close> name and goes
  through the \<open>Name\<close> case of \<^verbatim>\<open>pushAssign(AST_expr* target, AST_expr* val)\<close>, which
  is \<open>pushAssign_Name\<close> here (\<^verbatim>\<open>remapName\<close> is the identity).
\<close>

definition pushAssign_Name :: "expr \<Rightarrow> expr \<Rightarrow> unit M" where
  "pushAssign_Name target val = bnd alloc (\<lambda>a. push_back (AST_Assign a [target] val))"

definition pushAssign_id :: "InternedString \<Rightarrow> expr \<Rightarrow> unit M" where
  "pushAssign_id ident val = bnd (makeName ident Store) (\<lambda>name. pushAssign_Name name val)"

definition pushLoopContinuation :: "blockref \<Rightarrow> blockref \<Rightarrow> unit M" where
  "pushLoopContinuation cont_dest brk_dest =
     thn (assert_that (cont_dest \<noteq> brk_dest) ''continue_dest != break_dest'')
         (modify (\<lambda>s. s\<lparr>continuations :=
            \<lparr>continue_dest = Some cont_dest, break_dest = Some brk_dest, return_dest = None,
             say_why = False, did_why = 0, why_name = []\<rparr> # continuations s\<rparr>))"

definition pushFinallyContinuation :: "blockref \<Rightarrow> InternedString \<Rightarrow> unit M" where
  "pushFinallyContinuation finally_block name =
     modify (\<lambda>s. s\<lparr>continuations :=
       \<lparr>continue_dest = Some finally_block, break_dest = Some finally_block,
        return_dest = Some finally_block, say_why = True, did_why = 0, why_name = name\<rparr>
       # continuations s\<rparr>)"

text \<open>\<^verbatim>\<open>pop_back\<close> on an empty vector is undefined behaviour; the model stops there.\<close>

definition popContinuation :: "unit M" where
  "popContinuation =
     bnd (gets continuations) (\<lambda>cs.
       case cs of [] \<Rightarrow> fail BadPointer
       | _ # rest \<Rightarrow> modify (\<lambda>s. s\<lparr>continuations := rest\<rparr>))"

text \<open>
  The three walks over the stack of continuations, from the top. \<open>find_cont\<close> gives the
  position of the first record that has the destination asked for; the record is
  updated in place, as the source does through its reference.
\<close>

fun find_cont :: "(ContInfo \<Rightarrow> blockref option) \<Rightarrow> ContInfo list \<Rightarrow> (nat \<times> ContInfo \<times> blockref) option" where
  "find_cont dest [] = None"
| "find_cont dest (c # cs) =
     (case dest c of
        Some d \<Rightarrow> Some (0, c, d)
      | None \<Rightarrow> (case find_cont dest cs of
                   None \<Rightarrow> None
                 | Some (i, c', d) \<Rightarrow> Some (Suc i, c', d)))"

definition mark_did_why :: "nat \<Rightarrow> Why \<Rightarrow> unit M" where
  "mark_did_why i w =
     modify (\<lambda>s. s\<lparr>continuations :=
       (continuations s)[i := (continuations s ! i)
          \<lparr>did_why := did_why (continuations s ! i) OR push_bit (why_num w) 1\<rparr>]\<rparr>)"

definition did_why_has :: "int \<Rightarrow> Why \<Rightarrow> bool" where
  "did_why_has d w = (d AND push_bit (why_num w) 1 \<noteq> 0)"

definition doReturn :: "expr \<Rightarrow> unit M" where
  "doReturn v =
     bnd (gets continuations) (\<lambda>cs.
       case find_cont return_dest cs of
         Some (i, cont, dest) \<Rightarrow>
           thn (whenM (say_why cont)
                 (bnd (makeNum (int (why_num RETURN))) (\<lambda>n.
                  thn (pushAssign_id (why_name cont) n)
                      (mark_did_why i RETURN))))
          (thn (pushAssign_id RETURN_NAME v)
               (pushJump dest False))
       | None \<Rightarrow>
           bnd alloc (\<lambda>a.
           thn (push_back (AST_Return a (Some v)))
               (set_curblock None)))"

definition doContinue :: "unit M" where
  "doContinue =
     bnd (gets continuations) (\<lambda>cs.
       case find_cont continue_dest cs of
         Some (i, cont, dest) \<Rightarrow>
           thn (whenM (say_why cont)
                 (bnd (makeNum (int (why_num CONTINUE))) (\<lambda>n.
                  thn (pushAssign_id (why_name cont) n)
                      (mark_did_why i CONTINUE))))
               (pushJump dest True)
       | None \<Rightarrow> fail (SyntaxError '''continue' not properly in loop''))"

definition doBreak :: "unit M" where
  "doBreak =
     bnd (gets continuations) (\<lambda>cs.
       case find_cont break_dest cs of
         Some (i, cont, dest) \<Rightarrow>
           thn (whenM (say_why cont)
                 (bnd (makeNum (int (why_num BREAK))) (\<lambda>n.
                  thn (pushAssign_id (why_name cont) n)
                      (mark_did_why i BREAK))))
               (pushJump dest True)
       | None \<Rightarrow> fail (SyntaxError '''break' outside loop''))"

section \<open>Branches, duplication and the truth test\<close>

text \<open>
  The source appends a \<^verbatim>\<open>Branch\<close> to a block and fills in its targets afterwards,
  through the pointer. The model finds the node by its address in the bodies of the
  blocks and rewrites it there.
\<close>

fun set_iftrue :: "addr \<Rightarrow> blockref \<Rightarrow> stmt \<Rightarrow> stmt" where
  "set_iftrue a b (AST_Branch a' test t f) =
     (if a = a' then AST_Branch a' test (Some b) f else AST_Branch a' test t f)"
| "set_iftrue a b st = st"

fun set_iffalse :: "addr \<Rightarrow> blockref \<Rightarrow> stmt \<Rightarrow> stmt" where
  "set_iffalse a b (AST_Branch a' test t f) =
     (if a = a' then AST_Branch a' test t (Some b) else AST_Branch a' test t f)"
| "set_iffalse a b st = st"

definition map_bodies :: "(stmt \<Rightarrow> stmt) \<Rightarrow> unit M" where
  "map_bodies f = modify (\<lambda>s. s\<lparr>heap := map (\<lambda>blk. blk\<lparr>body := map f (body blk)\<rparr>) (heap s)\<rparr>)"

definition branch_set_iftrue :: "addr \<Rightarrow> blockref \<Rightarrow> unit M" where
  "branch_set_iftrue a b = map_bodies (set_iftrue a b)"

definition branch_set_iffalse :: "addr \<Rightarrow> blockref \<Rightarrow> unit M" where
  "branch_set_iffalse a b = map_bodies (set_iffalse a b)"

text \<open>A block pointer that the source dereferences without a test.\<close>

definition deref :: "blockref option \<Rightarrow> blockref M" where
  "deref p = (case p of None \<Rightarrow> fail BadPointer | Some b \<Rightarrow> ret b)"

text \<open>\<^verbatim>\<open>_dup\<close>, on a pointer that is not null.\<close>

fun dup :: "expr \<Rightarrow> expr M" where
  "dup (AST_Name a n c) = makeName n c"
| "dup (AST_Num a t v) = bnd alloc (\<lambda>a'. ret (AST_Num a' t v))"
| "dup (AST_Str a d) = bnd alloc (\<lambda>a'. ret (AST_Str a' d))"
| "dup (AST_Index a v) = bnd alloc (\<lambda>a'. bnd (dup v) (\<lambda>v'. ret (AST_Index a' v')))"
| "dup _ = fail (Abort ''_dup of a node that is no operand'')"

definition callNonzero :: "expr \<Rightarrow> expr M" where
  "callNonzero e =
     bnd (makeLangPrimitive NONZERO [e]) (\<lambda>call.
     bnd (gets exc_handlers) (\<lambda>handlers.
       if handlers = [] then ret call
       else
         bnd (nodeName (expr_addr e)) (\<lambda>name.
         thn (pushAssign_id name call)
             (makeLoad name))))"

definition makeBranch :: "expr \<Rightarrow> (addr \<times> expr) M" where
  "makeBranch test = bnd alloc (\<lambda>a. bnd (callNonzero test) (\<lambda>t. ret (a, t)))"

definition pushBranch :: "expr \<Rightarrow> blockref \<Rightarrow> blockref \<Rightarrow> unit M" where
  "pushBranch test iftrue iffalse =
     bnd (get_block iftrue) (\<lambda>tb.
     bnd (get_block iffalse) (\<lambda>fb.
     thn (assert_that (idx tb = -1 \<and> idx fb = -1) ''iftrue->idx == -1 && iffalse->idx == -1'')
    (bnd (makeBranch test) (\<lambda>(a, t).
     bnd the_curblock (\<lambda>cb.
     thn (connectTo cb iftrue False)
    (bnd the_curblock (\<lambda>cb'.
     thn (connectTo cb' iffalse False)
    (thn (push_back (AST_Branch a t (Some iftrue) (Some iffalse)))
         (set_curblock None)))))))))"

text \<open>The end of \<^verbatim>\<open>remapExpr\<close>: the part that generates temporaries and assigns to them.\<close>

definition wrap_with_assign :: "addr \<Rightarrow> expr \<Rightarrow> bool \<Rightarrow> expr M" where
  "wrap_with_assign node rtn wrap =
     (if wrap \<and> \<not> is_temp_Name rtn then
        bnd (nodeName node) (\<lambda>name.
        thn (pushAssign_id name rtn)
            (makeLoad name))
      else ret rtn)"

text \<open>
  \<^verbatim>\<open>remapComprehension\<close> calls \<^verbatim>\<open>remapExpr\<close> on a call it has just built, of a class
  attribute of a name. \<open>remapExpr_clscall\<close> is \<^verbatim>\<open>remapExpr\<close> on a node of that form,
  written out; \<open>remapExpr_of_clscall\<close> below shows that the two are equal.
\<close>

definition remapExpr_clscall :: "expr \<Rightarrow> expr M" where
  "remapExpr_clscall call =
     (case call of
        AST_Call ca (AST_ClsAttribute aa (AST_Name na n c) attr) [] [] None None \<Rightarrow>
          bnd (bnd alloc (\<lambda>rc.
               bnd (bnd alloc (\<lambda>ra.
                    bnd (wrap_with_assign na (AST_Name na n c) True) (\<lambda>v'.
                    ret (AST_ClsAttribute ra v' attr)))) (\<lambda>f'.
               ret (AST_Call rc f' [] [] None None))))
              (\<lambda>rtn. wrap_with_assign ca rtn True)
      | _ \<Rightarrow> fail (Abort ''not a call of a class attribute of a name''))"

text \<open>The names of the temporaries of a tuple target.\<close>

definition tuple_tmp_name :: "addr \<Rightarrow> nat \<Rightarrow> InternedString" where
  "tuple_tmp_name node i = ''#'' @ render_ptr node @ ''_'' @ ''_'' @ render_nat 10 i"

fun make_store_names :: "addr \<Rightarrow> nat \<Rightarrow> nat \<Rightarrow> expr list M" where
  "make_store_names node i 0 = ret []"
| "make_store_names node i (Suc n) =
     bnd (makeName (tuple_tmp_name node i) Store) (\<lambda>nm.
     bnd (make_store_names node (Suc i) n) (\<lambda>rest.
     ret (nm # rest)))"

fun place_all :: "blockref list \<Rightarrow> unit M" where
  "place_all [] = ret ()"
| "place_all (b # bs) = thn (placeBlock b) (place_all bs)"

subsection \<open>Generator expressions\<close>

text \<open>The nested \<^verbatim>\<open>for\<close> and \<^verbatim>\<open>if\<close> statements \<^verbatim>\<open>remapGeneratorExp\<close> builds.\<close>

fun genexp_ifs :: "expr list \<Rightarrow> stmt list \<Rightarrow> stmt list M" where
  "genexp_ifs [] inner = ret inner"
| "genexp_ifs (c # cs) inner =
     bnd alloc (\<lambda>ia.
     bnd (genexp_ifs cs inner) (\<lambda>b.
     ret [AST_If ia c b []]))"

fun genexp_loops :: "InternedString \<Rightarrow> bool \<Rightarrow> expr \<Rightarrow> comprehension list \<Rightarrow> stmt list M" where
  "genexp_loops first_generator_name first elt [] =
     bnd alloc (\<lambda>ya.
     bnd (makeExpr (AST_Yield ya (Some elt))) (\<lambda>st.
     ret [st]))"
| "genexp_loops first_generator_name first elt (AST_comprehension ca target iter ifs # rest) =
     bnd alloc (\<lambda>la.
     bnd (if first then makeLoad first_generator_name else ret iter) (\<lambda>it.
     bnd (genexp_loops first_generator_name False elt rest) (\<lambda>inner.
     bnd (genexp_ifs ifs inner) (\<lambda>b.
     ret [AST_For la target it b []]))))"

definition registerScopeReplacement :: "addr \<Rightarrow> addr \<Rightarrow> unit M" where
  "registerScopeReplacement node func =
     modify (\<lambda>s. s\<lparr>scope_replacements := scope_replacements s @ [(node, func)]\<rparr>)"

text \<open>\<^verbatim>\<open>remapGeneratorExp\<close> after the first iterable has been remapped.\<close>

definition remapGeneratorExp_rest :: "addr \<Rightarrow> expr \<Rightarrow> comprehension list \<Rightarrow> addr \<Rightarrow> expr \<Rightarrow> expr M" where
  "remapGeneratorExp_rest node elt generators first_generator first =
     bnd alloc (\<lambda>fa.
     bnd (nodeName fa) (\<lambda>func_name.
     thn (registerScopeReplacement node fa)
    (bnd (nodeName first_generator) (\<lambda>first_generator_name.
     bnd (makeName first_generator_name Param) (\<lambda>param.
     bnd (genexp_loops first_generator_name True elt generators) (\<lambda>b.
     thn (push_back (AST_FunctionDef fa func_name (AST_arguments [param] [] [] []) [] b))
    (bnd alloc (\<lambda>ca.
     bnd (makeLoad func_name) (\<lambda>fl.
     ret (AST_Call ca fl [first] [] None None))))))))))"

section \<open>The expression lowerer\<close>

subsection \<open>The straight-line parts of the loops\<close>

text \<open>
  The functions of the expression lowerer call each other through \<^verbatim>\<open>remapExpr\<close>. The
  code between two such calls is written as a function of its own here, named after the
  source function it is a part of; the recursive functions below put the parts together
  in the order of the source.
\<close>

text \<open>\<^verbatim>\<open>remapBoolOp\<close>: one round of the loop after the operand has been remapped, and
  the code for the last operand.\<close>

definition remapBoolOp_round :: "InternedString \<Rightarrow> blockref \<Rightarrow> op_type \<Rightarrow> expr \<Rightarrow> unit M" where
  "remapBoolOp_round name exit_block op val =
     thn (pushAssign_id name val)
    (bnd alloc (\<lambda>ba.
     bnd (dup val) (\<lambda>val2.
     bnd (callNonzero val2) (\<lambda>test.
     thn (push_back (AST_Branch ba test None None))
    (bnd (gets curblock) (\<lambda>was_block.
     bnd addBlock (\<lambda>next_block.
     bnd addBlock (\<lambda>crit_break_block.
     bnd (deref was_block) (\<lambda>wb.
     thn (connectTo wb next_block False)
    (thn (connectTo wb crit_break_block False)
    (thn (if op = Or then
            thn (branch_set_iftrue ba crit_break_block) (branch_set_iffalse ba next_block)
          else
            thn (branch_set_iffalse ba crit_break_block) (branch_set_iftrue ba next_block))
    (thn (set_curblock (Some crit_break_block))
    (thn (pushJump exit_block False)
         (set_curblock (Some next_block)))))))))))))))"

definition remapBoolOp_final :: "InternedString \<Rightarrow> blockref \<Rightarrow> expr \<Rightarrow> unit M" where
  "remapBoolOp_final name exit_block final_val =
     thn (pushAssign_id name final_val)
         (pushJump exit_block False)"

definition remapBoolOp_end :: "InternedString \<Rightarrow> blockref \<Rightarrow> expr M" where
  "remapBoolOp_end name exit_block =
     thn (placeBlock exit_block)
    (thn (set_curblock (Some exit_block))
         (makeLoad name))"

text \<open>\<^verbatim>\<open>remapCompare\<close>, chained: one round of the loop after the right operand has been
  remapped; the result is the next left operand. Then the code after the loop.\<close>

definition remapCompare_round :: "InternedString \<Rightarrow> blockref \<Rightarrow> expr \<Rightarrow> op_type \<Rightarrow> expr \<Rightarrow> expr M" where
  "remapCompare_round name exit_block left op right =
     bnd alloc (\<lambda>va.
     thn (pushAssign_id name (AST_Compare va left [op] [right]))
    (bnd alloc (\<lambda>ba.
     bnd (makeLoad name) (\<lambda>ld.
     bnd (callNonzero ld) (\<lambda>test.
     thn (push_back (AST_Branch ba test None None))
    (bnd (gets curblock) (\<lambda>was_block.
     bnd addBlock (\<lambda>next_block.
     bnd addBlock (\<lambda>crit_break_block.
     bnd (deref was_block) (\<lambda>wb.
     thn (connectTo wb next_block False)
    (thn (connectTo wb crit_break_block False)
    (thn (branch_set_iffalse ba crit_break_block)
    (thn (branch_set_iftrue ba next_block)
    (thn (set_curblock (Some crit_break_block))
    (thn (pushJump exit_block False)
    (thn (set_curblock (Some next_block))
         (dup right)))))))))))))))))"

definition remapCompare_end :: "InternedString \<Rightarrow> blockref \<Rightarrow> expr M" where
  "remapCompare_end name exit_block =
     thn (pushJump exit_block False)
    (thn (placeBlock exit_block)
    (thn (set_curblock (Some exit_block))
         (makeLoad name)))"

text \<open>
  \<^verbatim>\<open>remapComprehension\<close>. \<open>remapComprehension_start\<close> binds the fresh container.
  \<open>remapComprehension_test\<close> is the round of the loop over the generators from the
  remapped iterable up to the assignment of the target: it gives the test block, the exit
  block and the value to assign. \<open>remapComprehension_if\<close> is a round of the loop over the
  filters after the condition has been remapped. \<open>remapComprehension_link\<close> is the end of
  a round. \<open>remapComprehension_apply\<close> is the code under \<^verbatim>\<open>if (is_innermost)\<close> after the
  arguments of the element operation have been remapped, and \<open>remapComprehension_end\<close>
  places the exit blocks.
\<close>

definition remapComprehension_start :: "addr \<Rightarrow> bool \<Rightarrow> InternedString M" where
  "remapComprehension_start node is_dict =
     bnd (nodeName node) (\<lambda>rtn_name.
     bnd alloc (\<lambda>ra.
     thn (pushAssign_id rtn_name (if is_dict then AST_Dict ra [] [] else AST_List ra [] Load))
         (ret rtn_name)))"

definition remapComprehension_test :: "addr \<Rightarrow> nat \<Rightarrow> expr \<Rightarrow> (blockref \<times> blockref \<times> expr) M" where
  "remapComprehension_test node i remapped_iter =
     bnd (makeLangPrimitive GET_ITER [remapped_iter]) (\<lambda>iter_call.
     bnd (nodeName_idx node ''lc_iter'' i) (\<lambda>iter_name.
     thn (pushAssign_id iter_name iter_call)
    (bnd (makeLoad iter_name) (\<lambda>l1.
     bnd (makeLoadAttribute l1 ''__hasnext__'' True) (\<lambda>hasnext_attr.
     bnd (makeLoad iter_name) (\<lambda>l2.
     bnd (makeLoadAttribute l2 ''next'' True) (\<lambda>next_attr.
     bnd addBlock (\<lambda>test_block.
     thn (set_info test_block ''comprehension_test'')
    (thn (pushJump test_block False)
    (thn (set_curblock (Some test_block))
    (bnd (makeCall hasnext_attr []) (\<lambda>hc.
     bnd (remapExpr_clscall hc) (\<lambda>rc.
     bnd (callNonzero rc) (\<lambda>test_call.
     bnd addBlock (\<lambda>body_block.
     thn (set_info body_block ''comprehension_body'')
    (bnd addDeferredBlock (\<lambda>exit_block.
     thn (set_info exit_block ''comprehension_exit'')
    (bnd alloc (\<lambda>ba.
     bnd the_curblock (\<lambda>cb.
     thn (connectTo cb body_block False)
    (bnd the_curblock (\<lambda>cb'.
     thn (connectTo cb' exit_block False)
    (thn (push_back (AST_Branch ba test_call (Some body_block) (Some exit_block)))
    (thn (set_curblock (Some body_block))
    (bnd (nodeName (expr_addr next_attr)) (\<lambda>next_name.
     bnd (makeCall next_attr []) (\<lambda>nc.
     thn (pushAssign_id next_name nc)
    (bnd (makeLoad next_name) (\<lambda>nl.
     ret (test_block, exit_block, nl))))))))))))))))))))))))))))))"

definition remapComprehension_if :: "blockref \<Rightarrow> expr \<Rightarrow> unit M" where
  "remapComprehension_if test_block r =
     bnd (callNonzero r) (\<lambda>remapped.
     bnd alloc (\<lambda>ba.
     thn (push_back (AST_Branch ba remapped None None))
    (bnd addBlock (\<lambda>body_tramp.
     thn (set_info body_tramp ''comprehension_if_trampoline'')
    (bnd addBlock (\<lambda>body_continue.
     thn (set_info body_continue ''comprehension_if_continue'')
    (thn (branch_set_iffalse ba body_tramp)
    (bnd the_curblock (\<lambda>cb.
     thn (connectTo cb body_tramp False)
    (thn (branch_set_iftrue ba body_continue)
    (bnd the_curblock (\<lambda>cb'.
     thn (connectTo cb' body_continue False)
    (thn (set_curblock (Some body_tramp))
    (thn (pushJump test_block True)
         (set_curblock (Some body_continue))))))))))))))))"

definition remapComprehension_link :: "nat \<Rightarrow> blockref option \<Rightarrow> blockref \<Rightarrow> unit M" where
  "remapComprehension_link i finished_block exit_block =
     bnd (gets curblock) (\<lambda>body_end.
     thn (assert_that ((finished_block \<noteq> None) = (i \<noteq> 0)) ''(finished_block != NULL) == (i != 0)'')
    (thn (case finished_block of
            None \<Rightarrow> ret ()
          | Some fb \<Rightarrow> thn (set_curblock (Some exit_block)) (pushJump fb True))
         (set_curblock body_end)))"

definition remapComprehension_apply :: "expr \<Rightarrow> InternedString \<Rightarrow> expr list \<Rightarrow> blockref \<Rightarrow> blockref list \<Rightarrow> unit M" where
  "remapComprehension_apply name method args test_block exit_blocks =
     bnd (makeLoadAttribute name method True) (\<lambda>attr.
     bnd (makeCall attr args) (\<lambda>call.
     bnd (makeExpr call) (\<lambda>st.
     thn (push_back st)
    (thn (pushJump test_block True)
         (set_curblock (Some (hd exit_blocks)))))))"

definition remapComprehension_end :: "InternedString \<Rightarrow> blockref list \<Rightarrow> expr M" where
  "remapComprehension_end rtn_name exit_blocks =
     thn (place_all (rev exit_blocks))
         (makeLoad rtn_name)"

text \<open>\<^verbatim>\<open>remapIfExp\<close>: the blocks, the code between the test and the first arm, between
  the arms, and after the second arm.\<close>

definition remapIfExp_start :: "addr \<Rightarrow> (InternedString \<times> blockref \<times> blockref \<times> blockref) M" where
  "remapIfExp_start node =
     bnd (nodeName node) (\<lambda>rtn_name.
     bnd addDeferredBlock (\<lambda>iftrue.
     bnd addDeferredBlock (\<lambda>iffalse.
     bnd addDeferredBlock (\<lambda>exit_block.
     ret (rtn_name, iftrue, iffalse, exit_block)))))"

definition remapIfExp_branch :: "expr \<Rightarrow> blockref \<Rightarrow> blockref \<Rightarrow> unit M" where
  "remapIfExp_branch test iftrue iffalse =
     thn (pushBranch test iftrue iffalse)
    (thn (placeBlock iftrue)
    (thn (set_curblock (Some iftrue))
         (set_info iftrue ''iftrue'')))"

definition remapIfExp_else :: "InternedString \<Rightarrow> expr \<Rightarrow> blockref \<Rightarrow> blockref \<Rightarrow> unit M" where
  "remapIfExp_else rtn_name body_val iffalse exit_block =
     thn (pushAssign_id rtn_name body_val)
    (thn (pushJump exit_block False)
    (thn (placeBlock iffalse)
    (thn (set_curblock (Some iffalse))
         (set_info iffalse ''iffalse''))))"

definition remapIfExp_end :: "InternedString \<Rightarrow> expr \<Rightarrow> blockref \<Rightarrow> expr M" where
  "remapIfExp_end rtn_name orelse_val exit_block =
     thn (pushAssign_id rtn_name orelse_val)
    (thn (pushJump exit_block False)
    (thn (placeBlock exit_block)
    (thn (set_curblock (Some exit_block))
         (makeLoad rtn_name))))"

text \<open>\<^verbatim>\<open>remapYield\<close> after the operand has been remapped.\<close>

definition remapYield_rest :: "addr \<Rightarrow> expr option \<Rightarrow> expr M" where
  "remapYield_rest ya v =
     bnd (nodeName ya) (\<lambda>node_name.
     thn (pushAssign_id node_name (AST_Yield ya v))
    (bnd (makeLangPrimitive UNCACHE_EXC_INFO []) (\<lambda>prim.
     bnd (makeExpr prim) (\<lambda>st.
     thn (push_back st)
         (makeLoad node_name)))))"

text \<open>\<^verbatim>\<open>pushAssign\<close> to a tuple or a list: the assignment of the tuple of temporaries.\<close>

definition pushAssign_tuple :: "addr \<Rightarrow> ctx_type \<Rightarrow> nat \<Rightarrow> expr \<Rightarrow> unit M" where
  "pushAssign_tuple node c n val =
     bnd alloc (\<lambda>aa.
     thn (assert_that (c = Store) ''_t->ctx_type == AST_TYPE::Store'')
    (bnd alloc (\<lambda>ta.
     bnd (make_store_names node 0 n) (\<lambda>names.
     push_back (AST_Assign aa [AST_Tuple ta names Store] val)))))"

subsection \<open>The recursive functions\<close>

text \<open>
  \<^verbatim>\<open>remapExpr\<close> with the functions it calls and the loops they run. \<open>remapExpr_opt\<close> is
  \<^verbatim>\<open>remapExpr\<close> on a pointer that may be null. The small \<^verbatim>\<open>remapXxx\<close> functions that
  only \<^verbatim>\<open>remapExpr\<close> calls are written out in its equations; \<^verbatim>\<open>remapAttribute\<close> and
  \<^verbatim>\<open>remapClsAttribute\<close>, which \<^verbatim>\<open>remapCall\<close> calls as well, take the fields of their
  node. In \<^verbatim>\<open>remapComprehension\<close> the part of the loop body under
  \<^verbatim>\<open>if (is_innermost)\<close> runs once, at the end of the last round, and stands after the
  loop here. In \<^verbatim>\<open>pushAssign\<close> the tuple of temporaries is complete when the assignment
  is appended; the source appends it first and fills the tuple while it assigns the
  elements. \<^verbatim>\<open>remapList\<close> and \<^verbatim>\<open>remapTuple\<close> leave the context of the new node as
  its constructor made it (the statement that looks like an assignment is a
  comparison); the model takes \<open>Load\<close>, which the assertion in front of it requires of
  the old node.
\<close>

function (sequential) remapExpr :: "SourceInfo \<Rightarrow> expr \<Rightarrow> bool \<Rightarrow> expr M"
  and remapExpr_opt :: "SourceInfo \<Rightarrow> expr option \<Rightarrow> expr option M"
  and remapExprs :: "SourceInfo \<Rightarrow> expr list \<Rightarrow> expr list M"
  and remap_keywords :: "SourceInfo \<Rightarrow> (InternedString \<times> expr) list \<Rightarrow> (InternedString \<times> expr) list M"
  and remapAttribute :: "SourceInfo \<Rightarrow> expr \<Rightarrow> InternedString \<Rightarrow> ctx_type \<Rightarrow> expr M"
  and remapClsAttribute :: "SourceInfo \<Rightarrow> expr \<Rightarrow> InternedString \<Rightarrow> expr M"
  and boolop_loop :: "SourceInfo \<Rightarrow> InternedString \<Rightarrow> blockref \<Rightarrow> op_type \<Rightarrow> expr list \<Rightarrow> unit M"
  and compare_loop :: "SourceInfo \<Rightarrow> InternedString \<Rightarrow> blockref \<Rightarrow> expr \<Rightarrow> op_type list \<Rightarrow> expr list \<Rightarrow> unit M"
  and comp_loop :: "SourceInfo \<Rightarrow> addr \<Rightarrow> nat \<Rightarrow> blockref option \<Rightarrow> blockref list \<Rightarrow> comprehension list
                     \<Rightarrow> (blockref option \<times> blockref list) M"
  and comp_ifs :: "SourceInfo \<Rightarrow> blockref \<Rightarrow> expr list \<Rightarrow> unit M"
  and pushAssign :: "SourceInfo \<Rightarrow> expr \<Rightarrow> expr \<Rightarrow> unit M"
  and pushAssign_elts :: "SourceInfo \<Rightarrow> addr \<Rightarrow> nat \<Rightarrow> expr list \<Rightarrow> unit M"
where
  "remapExpr src (AST_Attribute a v attr c) w =
     bnd (remapAttribute src v attr c) (\<lambda>rtn. wrap_with_assign a rtn w)"
| "remapExpr src (AST_BinOp a l op r) w =
     bnd (bnd alloc (\<lambda>a'.
          bnd (remapExpr src l True) (\<lambda>l'.
          bnd (remapExpr src r True) (\<lambda>r'.
          ret (AST_BinOp a' l' op r')))))
         (\<lambda>rtn. wrap_with_assign a rtn w)"
| "remapExpr src (AST_BoolOp a op vals) w =
     bnd (bnd (nodeName a) (\<lambda>name.
          bnd addDeferredBlock (\<lambda>exit_block.
          thn (boolop_loop src name exit_block op vals)
              (remapBoolOp_end name exit_block))))
         (\<lambda>rtn. wrap_with_assign a rtn w)"
| "remapExpr src (AST_Call a func args keywords starargs kwargs) w =
     bnd (bnd alloc (\<lambda>a'.
          bnd (case func of
                 AST_Attribute fa fv fattr fc \<Rightarrow> remapAttribute src fv fattr fc
               | AST_ClsAttribute fa fv fattr \<Rightarrow> remapClsAttribute src fv fattr
               | _ \<Rightarrow> remapExpr src func True) (\<lambda>func'.
          bnd (remapExprs src args) (\<lambda>args'.
          bnd (remap_keywords src keywords) (\<lambda>keywords'.
          bnd (remapExpr_opt src starargs) (\<lambda>starargs'.
          bnd (remapExpr_opt src kwargs) (\<lambda>kwargs'.
          ret (AST_Call a' func' args' keywords' starargs' kwargs'))))))))
         (\<lambda>rtn. wrap_with_assign a rtn w)"
| "remapExpr src (AST_ClsAttribute a v attr) w =
     bnd (remapClsAttribute src v attr) (\<lambda>rtn. wrap_with_assign a rtn w)"
| "remapExpr src (AST_Compare a left ops comparators) w =
     bnd (if length ops = 1 then
            bnd alloc (\<lambda>a'.
            bnd (remapExpr src left True) (\<lambda>left'.
            bnd (remapExprs src comparators) (\<lambda>comparators'.
            ret (AST_Compare a' left' ops comparators'))))
          else
            bnd (nodeName a) (\<lambda>name.
            bnd addDeferredBlock (\<lambda>exit_block.
            bnd (remapExpr src left True) (\<lambda>left'.
            thn (compare_loop src name exit_block left' ops comparators)
                (remapCompare_end name exit_block)))))
         (\<lambda>rtn. wrap_with_assign a rtn w)"
| "remapExpr src (AST_Dict a keys vals) w =
     bnd (bnd alloc (\<lambda>a'.
          bnd (remapExprs src keys) (\<lambda>keys'.
          bnd (remapExprs src vals) (\<lambda>vals'.
          ret (AST_Dict a' keys' vals')))))
         (\<lambda>rtn. wrap_with_assign a rtn w)"
| "remapExpr src (AST_DictComp a key val generators) w =
     bnd (bnd (remapComprehension_start a True) (\<lambda>rtn_name.
          bnd (comp_loop src a 0 None [] generators) (\<lambda>(finished_block, exit_blocks).
          thn (case finished_block of
                 None \<Rightarrow> ret ()
               | Some test_block \<Rightarrow>
                   bnd (makeLoad rtn_name) (\<lambda>name.
                   bnd (remapExpr src key True) (\<lambda>key'.
                   bnd (remapExpr src val True) (\<lambda>val'.
                   remapComprehension_apply name ''__setitem__'' [key', val'] test_block exit_blocks))))
              (remapComprehension_end rtn_name exit_blocks))))
         (\<lambda>rtn. wrap_with_assign a rtn w)"
| "remapExpr src (AST_GeneratorExp a elt generators) w =
     bnd (case generators of
            [] \<Rightarrow> fail (Abort ''node->generators.size()'')
          | AST_comprehension ca target iter ifs # rest \<Rightarrow>
              bnd (remapExpr src iter True) (\<lambda>first.
              remapGeneratorExp_rest a elt generators ca first))
         (\<lambda>rtn. wrap_with_assign a rtn w)"
| "remapExpr src (AST_IfExp a test body_expr orelse) w =
     bnd (bnd (remapIfExp_start a) (\<lambda>(rtn_name, iftrue, iffalse, exit_block).
          bnd (remapExpr src test True) (\<lambda>test'.
          thn (remapIfExp_branch test' iftrue iffalse)
         (bnd (remapExpr src body_expr True) (\<lambda>body'.
          thn (remapIfExp_else rtn_name body' iffalse exit_block)
         (bnd (remapExpr src orelse True) (\<lambda>orelse'.
          remapIfExp_end rtn_name orelse' exit_block)))))))
         (\<lambda>rtn. wrap_with_assign a rtn w)"
| "remapExpr src (AST_Index a v) w =
     (if is_Num v then ret (AST_Index a v)
      else
        bnd (bnd alloc (\<lambda>a'.
             bnd (remapExpr src v True) (\<lambda>v'.
             ret (AST_Index a' v'))))
            (\<lambda>rtn. wrap_with_assign a rtn w))"
| "remapExpr src (AST_Lambda a (AST_arguments args defaults vararg kwarg) body_expr) w =
     bnd (bnd (remapExprs src defaults) (\<lambda>defaults'.
          ret (AST_Lambda a (AST_arguments args defaults' vararg kwarg) body_expr)))
         (\<lambda>rtn. wrap_with_assign a rtn w)"
| "remapExpr src (AST_LangPrimitive a opc args) w =
     bnd (bnd alloc (\<lambda>a'.
          bnd (remapExprs src args) (\<lambda>args'.
          ret (AST_LangPrimitive a' opc args'))))
         (\<lambda>rtn. wrap_with_assign a rtn w)"
| "remapExpr src (AST_List a elts c) w =
     bnd (thn (assert_that (c = Load) ''node->ctx_type == AST_TYPE::Load'')
         (bnd alloc (\<lambda>a'.
          bnd (remapExprs src elts) (\<lambda>elts'.
          ret (AST_List a' elts' Load)))))
         (\<lambda>rtn. wrap_with_assign a rtn w)"
| "remapExpr src (AST_ListComp a elt generators) w =
     bnd (bnd (remapComprehension_start a False) (\<lambda>rtn_name.
          bnd (comp_loop src a 0 None [] generators) (\<lambda>(finished_block, exit_blocks).
          thn (case finished_block of
                 None \<Rightarrow> ret ()
               | Some test_block \<Rightarrow>
                   bnd (makeLoad rtn_name) (\<lambda>name.
                   bnd (remapExpr src elt True) (\<lambda>elt'.
                   remapComprehension_apply name ''append'' [elt'] test_block exit_blocks)))
              (remapComprehension_end rtn_name exit_blocks))))
         (\<lambda>rtn. wrap_with_assign a rtn w)"
| "remapExpr src (AST_Name a n c) w = wrap_with_assign a (AST_Name a n c) w"
| "remapExpr src (AST_Num a t v) w = ret (AST_Num a t v)"
| "remapExpr src (AST_Repr a v) w =
     bnd (bnd alloc (\<lambda>a'.
          bnd (remapExpr src v True) (\<lambda>v'.
          ret (AST_Repr a' v'))))
         (\<lambda>rtn. wrap_with_assign a rtn w)"
| "remapExpr src (AST_Set a elts) w =
     bnd (bnd alloc (\<lambda>a'.
          bnd (remapExprs src elts) (\<lambda>elts'.
          ret (AST_Set a' elts'))))
         (\<lambda>rtn. wrap_with_assign a rtn w)"
| "remapExpr src (AST_Slice a lower upper step) w =
     bnd (bnd alloc (\<lambda>a'.
          bnd (remapExpr_opt src lower) (\<lambda>lower'.
          bnd (remapExpr_opt src upper) (\<lambda>upper'.
          bnd (remapExpr_opt src step) (\<lambda>step'.
          ret (AST_Slice a' lower' upper' step'))))))
         (\<lambda>rtn. wrap_with_assign a rtn w)"
| "remapExpr src (AST_Str a d) w = ret (AST_Str a d)"
| "remapExpr src (AST_Subscript a v slice c) w =
     bnd (bnd alloc (\<lambda>a'.
          bnd (remapExpr src v True) (\<lambda>v'.
          bnd (remapExpr src slice True) (\<lambda>slice'.
          ret (AST_Subscript a' v' slice' c)))))
         (\<lambda>rtn. wrap_with_assign a rtn w)"
| "remapExpr src (AST_Tuple a elts c) w =
     bnd (thn (assert_that (c = Load) ''node->ctx_type == AST_TYPE::Load'')
         (bnd alloc (\<lambda>a'.
          bnd (remapExprs src elts) (\<lambda>elts'.
          ret (AST_Tuple a' elts' Load)))))
         (\<lambda>rtn. wrap_with_assign a rtn w)"
| "remapExpr src (AST_UnaryOp a op operand) w =
     bnd (bnd alloc (\<lambda>a'.
          bnd (remapExpr src operand True) (\<lambda>operand'.
          ret (AST_UnaryOp a' op operand'))))
         (\<lambda>rtn. wrap_with_assign a rtn w)"
| "remapExpr src (AST_Yield a v) w =
     bnd (bnd alloc (\<lambda>ya.
          bnd (remapExpr_opt src v) (\<lambda>v'.
          remapYield_rest ya v')))
         (\<lambda>rtn. wrap_with_assign a rtn w)"
| "remapExpr src (AST_AugBinOp a l op r) w = fail (Abort ''remapExpr: no case for this node'')"
| "remapExpr src (AST_OtherExpr a k) w = fail (Abort ''remapExpr: no case for this node'')"

| "remapExpr_opt src None = ret None"
| "remapExpr_opt src (Some e) = bnd (remapExpr src e True) (\<lambda>e'. ret (Some e'))"

| "remapExprs src [] = ret []"
| "remapExprs src (e # es) =
     bnd (remapExpr src e True) (\<lambda>e'.
     bnd (remapExprs src es) (\<lambda>es'.
     ret (e' # es')))"

| "remap_keywords src [] = ret []"
| "remap_keywords src ((arg, v) # kws) =
     bnd alloc (\<lambda>ka.
     bnd (remapExpr src v True) (\<lambda>v'.
     bnd (remap_keywords src kws) (\<lambda>kws'.
     ret ((arg, v') # kws'))))"

| "remapAttribute src v attr c =
     bnd alloc (\<lambda>a'.
     bnd (remapExpr src v True) (\<lambda>v'.
     ret (AST_Attribute a' v' (mangleName src attr) c)))"

| "remapClsAttribute src v attr =
     bnd alloc (\<lambda>a'.
     bnd (remapExpr src v True) (\<lambda>v'.
     ret (AST_ClsAttribute a' v' attr)))"

| "boolop_loop src name exit_block op [] = fail BadPointer"
| "boolop_loop src name exit_block op [final] =
     bnd (remapExpr src final True) (\<lambda>final_val.
     remapBoolOp_final name exit_block final_val)"
| "boolop_loop src name exit_block op (v # v2 # vs) =
     bnd (remapExpr src v True) (\<lambda>val.
     thn (remapBoolOp_round name exit_block op val)
         (boolop_loop src name exit_block op (v2 # vs)))"

| "compare_loop src name exit_block left [] comparators = ret ()"
| "compare_loop src name exit_block left (op # ops) [] = fail BadPointer"
| "compare_loop src name exit_block left (op # ops) (c # cs) =
     bnd (remapExpr src c True) (\<lambda>right.
     bnd (remapCompare_round name exit_block left op right) (\<lambda>left'.
     compare_loop src name exit_block left' ops cs))"

| "comp_loop src node i finished_block exit_blocks [] = ret (finished_block, exit_blocks)"
| "comp_loop src node i finished_block exit_blocks (AST_comprehension ca target iter ifs # rest) =
     bnd (remapExpr src iter True) (\<lambda>remapped_iter.
     bnd (remapComprehension_test node i remapped_iter) (\<lambda>(test_block, exit_block, nl).
     thn (pushAssign src target nl)
    (thn (comp_ifs src test_block ifs)
    (thn (remapComprehension_link i finished_block exit_block)
         (comp_loop src node (Suc i) (Some test_block) (exit_blocks @ [exit_block]) rest)))))"

| "comp_ifs src test_block [] = ret ()"
| "comp_ifs src test_block (if_condition # rest) =
     bnd (remapExpr src if_condition True) (\<lambda>r.
     thn (remapComprehension_if test_block r)
         (comp_ifs src test_block rest))"

| "pushAssign src (AST_Name a n c) val = pushAssign_Name (AST_Name a n c) val"
| "pushAssign src (AST_Subscript a v slice c) val =
     bnd alloc (\<lambda>aa.
     thn (assert_that (c = Store) ''s->ctx_type == AST_TYPE::Store'')
    (bnd alloc (\<lambda>sa.
     bnd (remapExpr src v True) (\<lambda>v'.
     bnd (remapExpr src slice True) (\<lambda>slice'.
     push_back (AST_Assign aa [AST_Subscript sa v' slice' Store] val))))))"
| "pushAssign src (AST_Attribute a v attr c) val =
     bnd alloc (\<lambda>aa.
     thn (assert_that (c = Store) ''a->ctx_type == AST_TYPE::Store'')
    (bnd alloc (\<lambda>ta.
     bnd (remapExpr src v True) (\<lambda>v'.
     push_back (AST_Assign aa [AST_Attribute ta v' (mangleName src attr) Store] val)))))"
| "pushAssign src (AST_Tuple a elts c) val =
     thn (pushAssign_tuple a c (length elts) val)
         (pushAssign_elts src a 0 elts)"
| "pushAssign src (AST_List a elts c) val =
     thn (pushAssign_tuple a c (length elts) val)
         (pushAssign_elts src a 0 elts)"
| "pushAssign src _ val = fail (Abort ''pushAssign: no case for this target'')"

| "pushAssign_elts src target i [] = ret ()"
| "pushAssign_elts src target i (e # es) =
     bnd (nodeName_idx target [] i) (\<lambda>tmp_name.
     bnd (makeLoad tmp_name) (\<lambda>ld.
     thn (pushAssign src e ld)
         (pushAssign_elts src target (Suc i) es)))"
  by pat_completeness auto
termination
  by (relation "measure
     (case_sum
       (case_sum
         (case_sum (\<lambda>(src, e, w). 2 * size e + 1)
           (case_sum (\<lambda>(src, eo). 2 * size_option size eo + 1)
                     (\<lambda>(src, es). 2 * size_list size es + 1)))
         (case_sum (\<lambda>(src, kws). 2 * size_list (size_prod (\<lambda>_. 0) size) kws + 1)
           (case_sum (\<lambda>(src, v, attr, c). 2 * size v + 2)
                     (\<lambda>(src, v, attr). 2 * size v + 2))))
       (case_sum
         (case_sum (\<lambda>(src, name, exit_block, op, vals). 2 * size_list size vals + 1)
           (case_sum (\<lambda>(src, name, exit_block, left, ops, cs). 2 * size_list size cs + 1)
                     (\<lambda>(src, node, i, fin, exits, gens). 2 * size_list size gens + 1)))
         (case_sum (\<lambda>(src, tb, ifs). 2 * size_list size ifs + 1)
           (case_sum (\<lambda>(src, target, val). 2 * size target + 1)
                     (\<lambda>(src, target, i, elts). 2 * size_list size elts + 1)))))")
     simp_all

section \<open>The statement lowerer\<close>

subsection \<open>Statements without nested statements\<close>

definition visit_classdef :: "SourceInfo \<Rightarrow> addr \<Rightarrow> InternedString \<Rightarrow> expr list \<Rightarrow> expr list \<Rightarrow> stmt list \<Rightarrow> unit M" where
  "visit_classdef src a name bases decorator_list stmts =
     bnd (remapExprs src decorator_list) (\<lambda>decorator_list'.
     bnd (remapExprs src bases) (\<lambda>bases'.
     push_back (AST_ClassDef a name bases' decorator_list' stmts)))"

definition visit_functiondef :: "SourceInfo \<Rightarrow> addr \<Rightarrow> InternedString \<Rightarrow> arguments \<Rightarrow> expr list \<Rightarrow> stmt list \<Rightarrow> unit M" where
  "visit_functiondef src a name args decorator_list stmts =
     (case args of AST_arguments params defaults vararg kwarg \<Rightarrow>
        bnd (remapExprs src decorator_list) (\<lambda>decorator_list'.
        bnd (remapExprs src defaults) (\<lambda>defaults'.
        push_back (AST_FunctionDef a name (AST_arguments params defaults' vararg kwarg)
                     decorator_list' stmts))))"

text \<open>\<^verbatim>\<open>std::string::find(c, pos)\<close>, with \<open>size()\<close> where the source replaces \<^verbatim>\<open>npos\<close>
  by it, and \<^verbatim>\<open>substr(pos, len)\<close> for \<open>pos \<le> size()\<close>.\<close>

definition find_from :: "char \<Rightarrow> string \<Rightarrow> nat \<Rightarrow> nat" where
  "find_from c str l =
     (if l > length str then length str
      else l + length (takeWhile (\<lambda>x. x \<noteq> c) (drop l str)))"

definition substr :: "string \<Rightarrow> nat \<Rightarrow> nat \<Rightarrow> string" where
  "substr str pos len = take len (drop pos str)"

definition getTopModule :: "string \<Rightarrow> string" where
  "getTopModule full_name = takeWhile (\<lambda>x. x \<noteq> CHR ''.'') full_name"

text \<open>The \<^verbatim>\<open>do ... while\<close> loop of \<^verbatim>\<open>visit_import\<close> that follows the dots of a module
  name.\<close>

function import_attrs :: "InternedString \<Rightarrow> string \<Rightarrow> nat \<Rightarrow> unit M" where
  "import_attrs tmpname name l =
     (let r = find_from CHR ''.'' name l in
      if l = 0 then
        (if r + 1 < length name then import_attrs tmpname name (r + 1) else ret ())
      else
        thn (bnd (makeLoad tmpname) (\<lambda>ld.
             bnd alloc (\<lambda>a.
             pushAssign_id tmpname (AST_Attribute a ld (substr name l r) Load))))
            (if r + 1 < length name then import_attrs tmpname name (r + 1) else ret ()))"
  by pat_completeness auto
termination
  by (relation "measure (\<lambda>(tmpname, name, l). length name - l)")
     (auto simp: find_from_def split: if_splits)

declare import_attrs.simps [simp del]

definition visit_import_alias :: "import_alias \<Rightarrow> unit M" where
  "visit_import_alias al =
     (case al of AST_alias aa name asname \<Rightarrow>
        bnd alloc (\<lambda>ia.
        bnd (makeNum (-1)) (\<lambda>level.
        bnd (makeLangPrimitive NONE []) (\<lambda>none.
        bnd alloc (\<lambda>sa.
        bnd (nodeName aa) (\<lambda>tmpname.
        thn (pushAssign_id tmpname (AST_LangPrimitive ia IMPORT_NAME [level, none, AST_Str sa name]))
            (if asname = [] then
               bnd (makeLoad tmpname) (\<lambda>ld. pushAssign_id (getTopModule name) ld)
             else
               thn (import_attrs tmpname name 0)
                   (bnd (makeLoad tmpname) (\<lambda>ld. pushAssign_id asname ld)))))))))"

fun visit_import :: "import_alias list \<Rightarrow> unit M" where
  "visit_import [] = ret ()"
| "visit_import (al # names) = thn (visit_import_alias al) (visit_import names)"

fun importfrom_strs :: "import_alias list \<Rightarrow> expr list M" where
  "importfrom_strs [] = ret []"
| "importfrom_strs (AST_alias aa name asname # names) =
     bnd alloc (\<lambda>sa.
     bnd (importfrom_strs names) (\<lambda>rest.
     ret (AST_Str sa name # rest)))"

fun importfrom_names :: "InternedString \<Rightarrow> import_alias list \<Rightarrow> unit M" where
  "importfrom_names tmp_module_name [] = ret ()"
| "importfrom_names tmp_module_name (AST_alias aa name asname # names) =
     thn (if name = ''*'' then
            bnd alloc (\<lambda>ia.
            bnd (makeLoad tmp_module_name) (\<lambda>ld.
            bnd alloc (\<lambda>ea.
            push_back (AST_Expr ea (AST_LangPrimitive ia IMPORT_STAR [ld])))))
          else
            bnd alloc (\<lambda>ia.
            bnd (makeLoad tmp_module_name) (\<lambda>ld.
            bnd alloc (\<lambda>sa.
            bnd (nodeName aa) (\<lambda>tmp_import_name.
            thn (pushAssign_id tmp_import_name (AST_LangPrimitive ia IMPORT_FROM [ld, AST_Str sa name]))
                (bnd (makeLoad tmp_import_name) (\<lambda>ld2.
                 pushAssign_id (if asname \<noteq> [] then asname else name) ld2)))))))
         (importfrom_names tmp_module_name names)"

definition visit_importfrom :: "SourceInfo \<Rightarrow> addr \<Rightarrow> InternedString \<Rightarrow> import_alias list \<Rightarrow> int \<Rightarrow> unit M" where
  "visit_importfrom src a module names level =
     thn (assert_that (level = 0) ''node->level == 0'')
    (bnd alloc (\<lambda>ia.
     bnd (makeNum (if level = 0 \<and> \<not> absolute_import src then -1 else level)) (\<lambda>lv.
     bnd alloc (\<lambda>ta.
     bnd (importfrom_strs names) (\<lambda>strs.
     bnd alloc (\<lambda>sa.
     bnd (nodeName a) (\<lambda>tmp_module_name.
     thn (pushAssign_id tmp_module_name
            (AST_LangPrimitive ia IMPORT_NAME [lv, AST_Tuple ta strs Load, AST_Str sa module]))
         (importfrom_names tmp_module_name names))))))))"

definition visit_assert :: "SourceInfo \<Rightarrow> addr \<Rightarrow> expr \<Rightarrow> expr option \<Rightarrow> unit M" where
  "visit_assert src a test msg =
     bnd alloc (\<lambda>ba.
     bnd (remapExpr src test True) (\<lambda>t.
     bnd (callNonzero t) (\<lambda>test'.
     thn (push_back (AST_Branch ba test' None None))
    (bnd addBlock (\<lambda>iffalse.
     thn (set_info iffalse ''assert_fail'')
    (bnd the_curblock (\<lambda>cb.
     thn (connectTo cb iffalse False)
    (bnd addBlock (\<lambda>iftrue.
     thn (set_info iftrue ''assert_pass'')
    (bnd the_curblock (\<lambda>cb'.
     thn (connectTo cb' iftrue False)
    (thn (branch_set_iftrue ba iftrue)
    (thn (branch_set_iffalse ba iffalse)
    (thn (set_curblock (Some iffalse))
    (bnd alloc (\<lambda>ra.
     bnd (remapExpr_opt src msg) (\<lambda>msg'.
     bnd (makeNum 0) (\<lambda>fake_test.
     thn (push_back (AST_Assert ra fake_test msg'))
    (bnd addBlock (\<lambda>unreachable.
     thn (set_info unreachable ''unreachable'')
    (thn (pushJump unreachable False)
    (thn (set_curblock (Some unreachable))
    (thn (pushJump unreachable True)
         (set_curblock (Some iftrue)))))))))))))))))))))))))"

fun assign_targets :: "SourceInfo \<Rightarrow> expr \<Rightarrow> expr list \<Rightarrow> unit M" where
  "assign_targets src remapped_value [] = ret ()"
| "assign_targets src remapped_value (target # targets) =
     bnd (dup remapped_value) (\<lambda>d.
     thn (pushAssign src target d)
         (assign_targets src remapped_value targets))"

definition visit_assign :: "SourceInfo \<Rightarrow> expr list \<Rightarrow> expr \<Rightarrow> unit M" where
  "visit_assign src targets v =
     bnd (remapExpr src v True) (\<lambda>remapped_value.
     assign_targets src remapped_value targets)"

text \<open>\<^verbatim>\<open>visit_augassign\<close>: the target to assign to and the value of the left-hand side.\<close>

definition augassign_target :: "SourceInfo \<Rightarrow> expr \<Rightarrow> (expr \<times> expr) M" where
  "augassign_target src target =
     (case target of
        AST_Name na n c \<Rightarrow>
          thn (assert_that (c = Store) ''n->ctx_type == AST_TYPE::Store'')
         (bnd (nodeName na) (\<lambda>n_name.
          bnd (makeLoad n) (\<lambda>ld.
          thn (pushAssign_id n_name ld)
         (bnd (makeLoad n_name) (\<lambda>remapped_lhs.
          ret (AST_Name na n c, remapped_lhs))))))
      | AST_Subscript sa v slice c \<Rightarrow>
          thn (assert_that (c = Store) ''s->ctx_type == AST_TYPE::Store'')
         (bnd alloc (\<lambda>ta.
          bnd (remapExpr src v True) (\<lambda>v'.
          bnd (remapExpr src slice True) (\<lambda>slice'.
          bnd alloc (\<lambda>la.
          bnd (dup v') (\<lambda>v2.
          bnd (dup slice') (\<lambda>slice2.
          bnd (remapExpr src (AST_Subscript la v2 slice2 Load) True) (\<lambda>remapped_lhs.
          ret (AST_Subscript ta v' slice' Store, remapped_lhs)))))))))
      | AST_Attribute aa v attr c \<Rightarrow>
          thn (assert_that (c = Store) ''a->ctx_type == AST_TYPE::Store'')
         (bnd alloc (\<lambda>ta.
          bnd (remapExpr src v True) (\<lambda>v'.
          bnd alloc (\<lambda>la.
          bnd (dup v') (\<lambda>v2.
          bnd (remapExpr src (AST_Attribute la v2 attr Load) True) (\<lambda>remapped_lhs.
          ret (AST_Attribute ta v' attr Store, remapped_lhs)))))))
      | _ \<Rightarrow> fail (Abort ''visit_augassign: no case for this target''))"

definition visit_augassign :: "SourceInfo \<Rightarrow> addr \<Rightarrow> expr \<Rightarrow> op_type \<Rightarrow> expr \<Rightarrow> unit M" where
  "visit_augassign src a target op v =
     bnd (augassign_target src target) (\<lambda>(remapped_target, remapped_lhs).
     bnd alloc (\<lambda>ba.
     bnd (remapExpr src v True) (\<lambda>right.
     bnd (nodeName a) (\<lambda>node_name.
     thn (pushAssign_id node_name (AST_AugBinOp ba remapped_lhs op right))
    (bnd (makeLoad node_name) (\<lambda>ld.
     pushAssign src remapped_target ld))))))"

text \<open>\<^verbatim>\<open>visit_delete\<close>: it calls itself on the elements of a list or a tuple.\<close>

fun visit_delete_target :: "SourceInfo \<Rightarrow> expr \<Rightarrow> expr option M"
  and visit_delete :: "SourceInfo \<Rightarrow> expr list \<Rightarrow> unit M" where
  "visit_delete_target src (AST_Subscript a v slice c) =
     bnd alloc (\<lambda>sa.
     bnd (remapExpr src v True) (\<lambda>v'.
     bnd (remapExpr src slice True) (\<lambda>slice'.
     ret (Some (AST_Subscript sa v' slice' Del)))))"
| "visit_delete_target src (AST_Attribute a v attr c) =
     bnd (remapExpr src (AST_Attribute a v attr c) False) (\<lambda>r.
       case r of
         AST_Attribute ra rv rattr rc \<Rightarrow> ret (Some (AST_Attribute ra rv rattr Del))
       | _ \<Rightarrow> fail BadPointer)"
| "visit_delete_target src (AST_Name a n c) = ret (Some (AST_Name a n c))"
| "visit_delete_target src (AST_List a elts c) =
     bnd alloc (\<lambda>temp_ast_del.
     thn (visit_delete src elts)
         (ret None))"
| "visit_delete_target src (AST_Tuple a elts c) =
     bnd alloc (\<lambda>temp_ast_del.
     thn (visit_delete src elts)
         (ret None))"
| "visit_delete_target src _ = fail (Abort ''Unsupported del target'')"
| "visit_delete src [] = ret ()"
| "visit_delete src (t # targets) =
     bnd alloc (\<lambda>da.
     bnd (visit_delete_target src t) (\<lambda>target.
     thn (case target of
            None \<Rightarrow> ret ()
          | Some tg \<Rightarrow> push_back (AST_Delete da [tg]))
         (visit_delete src targets)))"

definition visit_expr :: "SourceInfo \<Rightarrow> expr \<Rightarrow> unit M" where
  "visit_expr src v =
     bnd alloc (\<lambda>ea.
     bnd (remapExpr src v False) (\<lambda>v'.
     push_back (AST_Expr ea v')))"

text \<open>Null is duplicated to null.\<close>

definition dup_opt :: "expr option \<Rightarrow> expr option M" where
  "dup_opt v = (case v of None \<Rightarrow> ret None | Some e \<Rightarrow> bnd (dup e) (\<lambda>d. ret (Some d)))"

fun print_values :: "SourceInfo \<Rightarrow> expr option \<Rightarrow> bool \<Rightarrow> expr list \<Rightarrow> unit M" where
  "print_values src dest nl [] = ret ()"
| "print_values src dest nl (v # vs) =
     bnd alloc (\<lambda>pa.
     bnd (dup_opt dest) (\<lambda>dest'.
     bnd (remapExpr src v True) (\<lambda>v'.
     thn (push_back (AST_Print pa dest' (if vs \<noteq> [] then False else nl) [v']))
         (print_values src dest nl vs))))"

definition visit_print :: "SourceInfo \<Rightarrow> expr option \<Rightarrow> bool \<Rightarrow> expr list \<Rightarrow> unit M" where
  "visit_print src dest nl vals =
     bnd (remapExpr_opt src dest) (\<lambda>dest'.
     thn (print_values src dest' nl vals)
         (whenM (vals = [])
            (thn (assert_that nl ''node->nl'')
                 (bnd alloc (\<lambda>pa. push_back (AST_Print pa dest' nl []))))))"

definition visit_return :: "SourceInfo \<Rightarrow> expr option \<Rightarrow> unit M" where
  "visit_return src v =
     (if root_type src \<noteq> FunctionDef \<and> root_type src \<noteq> Lambda \<and> root_type src \<noteq> Expression then
        fail (SyntaxError '''return' outside function'')
      else
        bnd (gets curblock) (\<lambda>cur.
          if cur = None then ret ()
          else
            bnd (remapExpr_opt src v) (\<lambda>v'.
            bnd (case v' of None \<Rightarrow> makeLoad ''None'' | Some e \<Rightarrow> ret e) (\<lambda>val.
            doReturn val))))"

definition visit_break :: "unit M" where
  "visit_break =
     bnd (gets curblock) (\<lambda>cur.
       if cur = None then ret ()
       else
         thn doBreak
        (bnd (gets curblock) (\<lambda>cur'.
         assert_that (cur' = None) ''!curblock'')))"

definition visit_continue :: "unit M" where
  "visit_continue =
     bnd (gets curblock) (\<lambda>cur.
       if cur = None then ret ()
       else
         thn doContinue
        (bnd (gets curblock) (\<lambda>cur'.
         assert_that (cur' = None) ''!curblock'')))"

definition visit_exec :: "unit M" where
  "visit_exec = fail (SyntaxError '''exec' currently not supported'')"

definition visit_raise :: "SourceInfo \<Rightarrow> expr option \<Rightarrow> expr option \<Rightarrow> expr option \<Rightarrow> unit M" where
  "visit_raise src arg0 arg1 arg2 =
     bnd alloc (\<lambda>ra.
     bnd (remapExpr_opt src arg0) (\<lambda>arg0'.
     bnd (remapExpr_opt src arg1) (\<lambda>arg1'.
     bnd (remapExpr_opt src arg2) (\<lambda>arg2'.
     thn (push_back (AST_Raise ra arg0' arg1' arg2'))
         (set_curblock None)))))"

subsection \<open>The straight-line parts of the compound statements\<close>

text \<open>\<^verbatim>\<open>visit_if\<close>: up to the body, between the body and the \<^verbatim>\<open>else\<close> part, and the end.\<close>

definition visit_if_start :: "SourceInfo \<Rightarrow> expr \<Rightarrow> (addr \<times> blockref \<times> blockref) M" where
  "visit_if_start src test =
     bnd alloc (\<lambda>ba.
     bnd (remapExpr src test True) (\<lambda>t.
     bnd (callNonzero t) (\<lambda>test'.
     thn (push_back (AST_Branch ba test' None None))
    (bnd the_curblock (\<lambda>starting_block.
     bnd addDeferredBlock (\<lambda>exit_block.
     thn (set_info exit_block ''ifexit'')
    (bnd addBlock (\<lambda>iftrue.
     thn (set_info iftrue ''iftrue'')
    (thn (branch_set_iftrue ba iftrue)
    (thn (connectTo starting_block iftrue False)
    (thn (set_curblock (Some iftrue))
         (ret (ba, starting_block, exit_block)))))))))))))"

definition jump_if_reachable :: "blockref \<Rightarrow> bool \<Rightarrow> unit M" where
  "jump_if_reachable target allow_backedge =
     bnd (gets curblock) (\<lambda>cur.
       if cur \<noteq> None then pushJump target allow_backedge else ret ())"

definition visit_if_else :: "addr \<Rightarrow> blockref \<Rightarrow> blockref \<Rightarrow> unit M" where
  "visit_if_else ba starting_block exit_block =
     thn (jump_if_reachable exit_block False)
    (bnd addBlock (\<lambda>iffalse.
     thn (branch_set_iffalse ba iffalse)
    (thn (connectTo starting_block iffalse False)
    (thn (set_info iffalse ''iffalse'')
         (set_curblock (Some iffalse))))))"

text \<open>A deferred block that nothing jumps to is dropped; otherwise it is placed and
  becomes the cursor.\<close>

definition place_if_reached :: "blockref \<Rightarrow> unit M" where
  "place_if_reached b =
     bnd (get_block b) (\<lambda>blk.
       if length (predecessors blk) = 0 then set_curblock None
       else thn (placeBlock b) (set_curblock (Some b)))"

definition visit_if_end :: "blockref \<Rightarrow> unit M" where
  "visit_if_end exit_block =
     thn (jump_if_reachable exit_block False)
         (place_if_reached exit_block)"

text \<open>\<^verbatim>\<open>visit_while\<close>.\<close>

definition visit_while_start :: "SourceInfo \<Rightarrow> expr \<Rightarrow> (addr \<times> blockref \<times> blockref \<times> blockref) M" where
  "visit_while_start src test =
     bnd addBlock (\<lambda>test_block.
     thn (set_info test_block ''while_test'')
    (thn (pushJump test_block False)
    (thn (set_curblock (Some test_block))
    (bnd (remapExpr src test True) (\<lambda>t.
     bnd (makeBranch t) (\<lambda>(ba, test').
     bnd the_curblock (\<lambda>test_block_end.
     thn (push_back (AST_Branch ba test' None None))
    (bnd addDeferredBlock (\<lambda>end_block.
     thn (set_info end_block ''while_exit'')
    (thn (pushLoopContinuation test_block end_block)
    (bnd addBlock (\<lambda>body_block.
     thn (set_info body_block ''while_body_start'')
    (thn (branch_set_iftrue ba body_block)
    (thn (connectTo test_block_end body_block False)
    (thn (set_curblock (Some body_block))
         (ret (ba, test_block, test_block_end, end_block)))))))))))))))))"

definition visit_while_else :: "addr \<Rightarrow> blockref \<Rightarrow> blockref \<Rightarrow> unit M" where
  "visit_while_else ba test_block test_block_end =
     thn (jump_if_reachable test_block True)
    (thn popContinuation
    (bnd addBlock (\<lambda>orelse.
     thn (set_info orelse ''while_orelse_start'')
    (thn (branch_set_iffalse ba orelse)
    (thn (connectTo test_block_end orelse False)
         (set_curblock (Some orelse)))))))"

definition visit_while_end :: "blockref \<Rightarrow> unit M" where
  "visit_while_end end_block =
     thn (jump_if_reachable end_block False)
    (thn (set_curblock (Some end_block))
         (placeBlock end_block))"

text \<open>\<^verbatim>\<open>visit_for\<close>. \<open>for_hasnext_branch\<close> is the test of the iterator with its two
  trampoline blocks, which the source writes twice.\<close>

definition render_iter_name :: "addr \<Rightarrow> InternedString" where
  "render_iter_name node = take 79 (append ''#iter_'' (render_ptr node))"

definition for_hasnext_branch :: "SourceInfo \<Rightarrow> InternedString \<Rightarrow> (blockref \<times> blockref) M" where
  "for_hasnext_branch src itername =
     bnd (makeLoad itername) (\<lambda>ld.
     bnd (makeLoadAttribute ld ''__hasnext__'' True) (\<lambda>hasnext_attr.
     bnd (makeCall hasnext_attr []) (\<lambda>test_call.
     bnd (remapExpr src test_call True) (\<lambda>t.
     bnd (makeBranch t) (\<lambda>(ba, test').
     thn (push_back (AST_Branch ba test' None None))
    (bnd addBlock (\<lambda>test_true.
     bnd addBlock (\<lambda>test_false.
     thn (branch_set_iftrue ba test_true)
    (thn (branch_set_iffalse ba test_false)
    (bnd the_curblock (\<lambda>cb.
     thn (connectTo cb test_true False)
    (bnd the_curblock (\<lambda>cb'.
     thn (connectTo cb' test_false False)
         (ret (test_true, test_false)))))))))))))))"

definition visit_for_start :: "SourceInfo \<Rightarrow> addr \<Rightarrow> expr \<Rightarrow> expr \<Rightarrow> (InternedString \<times> blockref \<times> blockref \<times> blockref) M" where
  "visit_for_start src node target iter =
     bnd (remapExpr src iter True) (\<lambda>remapped_iter.
     bnd (makeLangPrimitive GET_ITER [remapped_iter]) (\<lambda>iter_call.
     thn (pushAssign_id (render_iter_name node) iter_call)
    (bnd (makeLoad (render_iter_name node)) (\<lambda>ld.
     bnd (makeLoadAttribute ld ''next'' True) (\<lambda>next_attr.
     bnd addBlock (\<lambda>test_block.
     thn (pushJump test_block False)
    (thn (set_curblock (Some test_block))
    (bnd (for_hasnext_branch src (render_iter_name node)) (\<lambda>(test_true, test_false).
     bnd addBlock (\<lambda>loop_block.
     bnd addDeferredBlock (\<lambda>end_block.
     bnd addDeferredBlock (\<lambda>else_block.
     thn (set_curblock (Some test_true))
    (thn (pushJump loop_block False)
    (thn (set_curblock (Some test_false))
    (thn (pushJump else_block False)
    (thn (pushLoopContinuation test_block end_block)
    (thn (set_curblock (Some loop_block))
    (bnd (nodeName (expr_addr next_attr)) (\<lambda>next_name.
     bnd (makeCall next_attr []) (\<lambda>nc.
     thn (pushAssign_id next_name nc)
    (bnd (makeLoad next_name) (\<lambda>nl.
     thn (pushAssign src target nl)
         (ret (render_iter_name node, loop_block, end_block, else_block))))))))))))))))))))))))"

definition visit_for_else :: "SourceInfo \<Rightarrow> InternedString \<Rightarrow> blockref \<Rightarrow> blockref \<Rightarrow> unit M" where
  "visit_for_else src itername loop_block else_block =
     thn popContinuation
    (thn (bnd (gets curblock) (\<lambda>cur.
            if cur \<noteq> None then
              bnd (for_hasnext_branch src itername) (\<lambda>(end_true, end_false).
              thn (set_curblock (Some end_true))
             (thn (pushJump loop_block True)
             (thn (set_curblock (Some end_false))
                  (pushJump else_block False))))
            else ret ()))
    (thn (placeBlock else_block)
         (set_curblock (Some else_block))))"

definition visit_for_end :: "blockref \<Rightarrow> unit M" where
  "visit_for_end end_block =
     thn (jump_if_reachable end_block False)
    (thn (placeBlock end_block)
         (set_curblock (Some end_block)))"

text \<open>The stack of exception handlers; popping an empty vector is undefined behaviour.\<close>

definition push_exc_handler :: "ExcBlockInfo \<Rightarrow> unit M" where
  "push_exc_handler h = modify (\<lambda>s. s\<lparr>exc_handlers := h # exc_handlers s\<rparr>)"

definition pop_exc_handler :: "unit M" where
  "pop_exc_handler =
     bnd (gets exc_handlers) (\<lambda>hs.
       case hs of [] \<Rightarrow> fail BadPointer
       | _ # rest \<Rightarrow> modify (\<lambda>s. s\<lparr>exc_handlers := rest\<rparr>))"

text \<open>\<^verbatim>\<open>visit_tryexcept\<close>. A deferred block that is deleted stays in the heap of the
  model, unplaced and unreferenced.\<close>

definition visit_tryexcept_start :: "addr \<Rightarrow> ExcBlockInfo M" where
  "visit_tryexcept_start node =
     bnd addDeferredBlock (\<lambda>exc_handler_block.
     bnd (nodeName_suffix node ''type'') (\<lambda>type_name.
     bnd (nodeName_suffix node ''value'') (\<lambda>value_name.
     bnd (nodeName_suffix node ''traceback'') (\<lambda>traceback_name.
     (let h = \<lparr>exc_dest = exc_handler_block, exc_type_name = type_name,
                exc_value_name = value_name, exc_traceback_name = traceback_name\<rparr> in
      thn (push_exc_handler h) (ret h))))))"

text \<open>After the \<^verbatim>\<open>else\<close> part: the join block, and whether the handlers are reachable.
  The result is the join block and the load of the exception object when they are.\<close>

definition visit_tryexcept_join :: "ExcBlockInfo \<Rightarrow> (blockref \<times> expr option) M" where
  "visit_tryexcept_join h =
     bnd addDeferredBlock (\<lambda>join_block.
     thn (jump_if_reachable join_block False)
    (bnd (get_block (exc_dest h)) (\<lambda>blk.
       if length (predecessors blk) = 0 then ret (join_block, None)
       else
         thn (placeBlock (exc_dest h))
        (thn (set_curblock (Some (exc_dest h)))
        (bnd (makeLoad (exc_value_name h)) (\<lambda>exc_obj.
         ret (join_block, Some exc_obj)))))))"

definition visit_handler_start :: "SourceInfo \<Rightarrow> ExcBlockInfo \<Rightarrow> expr \<Rightarrow> expr option \<Rightarrow> expr option \<Rightarrow> blockref option M" where
  "visit_handler_start src h exc_obj handler_type handler_name =
     bnd (case handler_type of
            Some ty \<Rightarrow>
              bnd (remapExpr src ty True) (\<lambda>handled_type.
              bnd alloc (\<lambda>ia.
              bnd (dup exc_obj) (\<lambda>obj.
              bnd (makeNum 1) (\<lambda>flag.
              bnd alloc (\<lambda>ba.
              bnd (remapExpr src (AST_LangPrimitive ia ISINSTANCE [obj, handled_type, flag]) True) (\<lambda>t.
              bnd (callNonzero t) (\<lambda>test.
              bnd addBlock (\<lambda>exc_handle.
              bnd addDeferredBlock (\<lambda>exc_next.
              bnd the_curblock (\<lambda>cb.
              thn (connectTo cb exc_handle False)
             (bnd the_curblock (\<lambda>cb'.
              thn (connectTo cb' exc_next False)
             (thn (push_back (AST_Branch ba test (Some exc_handle) (Some exc_next)))
             (thn (set_curblock (Some exc_handle))
                  (ret (Some exc_next))))))))))))))))
          | None \<Rightarrow> ret None) (\<lambda>exc_next.
     bnd alloc (\<lambda>sa.
     bnd (makeLoad (exc_type_name h)) (\<lambda>l1.
     bnd (makeLoad (exc_value_name h)) (\<lambda>l2.
     bnd (makeLoad (exc_traceback_name h)) (\<lambda>l3.
     bnd (makeExpr (AST_LangPrimitive sa SET_EXC_INFO [l1, l2, l3])) (\<lambda>st.
     thn (push_back st)
    (thn (case handler_name of
            None \<Rightarrow> ret ()
          | Some nm \<Rightarrow> bnd (dup exc_obj) (\<lambda>d. pushAssign src nm d))
         (ret exc_next))))))))"

definition visit_handler_end :: "blockref \<Rightarrow> blockref option \<Rightarrow> bool \<Rightarrow> unit M" where
  "visit_handler_end join_block exc_next caught_all =
     thn (jump_if_reachable join_block False)
    (thn (case exc_next of
            Some b \<Rightarrow> placeBlock b
          | None \<Rightarrow> assert_that caught_all ''caught_all'')
         (set_curblock exc_next))"

definition push_reraise :: "InternedString \<Rightarrow> InternedString \<Rightarrow> InternedString \<Rightarrow> unit M" where
  "push_reraise type_name value_name traceback_name =
     bnd alloc (\<lambda>ra.
     bnd (makeLoad type_name) (\<lambda>l1.
     bnd (makeLoad value_name) (\<lambda>l2.
     bnd (makeLoad traceback_name) (\<lambda>l3.
     push_back (AST_Raise ra (Some l1) (Some l2) (Some l3))))))"

definition visit_tryexcept_uncaught :: "ExcBlockInfo \<Rightarrow> bool \<Rightarrow> unit M" where
  "visit_tryexcept_uncaught h caught_all =
     whenM (\<not> caught_all)
       (thn (push_reraise (exc_type_name h) (exc_value_name h) (exc_traceback_name h))
            (set_curblock None))"

text \<open>\<^verbatim>\<open>makeFinallyCont\<close>, the helper of \<^verbatim>\<open>visit_tryfinally\<close> and \<^verbatim>\<open>visit_with\<close>.\<close>

definition makeFinallyCont :: "Why \<Rightarrow> expr \<Rightarrow> blockref \<Rightarrow> blockref M" where
  "makeFinallyCont reason whyexpr then_block =
     bnd addDeferredBlock (\<lambda>otherwise.
     thn (set_info otherwise ''finally_otherwise'')
    (bnd (makeNum (int (why_num reason))) (\<lambda>n.
     bnd (makeCompare Eq whyexpr n) (\<lambda>cmp.
     thn (pushBranch cmp then_block otherwise)
    (thn (placeBlock otherwise)
         (ret otherwise))))))"

text \<open>\<^verbatim>\<open>visit_tryfinally\<close>: before the body, between the body and the final body, and
  the dispatch on the reason after the final body.\<close>

definition visit_tryfinally_start :: "addr \<Rightarrow> (ExcBlockInfo \<times> InternedString \<times> blockref) M" where
  "visit_tryfinally_start node =
     bnd addDeferredBlock (\<lambda>exc_handler_block.
     bnd (nodeName_suffix node ''type'') (\<lambda>type_name.
     bnd (nodeName_suffix node ''value'') (\<lambda>value_name.
     bnd (nodeName_suffix node ''traceback'') (\<lambda>traceback_name.
     bnd (nodeName_suffix node ''why'') (\<lambda>exc_why_name.
     (let h = \<lparr>exc_dest = exc_handler_block, exc_type_name = type_name,
                exc_value_name = value_name, exc_traceback_name = traceback_name\<rparr> in
      thn (push_exc_handler h)
     (bnd addDeferredBlock (\<lambda>finally_block.
      thn (pushFinallyContinuation finally_block exc_why_name)
          (ret (h, exc_why_name, finally_block))))))))))"

definition top_did_why :: "int M" where
  "top_did_why =
     bnd (gets continuations) (\<lambda>cs.
       case cs of [] \<Rightarrow> fail BadPointer | c # _ \<Rightarrow> ret (did_why c))"

definition visit_tryfinally_finally :: "ExcBlockInfo \<Rightarrow> InternedString \<Rightarrow> blockref \<Rightarrow> int M" where
  "visit_tryfinally_finally h exc_why_name finally_block =
     thn pop_exc_handler
    (bnd top_did_why (\<lambda>d.
     thn popContinuation
    (thn (bnd (gets curblock) (\<lambda>cur.
            if cur \<noteq> None then
              bnd (makeNum (int (why_num FALLTHROUGH))) (\<lambda>n.
              thn (pushAssign_id exc_why_name n)
                  (pushJump finally_block False))
            else ret ()))
    (thn (bnd (get_block (exc_dest h)) (\<lambda>blk.
            if length (predecessors blk) = 0 then ret ()
            else
              thn (placeBlock (exc_dest h))
             (thn (set_curblock (Some (exc_dest h)))
             (bnd (makeNum (int (why_num EXCEPTION))) (\<lambda>n.
              thn (pushAssign_id exc_why_name n)
                  (pushJump finally_block False))))))
    (thn (placeBlock finally_block)
    (thn (set_curblock (Some finally_block))
         (ret d)))))))"

text \<open>One arm of the dispatch: the comparison of the reason with \<open>tag\<close>, the block that
  resumes with \<open>action\<close>, and the block for the other reasons as the new cursor.\<close>

definition finally_arm :: "Why \<Rightarrow> InternedString \<Rightarrow> string \<Rightarrow> unit M \<Rightarrow> unit M" where
  "finally_arm tag why_var block_info action =
     bnd addDeferredBlock (\<lambda>then_block.
     thn (whenM (block_info \<noteq> []) (set_info then_block block_info))
    (bnd (makeLoad why_var) (\<lambda>w.
     bnd (makeFinallyCont tag w then_block) (\<lambda>otherwise.
     thn (placeBlock then_block)
    (thn (set_curblock (Some then_block))
    (thn action
         (set_curblock (Some otherwise))))))))"

definition visit_tryfinally_dispatch :: "ExcBlockInfo \<Rightarrow> InternedString \<Rightarrow> int \<Rightarrow> unit M" where
  "visit_tryfinally_dispatch h exc_why_name d =
     bnd (gets curblock) (\<lambda>cur.
       if cur = None then ret ()
       else
         thn (whenM (did_why_has d RETURN)
                (finally_arm RETURN exc_why_name []
                   (bnd (makeLoad RETURN_NAME) (\<lambda>r. doReturn r))))
        (thn (whenM (did_why_has d BREAK)
                (finally_arm BREAK exc_why_name [] doBreak))
        (thn (whenM (did_why_has d CONTINUE)
                (finally_arm RETURN exc_why_name [] doContinue))
             (finally_arm EXCEPTION exc_why_name []
                (push_reraise (exc_type_name h) (exc_value_name h) (exc_traceback_name h))))))"

text \<open>\<^verbatim>\<open>visit_with\<close>: before the body and after it.\<close>

definition visit_with_start :: "SourceInfo \<Rightarrow> addr \<Rightarrow> expr \<Rightarrow> expr option
     \<Rightarrow> (ExcBlockInfo \<times> InternedString \<times> InternedString \<times> blockref \<times> blockref) M" where
  "visit_with_start src node context_expr optional_vars =
     bnd (nodeName_suffix node ''ctxmgr'') (\<lambda>ctxmgrname.
     bnd (nodeName_suffix node ''exit'') (\<lambda>exitname.
     bnd (nodeName_suffix node ''why'') (\<lambda>whyname.
     bnd (nodeName_suffix node ''exc_type'') (\<lambda>type_name.
     bnd (nodeName_suffix node ''exc_value'') (\<lambda>value_name.
     bnd (nodeName_suffix node ''exc_traceback'') (\<lambda>traceback_name.
     bnd addDeferredBlock (\<lambda>exit_block.
     thn (set_info exit_block ''with_exit'')
    (bnd (remapExpr src context_expr True) (\<lambda>mgr.
     thn (pushAssign_id ctxmgrname mgr)
    (bnd (makeLoad ctxmgrname) (\<lambda>l1.
     bnd (makeLoadAttribute l1 ''__exit__'' True) (\<lambda>exit_attr.
     thn (pushAssign_id exitname exit_attr)
    (bnd (makeLoad ctxmgrname) (\<lambda>l2.
     bnd (makeLoadAttribute l2 ''__enter__'' True) (\<lambda>enter_attr.
     bnd (makeCall enter_attr []) (\<lambda>enter_call.
     bnd (remapExpr src enter_call True) (\<lambda>enter.
     thn (case optional_vars of
            Some vars \<Rightarrow> pushAssign src vars enter
          | None \<Rightarrow> bnd (makeExpr enter) (\<lambda>st. push_back st))
    (bnd addDeferredBlock (\<lambda>finally_block.
     thn (set_info finally_block ''with_finally'')
    (thn (pushFinallyContinuation finally_block whyname)
    (bnd addDeferredBlock (\<lambda>exc_block.
     thn (set_info exc_block ''with_exc'')
    (let h = \<lparr>exc_dest = exc_block, exc_type_name = type_name,
               exc_value_name = value_name, exc_traceback_name = traceback_name\<rparr> in
     thn (push_exc_handler h)
         (ret (h, exitname, whyname, finally_block, exit_block)))))))))))))))))))))))))"

text \<open>The block after an arm of \<^verbatim>\<open>visit_with\<close> must be the one \<^verbatim>\<open>makeFinallyCont\<close> made.\<close>

definition assert_finally_otherwise :: "unit M" where
  "assert_finally_otherwise =
     bnd the_curblock (\<lambda>cb.
     bnd (get_block cb) (\<lambda>blk.
     assert_that (info blk = ''finally_otherwise'') ''curblock->info == finally_otherwise''))"

definition visit_with_exc :: "ExcBlockInfo \<Rightarrow> addr \<Rightarrow> InternedString \<Rightarrow> blockref \<Rightarrow> unit M" where
  "visit_with_exc h node exitname exit_block =
     bnd (get_block (exc_dest h)) (\<lambda>blk.
       if length (predecessors blk) = 0 then ret ()
       else
         thn (placeBlock (exc_dest h))
        (thn (set_curblock (Some (exc_dest h)))
        (bnd (nodeName_suffix node ''suppress'') (\<lambda>suppressname.
         bnd (makeLoad exitname) (\<lambda>ex.
         bnd (makeLoad (exc_type_name h)) (\<lambda>l1.
         bnd (makeLoad (exc_value_name h)) (\<lambda>l2.
         bnd (makeLoad (exc_traceback_name h)) (\<lambda>l3.
         bnd (makeCall ex [l1, l2, l3]) (\<lambda>call.
         thn (pushAssign_id suppressname call)
        (bnd addDeferredBlock (\<lambda>reraise_block.
         thn (set_info reraise_block ''with_reraise'')
        (bnd addDeferredBlock (\<lambda>exiter.
         bnd (makeLoad suppressname) (\<lambda>sup.
         thn (pushBranch sup exiter reraise_block)
        (thn (whenM (exiter \<noteq> exit_block)
               (thn (set_info exiter ''with_exiter'')
               (thn (placeBlock exiter)
               (thn (set_curblock (Some exiter))
                    (pushJump exit_block False)))))
        (thn (placeBlock reraise_block)
        (thn (set_curblock (Some reraise_block))
             (push_reraise (exc_type_name h) (exc_value_name h) (exc_traceback_name h)))))))))))))))))))"

definition visit_with_finally :: "InternedString \<Rightarrow> InternedString \<Rightarrow> int \<Rightarrow> blockref \<Rightarrow> blockref \<Rightarrow> unit M" where
  "visit_with_finally exitname whyname finally_did_why finally_block exit_block =
     bnd (get_block finally_block) (\<lambda>blk.
       if length (predecessors blk) = 0 then ret ()
       else
         thn (placeBlock finally_block)
        (thn (set_curblock (Some finally_block))
        (bnd (makeLoad exitname) (\<lambda>ex.
         bnd (makeLoad ''None'') (\<lambda>n1.
         bnd (makeLoad ''None'') (\<lambda>n2.
         bnd (makeLoad ''None'') (\<lambda>n3.
         bnd (makeCall ex [n1, n2, n3]) (\<lambda>call.
         bnd (makeExpr call) (\<lambda>st.
         thn (push_back st)
        (thn (whenM (did_why_has finally_did_why RETURN)
               (thn (finally_arm RETURN whyname ''with_do_return''
                       (bnd (makeLoad RETURN_NAME) (\<lambda>r. doReturn r)))
                    assert_finally_otherwise))
        (thn (whenM (did_why_has finally_did_why BREAK)
               (thn (finally_arm BREAK whyname ''with_do_break'' doBreak)
                    assert_finally_otherwise))
        (thn (whenM (did_why_has finally_did_why CONTINUE)
               (thn (finally_arm CONTINUE whyname ''with_do_continue'' doContinue)
                    assert_finally_otherwise))
        (bnd addBlock (\<lambda>blk2.
         thn (set_info blk2 ''with_break_critical_edge_to_exit'')
        (thn (pushJump blk2 False)
        (thn (set_curblock (Some blk2))
             (pushJump exit_block False)))))))))))))))))"

definition visit_with_end :: "ExcBlockInfo \<Rightarrow> addr \<Rightarrow> InternedString \<Rightarrow> InternedString \<Rightarrow> blockref \<Rightarrow> blockref \<Rightarrow> unit M" where
  "visit_with_end h node exitname whyname finally_block exit_block =
     thn pop_exc_handler
    (bnd top_did_why (\<lambda>finally_did_why.
     thn popContinuation
    (thn (bnd (gets curblock) (\<lambda>cur.
            if cur \<noteq> None then
              bnd (makeNum (int (why_num FALLTHROUGH))) (\<lambda>n.
              thn (pushAssign_id whyname n)
                  (pushJump finally_block False))
            else ret ()))
    (thn (visit_with_exc h node exitname exit_block)
    (thn (visit_with_finally exitname whyname finally_did_why finally_block exit_block)
         (place_if_reached exit_block))))))"

subsection \<open>The visitor\<close>

text \<open>
  \<^verbatim>\<open>accept\<close> dispatches on the class of the statement. The classes \<^verbatim>\<open>CFGVisitor\<close> has
  no method for (\<open>Jump\<close>, \<open>Branch\<close>, \<open>Invoke\<close>, which only the pass itself makes) reach
  the method of the base class, which is not among the sources; the model aborts there.
  \<open>visit_stmts\<close> is the loop \<^verbatim>\<open>for (AST_stmt* subnode : body) subnode->accept(this)\<close>,
  \<open>visit_handlers\<close> the loop over the clauses of a \<^verbatim>\<open>try\<close>; its flag is \<^verbatim>\<open>caught_all\<close>.
\<close>

function (sequential) visit_stmt :: "SourceInfo \<Rightarrow> stmt \<Rightarrow> unit M"
  and visit_stmts :: "SourceInfo \<Rightarrow> stmt list \<Rightarrow> unit M"
  and visit_handlers :: "SourceInfo \<Rightarrow> ExcBlockInfo \<Rightarrow> blockref \<Rightarrow> expr \<Rightarrow> bool \<Rightarrow> excepthandler list \<Rightarrow> bool M"
where
  "visit_stmt src (AST_Assign a targets v) = visit_assign src targets v"
| "visit_stmt src (AST_AugAssign a target op v) = visit_augassign src a target op v"
| "visit_stmt src (AST_Assert a test msg) = visit_assert src a test msg"
| "visit_stmt src (AST_Break a) = visit_break"
| "visit_stmt src (AST_ClassDef a name bases decorator_list stmts) =
     visit_classdef src a name bases decorator_list stmts"
| "visit_stmt src (AST_Continue a) = visit_continue"
| "visit_stmt src (AST_Delete a targets) = visit_delete src targets"
| "visit_stmt src (AST_Exec a) = visit_exec"
| "visit_stmt src (AST_Expr a v) = visit_expr src v"
| "visit_stmt src (AST_For a target iter stmts orelse) =
     bnd (gets curblock) (\<lambda>cur.
       if cur = None then ret ()
       else
         bnd (visit_for_start src a target iter) (\<lambda>(itername, loop_block, end_block, else_block).
         thn (visit_stmts src stmts)
        (thn (visit_for_else src itername loop_block else_block)
        (thn (visit_stmts src orelse)
             (visit_for_end end_block)))))"
| "visit_stmt src (AST_FunctionDef a name args decorator_list stmts) =
     visit_functiondef src a name args decorator_list stmts"
| "visit_stmt src (AST_Global a names) = push_back (AST_Global a names)"
| "visit_stmt src (AST_If a test stmts orelse) =
     bnd (gets curblock) (\<lambda>cur.
       if cur = None then ret ()
       else
         bnd (visit_if_start src test) (\<lambda>(ba, starting_block, exit_block).
         thn (visit_stmts src stmts)
        (thn (visit_if_else ba starting_block exit_block)
        (thn (visit_stmts src orelse)
             (visit_if_end exit_block)))))"
| "visit_stmt src (AST_Import a names) = visit_import names"
| "visit_stmt src (AST_ImportFrom a module names level) = visit_importfrom src a module names level"
| "visit_stmt src (AST_Pass a) = ret ()"
| "visit_stmt src (AST_Print a dest nl vals) = visit_print src dest nl vals"
| "visit_stmt src (AST_Raise a arg0 arg1 arg2) = visit_raise src arg0 arg1 arg2"
| "visit_stmt src (AST_Return a v) = visit_return src v"
| "visit_stmt src (AST_TryExcept a stmts handlers orelse) =
     (if handlers = [] then
        thn (assert_that (enable_pypa_parser src) ''ENABLE_PYPA_PARSER'')
       (thn (assert_that (orelse = []) ''node->orelse.size() == 0'')
            (visit_stmts src stmts))
      else
        bnd (visit_tryexcept_start a) (\<lambda>h.
        thn (visit_stmts src stmts)
       (thn pop_exc_handler
       (thn (visit_stmts src orelse)
       (bnd (visit_tryexcept_join h) (\<lambda>(join_block, reached).
        thn (case reached of
               None \<Rightarrow> ret ()
             | Some exc_obj \<Rightarrow>
                 bnd (visit_handlers src h join_block exc_obj False handlers) (\<lambda>caught_all.
                 visit_tryexcept_uncaught h caught_all))
            (place_if_reached join_block)))))))"
| "visit_stmt src (AST_TryFinally a stmts finalbody) =
     bnd (visit_tryfinally_start a) (\<lambda>(h, exc_why_name, finally_block).
     thn (visit_stmts src stmts)
    (bnd (visit_tryfinally_finally h exc_why_name finally_block) (\<lambda>d.
     thn (visit_stmts src finalbody)
         (visit_tryfinally_dispatch h exc_why_name d))))"
| "visit_stmt src (AST_While a test stmts orelse) =
     bnd (gets curblock) (\<lambda>cur.
       if cur = None then ret ()
       else
         bnd (visit_while_start src test) (\<lambda>(ba, test_block, test_block_end, end_block).
         thn (visit_stmts src stmts)
        (thn (visit_while_else ba test_block test_block_end)
        (thn (visit_stmts src orelse)
             (visit_while_end end_block)))))"
| "visit_stmt src (AST_With a context_expr optional_vars stmts) =
     bnd (visit_with_start src a context_expr optional_vars)
       (\<lambda>(h, exitname, whyname, finally_block, exit_block).
     thn (visit_stmts src stmts)
         (visit_with_end h a exitname whyname finally_block exit_block))"
| "visit_stmt src (AST_Jump a target) = fail (Abort ''no visit method for this statement'')"
| "visit_stmt src (AST_Branch a test iftrue iffalse) = fail (Abort ''no visit method for this statement'')"
| "visit_stmt src (AST_Invoke a inner normal_dest exc_dest_block) =
     fail (Abort ''no visit method for this statement'')"

| "visit_stmts src [] = ret ()"
| "visit_stmts src (s # ss) = thn (visit_stmt src s) (visit_stmts src ss)"

| "visit_handlers src h join_block exc_obj caught_all [] = ret caught_all"
| "visit_handlers src h join_block exc_obj caught_all (AST_ExceptHandler ha handler_type handler_name stmts # rest) =
     thn (assert_that (\<not> caught_all) ''bare except clause not the last one in the list?'')
    (bnd (visit_handler_start src h exc_obj handler_type handler_name) (\<lambda>exc_next.
     thn (visit_stmts src stmts)
    (thn (visit_handler_end join_block exc_next (caught_all \<or> handler_type = None))
         (visit_handlers src h join_block exc_obj (caught_all \<or> handler_type = None) rest))))"
  by pat_completeness auto
termination
  by (relation "measure
     (case_sum (\<lambda>(src, s). size s)
       (case_sum (\<lambda>(src, ss). size_list size ss)
                 (\<lambda>(src, h, join_block, exc_obj, caught_all, hs). size_list size hs)))")
     simp_all

section \<open>The driver: checks after the walk and the merging of blocks\<close>

text \<open>
  Modelled from the spec: \<^verbatim>\<open>flatten\<close> is defined in \<^verbatim>\<open>core/ast.cpp\<close>, which is not
  among the sources. It lists the nodes below the statements of a block; the check that
  uses it demands that ``each reduced-AST node appears in at most one place across all
  block bodies''. Here it lists the addresses of the statements and of the expressions,
  comprehensions and handlers below them.
\<close>

definition opt_nodes :: "addr list option \<Rightarrow> addr list" where
  "opt_nodes x = (case x of None \<Rightarrow> [] | Some ns \<Rightarrow> ns)"

primrec expr_nodes :: "expr \<Rightarrow> addr list"
  and comprehension_nodes :: "comprehension \<Rightarrow> addr list"
  and arguments_nodes :: "arguments \<Rightarrow> addr list" where
  "expr_nodes (AST_Attribute a v attr c) = a # expr_nodes v"
| "expr_nodes (AST_AugBinOp a l op r) = a # expr_nodes l @ expr_nodes r"
| "expr_nodes (AST_BinOp a l op r) = a # expr_nodes l @ expr_nodes r"
| "expr_nodes (AST_BoolOp a op vs) = a # concat (map expr_nodes vs)"
| "expr_nodes (AST_Call a f args kws starargs kwargs) =
     a # expr_nodes f @ concat (map expr_nodes args)
       @ concat (map snd (map (map_prod id expr_nodes) kws))
       @ opt_nodes (map_option expr_nodes starargs) @ opt_nodes (map_option expr_nodes kwargs)"
| "expr_nodes (AST_ClsAttribute a v attr) = a # expr_nodes v"
| "expr_nodes (AST_Compare a l ops cs) = a # expr_nodes l @ concat (map expr_nodes cs)"
| "expr_nodes (AST_Dict a ks vs) = a # concat (map expr_nodes ks) @ concat (map expr_nodes vs)"
| "expr_nodes (AST_DictComp a k v gens) =
     a # expr_nodes k @ expr_nodes v @ concat (map comprehension_nodes gens)"
| "expr_nodes (AST_GeneratorExp a e gens) = a # expr_nodes e @ concat (map comprehension_nodes gens)"
| "expr_nodes (AST_IfExp a t b orelse) = a # expr_nodes t @ expr_nodes b @ expr_nodes orelse"
| "expr_nodes (AST_Index a v) = a # expr_nodes v"
| "expr_nodes (AST_Lambda a args b) = a # arguments_nodes args @ expr_nodes b"
| "expr_nodes (AST_LangPrimitive a opc args) = a # concat (map expr_nodes args)"
| "expr_nodes (AST_List a elts c) = a # concat (map expr_nodes elts)"
| "expr_nodes (AST_ListComp a e gens) = a # expr_nodes e @ concat (map comprehension_nodes gens)"
| "expr_nodes (AST_Name a n c) = [a]"
| "expr_nodes (AST_Num a k n) = [a]"
| "expr_nodes (AST_Repr a v) = a # expr_nodes v"
| "expr_nodes (AST_Set a elts) = a # concat (map expr_nodes elts)"
| "expr_nodes (AST_Slice a lo up st) =
     a # opt_nodes (map_option expr_nodes lo) @ opt_nodes (map_option expr_nodes up)
       @ opt_nodes (map_option expr_nodes st)"
| "expr_nodes (AST_Str a str) = [a]"
| "expr_nodes (AST_Subscript a v sl c) = a # expr_nodes v @ expr_nodes sl"
| "expr_nodes (AST_Tuple a elts c) = a # concat (map expr_nodes elts)"
| "expr_nodes (AST_UnaryOp a op v) = a # expr_nodes v"
| "expr_nodes (AST_Yield a v) = a # opt_nodes (map_option expr_nodes v)"
| "expr_nodes (AST_OtherExpr a k) = [a]"
| "comprehension_nodes (AST_comprehension a target iter ifs) =
     a # expr_nodes target @ expr_nodes iter @ concat (map expr_nodes ifs)"
| "arguments_nodes (AST_arguments params defaults vararg kwarg) =
     concat (map expr_nodes params) @ concat (map expr_nodes defaults)"

definition expr_opt_nodes :: "expr option \<Rightarrow> addr list" where
  "expr_opt_nodes v = opt_nodes (map_option expr_nodes v)"

definition alias_node :: "import_alias \<Rightarrow> addr" where
  "alias_node al = (case al of AST_alias a name asname \<Rightarrow> a)"

primrec stmt_nodes :: "stmt \<Rightarrow> addr list"
  and excepthandler_nodes :: "excepthandler \<Rightarrow> addr list" where
  "stmt_nodes (AST_Assign a targets v) = a # concat (map expr_nodes targets) @ expr_nodes v"
| "stmt_nodes (AST_AugAssign a target op v) = a # expr_nodes target @ expr_nodes v"
| "stmt_nodes (AST_Assert a test msg) = a # expr_nodes test @ expr_opt_nodes msg"
| "stmt_nodes (AST_Break a) = [a]"
| "stmt_nodes (AST_ClassDef a name bases decorator_list stmts) =
     a # concat (map expr_nodes bases) @ concat (map expr_nodes decorator_list)
       @ concat (map stmt_nodes stmts)"
| "stmt_nodes (AST_Continue a) = [a]"
| "stmt_nodes (AST_Delete a targets) = a # concat (map expr_nodes targets)"
| "stmt_nodes (AST_Exec a) = [a]"
| "stmt_nodes (AST_Expr a v) = a # expr_nodes v"
| "stmt_nodes (AST_For a target iter stmts orelse) =
     a # expr_nodes target @ expr_nodes iter @ concat (map stmt_nodes stmts)
       @ concat (map stmt_nodes orelse)"
| "stmt_nodes (AST_FunctionDef a name args decorator_list stmts) =
     a # arguments_nodes args @ concat (map expr_nodes decorator_list)
       @ concat (map stmt_nodes stmts)"
| "stmt_nodes (AST_Global a names) = [a]"
| "stmt_nodes (AST_If a test stmts orelse) =
     a # expr_nodes test @ concat (map stmt_nodes stmts) @ concat (map stmt_nodes orelse)"
| "stmt_nodes (AST_Import a names) = a # map alias_node names"
| "stmt_nodes (AST_ImportFrom a module names level) = a # map alias_node names"
| "stmt_nodes (AST_Pass a) = [a]"
| "stmt_nodes (AST_Print a dest nl vals) = a # expr_opt_nodes dest @ concat (map expr_nodes vals)"
| "stmt_nodes (AST_Raise a arg0 arg1 arg2) =
     a # expr_opt_nodes arg0 @ expr_opt_nodes arg1 @ expr_opt_nodes arg2"
| "stmt_nodes (AST_Return a v) = a # expr_opt_nodes v"
| "stmt_nodes (AST_TryExcept a stmts handlers orelse) =
     a # concat (map stmt_nodes stmts) @ concat (map excepthandler_nodes handlers)
       @ concat (map stmt_nodes orelse)"
| "stmt_nodes (AST_TryFinally a stmts finalbody) =
     a # concat (map stmt_nodes stmts) @ concat (map stmt_nodes finalbody)"
| "stmt_nodes (AST_While a test stmts orelse) =
     a # expr_nodes test @ concat (map stmt_nodes stmts) @ concat (map stmt_nodes orelse)"
| "stmt_nodes (AST_With a context_expr optional_vars stmts) =
     a # expr_nodes context_expr @ expr_opt_nodes optional_vars @ concat (map stmt_nodes stmts)"
| "stmt_nodes (AST_Jump a target) = [a]"
| "stmt_nodes (AST_Branch a test iftrue iffalse) = a # expr_nodes test"
| "stmt_nodes (AST_Invoke a inner normal_dest exc_dest_block) = a # stmt_nodes inner"
| "excepthandler_nodes (AST_ExceptHandler a handler_type handler_name stmts) =
     a # expr_opt_nodes handler_type @ expr_opt_nodes handler_name
       @ concat (map stmt_nodes stmts)"

definition flatten :: "stmt list \<Rightarrow> addr list" where
  "flatten stmts = concat (map stmt_nodes stmts)"

subsection \<open>The checks\<close>

text \<open>
  The checks read the blocks of the list, their predecessors and successors, and the
  predecessors of their successors. \<open>pointers_valid\<close> says that all these pointers
  point to blocks; the checks are only run then. Each check gives the message of the
  first assertion that fails.
\<close>

definition block_at :: "visitor \<Rightarrow> blockref \<Rightarrow> CFGBlock" where
  "block_at s b = heap s ! b"

definition pointers_valid :: "visitor \<Rightarrow> bool" where
  "pointers_valid s =
     list_all (\<lambda>b. b < length (heap s)
        \<and> list_all (\<lambda>x. x < length (heap s)) (predecessors (block_at s b))
        \<and> list_all (\<lambda>x. x < length (heap s)) (successors (block_at s b)))
       (blocks s)"

fun first_failure :: "('a \<Rightarrow> string option) \<Rightarrow> 'a list \<Rightarrow> string option" where
  "first_failure f [] = None"
| "first_failure f (x # xs) = (case f x of None \<Rightarrow> first_failure f xs | Some msg \<Rightarrow> Some msg)"

definition check_block :: "visitor \<Rightarrow> blockref \<Rightarrow> blockref \<Rightarrow> string option" where
  "check_block s start b =
     (let blk = block_at s b in
      if idx blk = -1 then Some ''Forgot to place a block!''
      else if \<not> list_all (\<lambda>b2. idx (block_at s b2) \<noteq> -1) (predecessors blk) then
        Some ''Forgot to place a block!''
      else if \<not> list_all (\<lambda>b2. idx (block_at s b2) \<noteq> -1) (successors blk) then
        Some ''Forgot to place a block!''
      else if body blk = [] then Some ''b->body.size()''
      else if \<not> length (successors blk) \<le> 2 then Some ''block has too many successors!''
      else if successors blk = [] \<and> \<not> (is_Return (last (body blk)) \<or> is_Raise (last (body blk))) then
        Some ''terminator->type == AST_TYPE::Return || terminator->type == AST_TYPE::Raise''
      else if predecessors blk = [] \<and> b \<noteq> start then Some ''b == rtn->getStartingBlock()''
      else None)"

definition check_critical :: "visitor \<Rightarrow> blockref \<Rightarrow> string option" where
  "check_critical s b =
     (let blk = block_at s b in
      if length (successors blk) \<ge> 2
         \<and> \<not> list_all (\<lambda>b2. length (predecessors (block_at s b2)) < 2) (successors blk) then
        Some ''Critical edge!''
      else None)"

definition check_order :: "visitor \<Rightarrow> nat \<Rightarrow> string option" where
  "check_order s i =
     (let blk = block_at s (blocks s ! i) in
      if \<not> list_ex (\<lambda>p. idx (block_at s p) < int i) (predecessors blk) then
        Some ''internal error: block doesn't have a previous predecessor''
      else if \<not> idx (block_at s (hd (predecessors blk))) < int i then
        Some ''rtn->blocks[i]->predecessors[0]->idx < i''
      else None)"

definition no_dups :: "visitor \<Rightarrow> bool" where
  "no_dups s = distinct (concat (map (\<lambda>b. flatten (body (block_at s b))) (blocks s)))"

definition run_check :: "(visitor \<Rightarrow> string option) \<Rightarrow> unit M" where
  "run_check f = (\<lambda>s. case f s of None \<Rightarrow> Inr ((), s) | Some msg \<Rightarrow> Inl (Abort msg))"

definition check_cfg :: "unit M" where
  "check_cfg =
     bnd (gets blocks) (\<lambda>bs.
     case bs of
       [] \<Rightarrow> fail BadPointer
     | start # _ \<Rightarrow>
         bnd (gets pointers_valid) (\<lambda>ok.
         if \<not> ok then fail BadPointer
         else
           bnd (get_block start) (\<lambda>sb.
           thn (assert_that (predecessors sb = []) ''rtn->getStartingBlock()->predecessors.size() == 0'')
          (thn (run_check (\<lambda>s. first_failure (check_block s start) (blocks s)))
          (thn (run_check (\<lambda>s. first_failure (check_critical s) (blocks s)))
          (thn (run_check (\<lambda>s. first_failure (check_order s) [1 ..< length (blocks s)]))
          (thn (assert_that (idx sb = 0) ''rtn->getStartingBlock()->idx == 0'')
               (run_check (\<lambda>s. if no_dups s then None else Some ''no_dups'')))))))))"

subsection \<open>Merging a block with its only successor\<close>

text \<open>
  The loop over the successors of the block that goes away. It removes from the vector
  it walks; the model walks the successors as they were before the loop, which is what
  the loop does on a vector of pointers, the end of the walk being fixed at its start.
\<close>

fun reconnect :: "blockref \<Rightarrow> blockref \<Rightarrow> blockref list \<Rightarrow> unit M" where
  "reconnect b b2 [] = ret ()"
| "reconnect b b2 (b3 # rest) =
     thn (connectTo b b3 True)
    (thn (unconnectFrom b2 b3)
         (reconnect b b2 rest))"

text \<open>The block that is deleted stays in the heap of the model; it is no longer in the
  list.\<close>

definition merge_blocks :: "blockref \<Rightarrow> blockref \<Rightarrow> unit M" where
  "merge_blocks b b2 =
     thn (upd_block b (\<lambda>blk. blk\<lparr>body := butlast (body blk)\<rparr>))
    (bnd (get_block b2) (\<lambda>blk2.
     thn (upd_block b (\<lambda>blk. blk\<lparr>body := body blk @ body blk2\<rparr>))
    (thn (unconnectFrom b b2)
    (bnd (get_block b2) (\<lambda>blk2'.
     thn (reconnect b b2 (successors blk2'))
         (modify (\<lambda>s. s\<lparr>blocks := removeAll b2 (blocks s)\<rparr>)))))))"

text \<open>One round of the \<^verbatim>\<open>while\<close> loop: \<open>True\<close> when two blocks were merged and the
  loop goes on, \<open>False\<close> when the loop is left.\<close>

definition merge_try :: "blockref \<Rightarrow> bool M" where
  "merge_try b =
     bnd (get_block b) (\<lambda>blk.
       if length (successors blk) \<noteq> 1 then ret False
       else
         bnd (get_block (hd (successors blk))) (\<lambda>blk2.
           if length (predecessors blk2) \<noteq> 1 then ret False
           else if body blk = [] then fail BadPointer
           else
             thn (assert_that (is_Jump (last (body blk)) \<or> is_Invoke (last (body blk)))
                    ''end_ast_type == AST_TYPE::Jump || end_ast_type == AST_TYPE::Invoke'')
                 (case last (body blk) of
                    AST_Invoke a inner normal_dest exc_dest_block \<Rightarrow>
                      thn (assert_that (normal_dest = exc_dest_block)
                             ''invoke->normal_dest == invoke->exc_dest'')
                          (ret False)
                  | _ \<Rightarrow> thn (merge_blocks b (hd (successors blk))) (ret True))))"

text \<open>The two loops. Nothing in their text bounds the number of rounds, so a run that
  does not end is the result \<open>None\<close>.\<close>

partial_function (option) merge_inner :: "blockref \<Rightarrow> visitor \<Rightarrow> (error + visitor) option" where
  "merge_inner b s =
     (case merge_try b s of
        Inl e \<Rightarrow> Some (Inl e)
      | Inr (again, s') \<Rightarrow> if again then merge_inner b s' else Some (Inr s'))"

partial_function (option) merge_outer :: "nat \<Rightarrow> visitor \<Rightarrow> (error + visitor) option" where
  "merge_outer i s =
     (if i < length (blocks s) then
        Option.bind (merge_inner (blocks s ! i) s)
          (\<lambda>r. case r of Inl e \<Rightarrow> Some (Inl e) | Inr s' \<Rightarrow> merge_outer (Suc i) s')
      else Some (Inr s))"

declare merge_inner.simps [code]
declare merge_outer.simps [code]

subsection \<open>\<^verbatim>\<open>computeCFG\<close>\<close>

text \<open>
  The visitor as its constructor leaves it; \<open>fresh\<close> is the address the next \<^verbatim>\<open>new\<close>
  returns.
\<close>

definition new_visitor :: "addr \<Rightarrow> visitor" where
  "new_visitor fresh =
     \<lparr>heap = [\<lparr>idx = 0, info = ''entry'', body = [], predecessors = [], successors = []\<rparr>],
      blocks = [0], curblock = Some 0, continuations = [], exc_handlers = [],
      next_addr = fresh, scope_replacements = []\<rparr>"

definition class_prologue :: "SourceInfo \<Rightarrow> stmt list \<Rightarrow> stmt list M" where
  "class_prologue src stmts =
     (if root_type src = ClassDef then
        bnd alloc (\<lambda>ma.
        bnd alloc (\<lambda>na.
        bnd alloc (\<lambda>sa.
        thn (push_back (AST_Assign ma [AST_Name na ''__module__'' Store]
                          (AST_Str sa (parent_module_name src))))
            (case stmts of
               AST_Expr ea (AST_Str da doc) # rest \<Rightarrow>
                 bnd alloc (\<lambda>ma2.
                 bnd alloc (\<lambda>na2.
                 thn (push_back (AST_Assign ma2 [AST_Name na2 ''__doc__'' Store] (AST_Str da doc)))
                     (ret rest)))
             | _ \<Rightarrow> ret stmts))))
      else ret stmts)"

definition final_return :: "SourceInfo \<Rightarrow> unit M" where
  "final_return src =
     (if root_type src = ClassDef then
        bnd alloc (\<lambda>la.
        bnd alloc (\<lambda>ra.
        push_back (AST_Return ra (Some (AST_LangPrimitive la LOCALS [])))))
      else
        bnd alloc (\<lambda>ra. push_back (AST_Return ra None)))"

definition walk :: "SourceInfo \<Rightarrow> stmt list \<Rightarrow> unit M" where
  "walk src stmts =
     bnd (class_prologue src stmts) (\<lambda>rest.
     thn (visit_stmts src rest)
         (final_return src))"

text \<open>The destructor of the visitor, which runs when \<^verbatim>\<open>computeCFG\<close> returns.\<close>

definition visitor_destructor :: "unit M" where
  "visitor_destructor =
     bnd (gets continuations) (\<lambda>cs.
     thn (assert_that (cs = []) ''continuations.size() == 0'')
    (bnd (gets exc_handlers) (\<lambda>hs.
         assert_that (hs = []) ''exc_handlers.size() == 0'')))"

text \<open>
  The result is the state of the pass at the end; the CFG is its list \<open>blocks\<close> with
  the blocks on its \<open>heap\<close>. An error of the walk leaves \<^verbatim>\<open>computeCFG\<close> at once; what
  the destructor does while the exception unwinds is not part of the model.
\<close>

definition computeCFG :: "SourceInfo \<Rightarrow> addr \<Rightarrow> stmt list \<Rightarrow> (error + visitor) option" where
  "computeCFG src fresh stmts =
     (case thn (walk src stmts) check_cfg (new_visitor fresh) of
        Inl e \<Rightarrow> Some (Inl e)
      | Inr (u, s) \<Rightarrow>
          Option.bind (merge_outer 0 s)
            (\<lambda>r. case r of
                    Inl e \<Rightarrow> Some (Inl e)
                  | Inr s' \<Rightarrow>
                      (case visitor_destructor s' of
                         Inl e \<Rightarrow> Some (Inl e)
                       | Inr (u', s'') \<Rightarrow> Some (Inr s''))))"

section \<open>The shapes the specification names for the invoke rewriter\<close>

text \<open>
  \<open>emitted_as_is\<close> follows the words of the specification (section 4.6): a \<open>Jump\<close>, a
  \<open>Branch\<close> whose test is a \<open>Name\<close> or a \<open>Num\<close>, a \<open>Return\<close>, or an \<open>Assign\<close> to one
  name, user-visible or temporary, from a temporary name, a \<open>Num\<close> or a \<open>Str\<close>. It is
  compared with \<open>push_back\<close> below. \<open>rejected\<close> lists the statements on which the
  assertions of \<^verbatim>\<open>push_back\<close> fail.
\<close>

fun emitted_as_is :: "stmt \<Rightarrow> bool" where
  "emitted_as_is (AST_Jump _ _) = True"
| "emitted_as_is (AST_Branch _ test _ _) = (is_Name test \<or> is_Num test)"
| "emitted_as_is (AST_Return _ _) = True"
| "emitted_as_is (AST_Assign _ [AST_Name _ _ _] v) = (is_temp_Name v \<or> is_Num v \<or> is_Str v)"
| "emitted_as_is _ = False"

fun rejected :: "stmt \<Rightarrow> bool" where
  "rejected (AST_Invoke _ _ _ _) = True"
| "rejected (AST_Branch _ test _ _) = (\<not> (is_Name test \<or> is_Num test))"
| "rejected (AST_Assign _ [AST_Name _ n _] v) =
     (\<not> starts_hash n \<and> \<not> (is_temp_Name v \<or> is_Num v \<or> is_Str v))"
| "rejected (AST_Assign _ [_] v) = False"
| "rejected (AST_Assign _ _ v) = True"
| "rejected _ = False"

definition append_stmt :: "blockref \<Rightarrow> stmt \<Rightarrow> visitor \<Rightarrow> visitor" where
  "append_stmt cb node s =
     s\<lparr>heap := (heap s)[cb := (heap s ! cb)\<lparr>body := body (heap s ! cb) @ [node]\<rparr>]\<rparr>"

text \<open>The landing pad the rewriter writes for the handler \<open>h\<close>, up to the addresses
  of its nodes.\<close>

definition is_landing_pad :: "ExcBlockInfo \<Rightarrow> stmt list \<Rightarrow> bool" where
  "is_landing_pad h stmts =
     (\<exists>aa ta t1 t2 t3 la ja. stmts =
        [AST_Assign aa [AST_Tuple ta [AST_Name t1 (exc_type_name h) Store,
                                      AST_Name t2 (exc_value_name h) Store,
                                      AST_Name t3 (exc_traceback_name h) Store] Store]
           (AST_LangPrimitive la LANDINGPAD []),
         AST_Jump ja (exc_dest h)])"

text \<open>A state inside the body of a \<^verbatim>\<open>try\<close>: the entry block is the cursor, block 1 is
  the deferred block of the handler.\<close>

definition in_try_state :: visitor where
  "in_try_state =
     \<lparr>heap = [\<lparr>idx = 0, info = ''entry'', body = [], predecessors = [], successors = []\<rparr>,
              \<lparr>idx = -1, info = [], body = [], predecessors = [], successors = []\<rparr>],
      blocks = [0],
      curblock = Some 0,
      continuations = [],
      exc_handlers = [\<lparr>exc_dest = 1, exc_type_name = ''#0x10_type'',
                       exc_value_name = ''#0x10_value'', exc_traceback_name = ''#0x10_traceback''\<rparr>],
      next_addr = 100,
      scope_replacements = []\<rparr>"

section \<open>Properties of runs and example inputs\<close>

text \<open>A computation that never ends in a \<open>SyntaxError\<close>.\<close>

definition raises_no_SyntaxError :: "'a M \<Rightarrow> bool" where
  "raises_no_SyntaxError m = (\<forall>s msg. m s \<noteq> Inl (SyntaxError msg))"

text \<open>What is read off a result: the blocks of the list with their bodies; and for each
  block of the list its \<open>idx\<close>, the \<open>idx\<close> of its predecessors and of its successors.\<close>

definition cfg_listing :: "visitor \<Rightarrow> (blockref \<times> stmt list) list" where
  "cfg_listing s = map (\<lambda>b. (b, body (heap s ! b))) (blocks s)"

definition cfg_edges :: "visitor \<Rightarrow> (int \<times> int list \<times> int list) list" where
  "cfg_edges s =
     map (\<lambda>b. (idx (heap s ! b),
                map (\<lambda>p. idx (heap s ! p)) (predecessors (heap s ! b)),
                map (\<lambda>p. idx (heap s ! p)) (successors (heap s ! b)))) (blocks s)"

definition module_source :: SourceInfo where
  "module_source =
     \<lparr>root_type = Module, absolute_import = False, mangleName = (\<lambda>x. x),
      parent_module_name = ''m'', enable_pypa_parser = False\<rparr>"

definition function_source :: SourceInfo where
  "function_source =
     \<lparr>root_type = FunctionDef, absolute_import = False, mangleName = (\<lambda>x. x),
      parent_module_name = ''m'', enable_pypa_parser = False\<rparr>"

text \<open>\<^verbatim>\<open>a + 1\<close>\<close>

definition a_plus_one :: expr where
  "a_plus_one = AST_BinOp 1 (AST_Name 2 ''a'' Load) (OtherOp 0) (AST_Num 3 Num_INT 1)"

text \<open>Two loops \<^verbatim>\<open>while a: pass\<close>, one after the other.\<close>

definition two_whiles :: "stmt list" where
  "two_whiles =
     [AST_While 1 (AST_Name 2 ''a'' Load) [AST_Pass 3] [],
      AST_While 4 (AST_Name 5 ''a'' Load) [AST_Pass 6] []]"

text \<open>\<^verbatim>\<open>while c:\<close> with the body \<^verbatim>\<open>try: continue\<close> \<^verbatim>\<open>finally: pass\<close> followed by
  \<^verbatim>\<open>x = 1\<close>.\<close>

definition continue_in_try :: "stmt list" where
  "continue_in_try =
     [AST_While 1 (AST_Name 2 ''c'' Load)
        [AST_TryFinally 3 [AST_Continue 4] [AST_Pass 5],
         AST_Assign 6 [AST_Name 7 ''x'' Store] (AST_Num 8 Num_INT 1)] []]"



text \<open>\<^verbatim>\<open>raise\<close> followed by \<^verbatim>\<open>continue\<close>; and \<^verbatim>\<open>try: continue\<close>
  \<^verbatim>\<open>finally: return\<close>. Neither is in a loop.\<close>

definition unreachable_continue :: "stmt list" where
  "unreachable_continue = [AST_Raise 1 None None None, AST_Continue 2]"

definition continue_then_return :: "stmt list" where
  "continue_then_return = [AST_TryFinally 1 [AST_Continue 2] [AST_Return 3 None]]"

text \<open>A state outside every loop in which the cursor is absent.\<close>

definition unreachable_state :: visitor where
  "unreachable_state = (new_visitor 100)\<lparr>curblock := None\<rparr>"

text \<open>\<^verbatim>\<open>a or b\<close>; the assignment \<^verbatim>\<open>z = a or b\<close>; and the body \<^verbatim>\<open>return\<close> followed by
  \<^verbatim>\<open>z = a or b\<close> of a function.\<close>

definition a_or_b :: expr where
  "a_or_b = AST_BoolOp 4 Or [AST_Name 5 ''a'' Load, AST_Name 6 ''b'' Load]"

definition boolop_assign :: "stmt list" where
  "boolop_assign = [AST_Assign 2 [AST_Name 3 ''z'' Store] a_or_b]"

definition boolop_after_return :: "stmt list" where
  "boolop_after_return = AST_Return 1 None # boolop_assign"

text \<open>\<^verbatim>\<open>while c: continue\<close>, \<^verbatim>\<open>while c: break\<close>, and \<^verbatim>\<open>try: continue\<close>
  \<^verbatim>\<open>finally: pass\<close> in no loop.\<close>

definition continue_in_while :: "stmt list" where
  "continue_in_while = [AST_While 1 (AST_Name 2 ''c'' Load) [AST_Continue 3] []]"

definition break_in_while :: "stmt list" where
  "break_in_while = [AST_While 1 (AST_Name 2 ''c'' Load) [AST_Break 3] []]"

definition continue_in_finally :: "stmt list" where
  "continue_in_finally = [AST_TryFinally 1 [AST_Continue 2] [AST_Pass 3]]"


section \<open>Well-formed states of the pass\<close>

text \<open>
  The successors and predecessors of a block of the heap. \<open>edges_ok\<close>: the edges stay
  inside the heap, and a block is as often a successor of another block as that block is
  a predecessor of it. \<open>wf_state\<close> adds that the blocks of the list are blocks of the
  heap, that every block with an \<open>idx\<close> other than -1 is in the list, and that the block
  at position \<open>i\<close> of the list has the \<open>idx\<close> \<open>i\<close>.
\<close>

definition succs :: "CFGBlock list \<Rightarrow> blockref \<Rightarrow> blockref list" where
  "succs hp x = successors (hp ! x)"

definition preds :: "CFGBlock list \<Rightarrow> blockref \<Rightarrow> blockref list" where
  "preds hp x = predecessors (hp ! x)"

definition idx_of :: "CFGBlock list \<Rightarrow> blockref \<Rightarrow> int" where
  "idx_of hp x = idx (hp ! x)"

definition edges_ok :: "CFGBlock list \<Rightarrow> bool" where
  "edges_ok hp =
     ((\<forall>x < length hp. (\<forall>y \<in> set (succs hp x). y < length hp)
                      \<and> (\<forall>y \<in> set (preds hp x). y < length hp))
      \<and> (\<forall>x < length hp. \<forall>y < length hp.
            count_list (succs hp x) y = count_list (preds hp y) x))"

definition wf_state :: "visitor \<Rightarrow> bool" where
  "wf_state s =
     (edges_ok (heap s)
      \<and> (\<forall>b \<in> set (blocks s). b < length (heap s))
      \<and> (\<forall>b < length (heap s). idx_of (heap s) b \<noteq> -1 \<longrightarrow> b \<in> set (blocks s))
      \<and> (\<forall>i < length (blocks s). idx_of (heap s) (blocks s ! i) = int i))"

text \<open>A computation that keeps states well-formed.\<close>

definition pres :: "'a M \<Rightarrow> bool" where
  "pres m = (\<forall>s r s'. wf_state s \<longrightarrow> m s = Inr (r, s') \<longrightarrow> wf_state s')"

text \<open>No critical edges: every successor of a block of the list with two or more
  successors has exactly one predecessor.\<close>

definition no_critical_edges :: "visitor \<Rightarrow> bool" where
  "no_critical_edges s =
     (\<forall>b \<in> set (blocks s). 2 \<le> length (successors (heap s ! b)) \<longrightarrow>
        (\<forall>c \<in> set (successors (heap s ! b)). length (predecessors (heap s ! c)) = 1))"

text \<open>
  What holds of the state during the merge pass: the edges are consistent; the blocks of
  the list are blocks of the heap, in the order of their \<open>idx\<close>; the successors and
  predecessors of a block of the list are blocks of the list; there are no critical
  edges; and the only predecessor of a block has a smaller \<open>idx\<close>. \<open>settled\<close>: one
  round of the inner loop on the block leaves the loop and the state as it is.
\<close>

definition merge_inv :: "visitor \<Rightarrow> bool" where
  "merge_inv s =
     (edges_ok (heap s)
      \<and> (\<forall>b \<in> set (blocks s). b < length (heap s))
      \<and> sorted_wrt (<) (map (idx_of (heap s)) (blocks s))
      \<and> (\<forall>b \<in> set (blocks s). set (succs (heap s) b) \<subseteq> set (blocks s)
                                \<and> set (preds (heap s) b) \<subseteq> set (blocks s))
      \<and> no_critical_edges s
      \<and> (\<forall>b \<in> set (blocks s). \<forall>p. preds (heap s) b = [p] \<longrightarrow>
            idx_of (heap s) p < idx_of (heap s) b))"

definition settled :: "visitor \<Rightarrow> blockref \<Rightarrow> bool" where
  "settled s b = (merge_try b s = Inr (False, s))"

text \<open>The blocks of the list with their predecessors and successors.\<close>

definition cfg_links :: "visitor \<Rightarrow> (blockref \<times> blockref list \<times> blockref list) list" where
  "cfg_links s = map (\<lambda>b. (b, predecessors (heap s ! b), successors (heap s ! b))) (blocks s)"

section \<open>Running the monad\<close>

lemma ret_apply [simp]: "ret x s = Inr (x, s)"
  by (simp add: ret_def)

lemma fail_apply [simp]: "fail e s = Inl e"
  by (simp add: fail_def)

lemma gets_apply [simp]: "gets f s = Inr (f s, s)"
  by (simp add: gets_def)

lemma modify_apply [simp]: "modify f s = Inr ((), f s)"
  by (simp add: modify_def)

lemma bnd_apply: "bnd m f s = (case m s of Inl e \<Rightarrow> Inl e | Inr (x, s') \<Rightarrow> f x s')"
  by (simp add: bnd_def)

lemma thn_apply: "thn m n s = (case m s of Inl e \<Rightarrow> Inl e | Inr (x, s') \<Rightarrow> n s')"
  by (simp add: thn_def bnd_def)

lemma assert_that_apply [simp]:
  "assert_that c msg s = (if c then Inr ((), s) else Inl (Abort msg))"
  by (simp add: assert_that_def)

lemma whenM_apply: "whenM c m s = (if c then m s else Inr ((), s))"
  by (simp add: whenM_def)

lemma alloc_apply [simp]: "alloc s = Inr (next_addr s, s\<lparr>next_addr := Suc (next_addr s)\<rparr>)"
  by (simp add: alloc_def)

lemmas prim_defs = addBlock_def new_block_def block_push_back_def upd_block_def connectTo_def
  get_block_def set_curblock_def makeName_def makeLangPrimitive_def the_curblock_def

section \<open>The invoke rewriter\<close>

lemma push_back_Jump:
  "push_back (AST_Jump a t) s =
    (case curblock s of None \<Rightarrow> Inr ((), s) | Some cb \<Rightarrow> block_push_back cb (AST_Jump a t) s)"
  by (simp add: push_back.simps thn_apply bnd_apply split: option.splits)

lemma assign_plain:
  assumes "cb < length (heap s)" "is_temp_Name v \<or> is_Num v \<or> is_Str v"
  shows "assign_needs_no_invoke cb (AST_Assign a [AST_Name ta n c] v) s =
           Inr (True, append_stmt cb (AST_Assign a [AST_Name ta n c] v) s)"
  using assms
  by (auto simp: assign_needs_no_invoke_def thn_apply bnd_apply block_push_back_def
        upd_block_def append_stmt_def)

lemma push_back_as_is:
  assumes "curblock s = Some cb" "cb < length (heap s)" "exc_handlers s = h # hs"
      and "emitted_as_is node"
  shows "push_back node s = Inr ((), append_stmt cb node s)"
proof (cases node)
  case (AST_Assign a targets v)
  with assms(4) obtain ta n c where t: "targets = [AST_Name ta n c]"
    and v: "is_temp_Name v \<or> is_Num v \<or> is_Str v"
    by (auto elim!: emitted_as_is.elims)
  show ?thesis using assms(1-3) assign_plain[OF assms(2) v, of a ta n c]
    by (simp add: AST_Assign t push_back.simps thn_apply bnd_apply)
qed (use assms in \<open>auto simp: push_back.simps thn_apply bnd_apply block_push_back_def
       upd_block_def append_stmt_def\<close>)

lemma assign_falls_through:
  assumes "\<not> emitted_as_is node" "assign_needs_no_invoke cb node s = Inr (fin, s1)"
  shows "fin = False \<and> s1 = s"
proof (cases node)
  case (AST_Assign a targets v)
  show ?thesis
  proof (cases targets)
    case Nil
    with assms AST_Assign show ?thesis by (simp add: assign_needs_no_invoke_def thn_apply)
  next
    case (Cons t ts)
    with assms AST_Assign have ts: "ts = []"
      by (simp add: assign_needs_no_invoke_def thn_apply split: if_splits)
    show ?thesis using assms unfolding AST_Assign Cons ts
      by (cases t) (auto simp: assign_needs_no_invoke_def thn_apply bnd_apply split: if_splits)
  qed
qed (use assms in \<open>auto simp: assign_needs_no_invoke_def\<close>)

lemma assign_rejected:
  assumes "rejected (AST_Assign a targets v)"
  shows "\<exists>msg. assign_needs_no_invoke cb (AST_Assign a targets v) s = Inl (Abort msg)"
proof (cases targets)
  case Nil
  then show ?thesis by (simp add: assign_needs_no_invoke_def thn_apply)
next
  case (Cons t ts)
  show ?thesis
  proof (cases ts)
    case Nil
    with assms Cons show ?thesis
      by (cases t) (auto simp: assign_needs_no_invoke_def thn_apply)
  next
    case (Cons t' ts')
    then show ?thesis using \<open>targets = t # ts\<close>
      by (simp add: assign_needs_no_invoke_def thn_apply)
  qed
qed

lemma push_back_rejected:
  assumes "curblock s = Some cb" "exc_handlers s = h # hs" "rejected node"
  shows "\<exists>msg. push_back node s = Inl (Abort msg)"
proof (cases node)
  case (AST_Assign a targets v)
  with assms(3) assign_rejected[of a targets v cb s] obtain msg where
    "assign_needs_no_invoke cb node s = Inl (Abort msg)" by auto
  with assms(1,2) show ?thesis
    by (simp add: AST_Assign push_back.simps thn_apply bnd_apply)
qed (use assms in \<open>auto simp: push_back.simps thn_apply bnd_apply\<close>)

lemma push_back_wraps:
  assumes "curblock s = Some cb" "cb < length (heap s)" "exc_handlers s = h # hs"
      and "\<not> emitted_as_is node" "push_back node s = Inr ((), s')"
  shows "\<exists>ia ed.
      ed = (if is_Raise node then length (heap s) else Suc (length (heap s)))
    \<and> length (heap s') = Suc ed
    \<and> body (heap s' ! cb) = body (heap s ! cb) @ [AST_Invoke ia node (length (heap s)) ed]
    \<and> is_landing_pad h (body (heap s' ! ed))
    \<and> curblock s' = (if is_Raise node then None else Some (length (heap s)))
    \<and> successors (heap s' ! cb) =
        successors (heap s ! cb) @ (if is_Raise node then [length (heap s)] else [length (heap s), ed])
    \<and> predecessors (heap s' ! length (heap s)) = [cb]
    \<and> successors (heap s' ! ed) = [exc_dest h]"
proof -
  from assms(4) have nj: "\<not> is_Jump node" "\<not> is_Return node" by (cases node; simp)+
  from assms(1,3,5) have ni: "\<not> is_Invoke node"
    by (auto simp: push_back.simps thn_apply bnd_apply split: if_splits)
  have nb: "\<not> is_Branch node"
  proof
    assume "is_Branch node"
    then obtain a t x y where "node = AST_Branch a t x y" by (cases node) auto
    with assms show False by (auto simp: push_back.simps thn_apply bnd_apply split: if_splits)
  qed
  from assms(1,3,5) nj ni nb obtain fin s1 where a: "assign_needs_no_invoke cb node s = Inr (fin, s1)"
    by (auto simp: push_back.simps thn_apply bnd_apply split: sum.splits)
  with assign_falls_through[OF assms(4) a]
  have a': "assign_needs_no_invoke cb node s = Inr (False, s)" by simp
  show ?thesis
    using assms(1,2,3,5) nj ni nb a'
    by (auto simp add: push_back.simps pushJump.simps push_back_Jump thn_apply bnd_apply
          prim_defs whenM_apply Let_def nth_append nth_list_update is_landing_pad_def
        split: if_splits sum.splits option.splits prod.splits)
qed

lemma push_back_wraps_total:
  assumes "curblock s = Some cb" "cb < length (heap s)" "exc_handlers s = h # hs"
      and "\<not> emitted_as_is node" "\<not> rejected node"
      and "successors (heap s ! cb) = []" "0 \<le> idx (heap s ! cb)"
      and "idx (heap s ! cb) < int (length (blocks s))"
      and "exc_dest h < length (heap s)" "idx (heap s ! exc_dest h) = -1"
  shows "\<exists>s'. push_back node s = Inr ((), s')"
proof -
  from assms(4) have nj: "\<not> is_Jump node" "\<not> is_Return node" by (cases node; simp)+
  from assms(5) have ni: "\<not> is_Invoke node" by (cases node; simp)
  from assms(4,5) have nb: "\<not> is_Branch node" by (cases node; simp)
  have "\<exists>r. assign_needs_no_invoke cb node s = Inr r"
  proof (cases node)
    case (AST_Assign a targets v)
    with assms(5) obtain t where t: "targets = [t]"
      by (cases targets; cases "tl targets"; auto)
    show ?thesis using assms(2,4,5) unfolding AST_Assign t
      by (cases t) (auto simp: assign_needs_no_invoke_def thn_apply bnd_apply
            block_push_back_def upd_block_def)
  qed (auto simp: assign_needs_no_invoke_def)
  then obtain fin s1 where a: "assign_needs_no_invoke cb node s = Inr (fin, s1)" by auto
  with assign_falls_through[OF assms(4) a]
  have a': "assign_needs_no_invoke cb node s = Inr (False, s)" by simp
  show ?thesis
    using assms(1,2,3,6-) nj ni nb a'
    by (auto simp add: push_back.simps pushJump.simps push_back_Jump thn_apply bnd_apply
          prim_defs whenM_apply Let_def nth_append nth_list_update
        split: if_splits sum.splits option.splits prod.splits)
qed

lemma in_try_state_simps [simp]:
  "curblock in_try_state = Some 0"
  "length (heap in_try_state) = 2"
  "exc_handlers in_try_state =
     [\<lparr>exc_dest = 1, exc_type_name = ''#0x10_type'', exc_value_name = ''#0x10_value'',
       exc_traceback_name = ''#0x10_traceback''\<rparr>]"
  "heap in_try_state ! 0 = \<lparr>idx = 0, info = ''entry'', body = [], predecessors = [], successors = []\<rparr>"
  "heap in_try_state ! Suc 0 = \<lparr>idx = -1, info = [], body = [], predecessors = [], successors = []\<rparr>"
  "blocks in_try_state = [0]"
  by (simp_all add: in_try_state_def)

lemma Invoke_neq_inner: "AST_Invoke ia node nd ed \<noteq> node"
proof
  assume "AST_Invoke ia node nd ed = node"
  then have "size (AST_Invoke ia node nd ed) = size node" by simp
  then show False by simp
qed

text \<open>
  C2. While a handler is active and the cursor is a block: whenever \<open>push_back\<close>
  returns for a statement, the statement itself is what was appended to the cursor
  exactly when it has one of the shapes of the specification (a \<open>Jump\<close>, a \<open>Branch\<close>
  whose test is a \<open>Name\<close> or a \<open>Num\<close>, a \<open>Return\<close>, an \<open>Assign\<close> to one name from a
  temporary name, a \<open>Num\<close> or a \<open>Str\<close>); every other statement is the inner statement
  of an \<open>Invoke\<close> appended to the cursor, whose \<open>exc_dest\<close> block holds the assignment
  of the handler's three names from \<open>LANDINGPAD\<close> followed by the jump to the handler's
  landing pad. \<open>push_back\<close> does return: always for a statement of these shapes, and
  for any other statement on which none of its assertions fails when the cursor is a
  placed block without successors and the handler's block is deferred.
\<close>

theorem push_back_invoke_discipline:
  assumes "curblock s = Some cb" "cb < length (heap s)" "exc_handlers s = h # hs"
  shows "(\<forall>s'. push_back node s = Inr ((), s') \<longrightarrow>
            ((body (heap s' ! cb) = body (heap s ! cb) @ [node]) = emitted_as_is node)
          \<and> (\<not> emitted_as_is node \<longrightarrow>
               (\<exists>ia nd ed. body (heap s' ! cb) = body (heap s ! cb) @ [AST_Invoke ia node nd ed]
                   \<and> is_landing_pad h (body (heap s' ! ed))
                   \<and> successors (heap s' ! ed) = [exc_dest h])))
       \<and> (emitted_as_is node \<longrightarrow> push_back node s = Inr ((), append_stmt cb node s))
       \<and> (\<not> emitted_as_is node \<and> \<not> rejected node
            \<and> successors (heap s ! cb) = [] \<and> 0 \<le> idx (heap s ! cb)
            \<and> idx (heap s ! cb) < int (length (blocks s))
            \<and> exc_dest h < length (heap s) \<and> idx (heap s ! exc_dest h) = -1
            \<longrightarrow> (\<exists>s'. push_back node s = Inr ((), s')))"
proof (intro conjI impI allI)
  fix s'
  assume run: "push_back node s = Inr ((), s')"
  show "(body (heap s' ! cb) = body (heap s ! cb) @ [node]) = emitted_as_is node"
  proof (cases "emitted_as_is node")
    case True
    from push_back_as_is [OF assms True] run have "s' = append_stmt cb node s" by simp
    with True assms(2) show ?thesis by (simp add: append_stmt_def)
  next
    case False
    from push_back_wraps [OF assms False run] obtain ia ed where
      "body (heap s' ! cb) = body (heap s ! cb) @ [AST_Invoke ia node (length (heap s)) ed]"
      by blast
    with False show ?thesis by (simp add: Invoke_neq_inner)
  qed
next
  fix s'
  assume "push_back node s = Inr ((), s')" "\<not> emitted_as_is node"
  from push_back_wraps [OF assms this(2) this(1)]
  show "\<exists>ia nd ed. body (heap s' ! cb) = body (heap s ! cb) @ [AST_Invoke ia node nd ed]
          \<and> is_landing_pad h (body (heap s' ! ed)) \<and> successors (heap s' ! ed) = [exc_dest h]"
    by blast
next
  assume "emitted_as_is node"
  then show "push_back node s = Inr ((), append_stmt cb node s)"
    using assms by (rule push_back_as_is [rotated 3])
next
  assume "\<not> emitted_as_is node \<and> \<not> rejected node
            \<and> successors (heap s ! cb) = [] \<and> 0 \<le> idx (heap s ! cb)
            \<and> idx (heap s ! cb) < int (length (blocks s))
            \<and> exc_dest h < length (heap s) \<and> idx (heap s ! exc_dest h) = -1"
  then show "\<exists>s'. push_back node s = Inr ((), s')"
    using push_back_wraps_total [OF assms] by blast
qed

text \<open>Inside a \<^verbatim>\<open>try\<close>: a jump is appended as it is; the statement \<^verbatim>\<open>print\<close> with no
  destination and no values has none of the shapes and is wrapped.\<close>

theorem push_back_invoke_discipline_witness:
  "\<not> emitted_as_is (AST_Print 7 None True []) \<and> emitted_as_is (AST_Jump 8 1)
   \<and> push_back (AST_Jump 8 1) in_try_state = Inr ((), append_stmt 0 (AST_Jump 8 1) in_try_state)
   \<and> body (heap (append_stmt 0 (AST_Jump 8 1) in_try_state) ! 0) = [AST_Jump 8 1]
   \<and> (\<exists>s' ia nd ed. push_back (AST_Print 7 None True []) in_try_state = Inr ((), s')
        \<and> body (heap s' ! 0) = [AST_Invoke ia (AST_Print 7 None True []) nd ed]
        \<and> body (heap s' ! 0) \<noteq> [AST_Print 7 None True []]
        \<and> is_landing_pad (hd (exc_handlers in_try_state)) (body (heap s' ! ed)))"
proof -
  let ?p = "AST_Print 7 None True []"
  have pre: "curblock in_try_state = Some 0" "0 < length (heap in_try_state)"
    "exc_handlers in_try_state = hd (exc_handlers in_try_state) # []"
    by simp_all
  note d = push_back_invoke_discipline [OF pre]
  have j: "push_back (AST_Jump 8 1) in_try_state = Inr ((), append_stmt 0 (AST_Jump 8 1) in_try_state)"
    using d [of "AST_Jump 8 1"] by simp
  have jb: "body (heap (append_stmt 0 (AST_Jump 8 1) in_try_state) ! 0) = [AST_Jump 8 1]"
    using d [of "AST_Jump 8 1"] j by simp
  from d [of ?p] obtain s' where s': "push_back ?p in_try_state = Inr ((), s')"
    by auto
  with d [of ?p] obtain ia nd ed where
    "body (heap s' ! 0) = [AST_Invoke ia ?p nd ed]"
    "is_landing_pad (hd (exc_handlers in_try_state)) (body (heap s' ! ed))"
    by auto
  with s' j jb show ?thesis by auto
qed

text \<open>
  C5. When the statement that is wrapped is a \<open>Raise\<close>, the \<open>Invoke\<close> that is appended
  to the cursor has the same fresh block as \<open>normal_dest\<close> and as \<open>exc_dest\<close>; the cursor
  gains that one successor, whose only predecessor is the cursor; the block holds the
  landing pad; and the cursor is absent afterwards.
\<close>

theorem push_back_raise:
  assumes "curblock s = Some cb" "cb < length (heap s)" "exc_handlers s = h # hs"
      and "push_back (AST_Raise a a0 a1 a2) s = Inr ((), s')"
  shows "\<exists>ia. body (heap s' ! cb) =
             body (heap s ! cb) @ [AST_Invoke ia (AST_Raise a a0 a1 a2) (length (heap s)) (length (heap s))]
         \<and> length (heap s') = Suc (length (heap s))
         \<and> successors (heap s' ! cb) = successors (heap s ! cb) @ [length (heap s)]
         \<and> predecessors (heap s' ! length (heap s)) = [cb]
         \<and> is_landing_pad h (body (heap s' ! length (heap s)))
         \<and> curblock s' = None"
  using push_back_wraps[OF assms(1-3) _ assms(4)] by auto

theorem push_back_raise_witness:
  "\<exists>s' ia. push_back (AST_Raise 7 None None None) in_try_state = Inr ((), s')
      \<and> body (heap s' ! 0) = [AST_Invoke ia (AST_Raise 7 None None None) 2 2]
      \<and> length (heap s') = 3
      \<and> successors (heap s' ! 0) = [2]
      \<and> predecessors (heap s' ! 2) = [0]
      \<and> curblock s' = None"
proof -
  have pre: "curblock in_try_state = Some 0" "0 < length (heap in_try_state)"
    "exc_handlers in_try_state = hd (exc_handlers in_try_state) # []"
    by simp_all
  have "\<exists>s'. push_back (AST_Raise 7 None None None) in_try_state = Inr ((), s')"
    by (rule push_back_wraps_total[OF pre]) simp_all
  then obtain s' where s': "push_back (AST_Raise 7 None None None) in_try_state = Inr ((), s')" ..
  from push_back_raise[OF pre s'] show ?thesis
    using s' by (auto simp: numeral_2_eq_2)
qed

section \<open>Where a \<open>SyntaxError\<close> can come from\<close>

lemma bnd_InrE:
  assumes "bnd m f s = Inr x"
  obtains y s1 where "m s = Inr (y, s1)" and "f y s1 = Inr x"
  using assms by (auto simp: bnd_def split: sum.splits)

lemma thn_InrE:
  assumes "thn m n s = Inr x"
  obtains y s1 where "m s = Inr (y, s1)" and "n s1 = Inr x"
  using assms by (auto simp: thn_def bnd_def split: sum.splits)

lemma raises_no_SyntaxError_ret [simp]: "raises_no_SyntaxError (ret x)"
  by (simp add: raises_no_SyntaxError_def)

lemma raises_no_SyntaxError_bnd:
  "raises_no_SyntaxError m \<Longrightarrow> (\<And>x. raises_no_SyntaxError (f x)) \<Longrightarrow> raises_no_SyntaxError (bnd m f)"
  by (auto simp: raises_no_SyntaxError_def bnd_apply split: sum.splits)

lemma raises_no_SyntaxError_thn:
  "raises_no_SyntaxError m \<Longrightarrow> raises_no_SyntaxError n \<Longrightarrow> raises_no_SyntaxError (thn m n)"
  by (auto simp: raises_no_SyntaxError_def thn_apply split: sum.splits)

lemma raises_no_SyntaxError_whenM: "raises_no_SyntaxError m \<Longrightarrow> raises_no_SyntaxError (whenM c m)"
  by (simp add: whenM_def)

lemma raises_no_SyntaxError_prims [simp]:
  "raises_no_SyntaxError alloc" "raises_no_SyntaxError (gets f)" "raises_no_SyntaxError (modify g)"
  "raises_no_SyntaxError (assert_that c msg)"
  "raises_no_SyntaxError (fail BadPointer)" "raises_no_SyntaxError (fail (Abort msg))"
  "raises_no_SyntaxError (get_block b)" "raises_no_SyntaxError (upd_block b h)"
  by (simp_all add: raises_no_SyntaxError_def get_block_def upd_block_def)

lemma raises_no_SyntaxError_block_ops [simp]:
  "raises_no_SyntaxError (block_push_back b node)" "raises_no_SyntaxError (set_curblock c)"
  "raises_no_SyntaxError the_curblock" "raises_no_SyntaxError (connectTo x y ab)"
  "raises_no_SyntaxError addBlock" "raises_no_SyntaxError (makeName n ct)"
  "raises_no_SyntaxError (makeNum k)" "raises_no_SyntaxError (makeLangPrimitive opc args)"
  "raises_no_SyntaxError (mark_did_why i w)"
  by (auto simp: block_push_back_def set_curblock_def the_curblock_def connectTo_def addBlock_def
        new_block_def makeName_def makeNum_def makeLangPrimitive_def mark_did_why_def
        raises_no_SyntaxError_def bnd_apply thn_apply whenM_apply get_block_def upd_block_def
      split: option.splits sum.splits if_splits)

lemma push_back_Jump_no_SyntaxError: "raises_no_SyntaxError (push_back (AST_Jump a t))"
  by (auto simp: raises_no_SyntaxError_def push_back_Jump block_push_back_def upd_block_def
      split: option.splits)

lemma pushJump_no_SyntaxError: "raises_no_SyntaxError (pushJump t ab)"
  unfolding pushJump.simps
  by (intro raises_no_SyntaxError_bnd raises_no_SyntaxError_thn push_back_Jump_no_SyntaxError)
     simp_all

lemma assign_needs_no_invoke_no_SyntaxError: "raises_no_SyntaxError (assign_needs_no_invoke cb node)"
  unfolding assign_needs_no_invoke_def
  by (auto intro!: raises_no_SyntaxError_bnd raises_no_SyntaxError_thn
      split: stmt.splits expr.splits)

lemma push_back_no_SyntaxError: "raises_no_SyntaxError (push_back node)"
  unfolding push_back.simps Let_def
  by (auto intro!: raises_no_SyntaxError_bnd raises_no_SyntaxError_thn raises_no_SyntaxError_whenM
        pushJump_no_SyntaxError assign_needs_no_invoke_no_SyntaxError
      split: option.splits)

lemma pushAssign_id_no_SyntaxError: "raises_no_SyntaxError (pushAssign_id n v)"
  unfolding pushAssign_id_def pushAssign_Name_def
  by (intro raises_no_SyntaxError_bnd raises_no_SyntaxError_thn push_back_no_SyntaxError) simp_all

lemma find_cont_None: "(find_cont dest cs = None) = list_all (\<lambda>c. dest c = None) cs"
  by (induction cs) (auto split: option.splits)

lemma jump_out_no_SyntaxError:
  "raises_no_SyntaxError
     (thn (whenM c (bnd (makeNum k) (\<lambda>n. thn (pushAssign_id nm n) (mark_did_why i w))))
          (pushJump dest ab))"
  by (intro raises_no_SyntaxError_bnd raises_no_SyntaxError_thn raises_no_SyntaxError_whenM
        pushJump_no_SyntaxError pushAssign_id_no_SyntaxError)
     simp_all

lemma doContinue_SyntaxError:
  "(doContinue s = Inl (SyntaxError msg)) =
     (list_all (\<lambda>c. continue_dest c = None) (continuations s)
      \<and> msg = '''continue' not properly in loop'')"
  using jump_out_no_SyntaxError
  by (auto simp: doContinue_def bnd_apply find_cont_None [symmetric] raises_no_SyntaxError_def
      split: option.splits)

lemma doBreak_SyntaxError:
  "(doBreak s = Inl (SyntaxError msg)) =
     (list_all (\<lambda>c. break_dest c = None) (continuations s) \<and> msg = '''break' outside loop'')"
  using jump_out_no_SyntaxError
  by (auto simp: doBreak_def bnd_apply find_cont_None [symmetric] raises_no_SyntaxError_def
      split: option.splits)

lemma visit_continue_SyntaxError:
  "(visit_continue s = Inl (SyntaxError msg)) =
     (curblock s \<noteq> None \<and> doContinue s = Inl (SyntaxError msg))"
  by (cases "curblock s"; cases "doContinue s")
     (auto simp: visit_continue_def bnd_apply thn_apply split: if_splits)

lemma visit_break_SyntaxError:
  "(visit_break s = Inl (SyntaxError msg)) =
     (curblock s \<noteq> None \<and> doBreak s = Inl (SyntaxError msg))"
  by (cases "curblock s"; cases "doBreak s")
     (auto simp: visit_break_def bnd_apply thn_apply split: if_splits)

lemma new_visitor_simps [simp]:
  "curblock (new_visitor fresh) = Some 0"
  "continuations (new_visitor fresh) = []"
  "exc_handlers (new_visitor fresh) = []"
  "blocks (new_visitor fresh) = [0]"
  "next_addr (new_visitor fresh) = fresh"
  "heap (new_visitor fresh) =
     [\<lparr>idx = 0, info = ''entry'', body = [], predecessors = [], successors = []\<rparr>]"
  by (simp_all add: new_visitor_def)

lemma pushLoopContinuation_record:
  assumes "pushLoopContinuation cd bd s = Inr ((), s1)"
  shows "\<exists>c. continuations s1 = c # continuations s \<and> continue_dest c = Some cd
            \<and> break_dest c = Some bd"
  using assms by (auto simp: pushLoopContinuation_def thn_apply split: if_splits)

lemma pushFinallyContinuation_record:
  assumes "pushFinallyContinuation fb nm s = Inr ((), s1)"
  shows "\<exists>c. continuations s1 = c # continuations s \<and> continue_dest c = Some fb
            \<and> break_dest c = Some fb"
  using assms by (auto simp: pushFinallyContinuation_def)

text \<open>
  C4 (amended). A \<^verbatim>\<open>continue\<close> statement ends the pass with the \<open>SyntaxError\<close>
  ``'continue' not properly in loop'' exactly when it is visited while the cursor is
  present and no record on the stack of continuations has a continue destination; a
  \<^verbatim>\<open>break\<close> statement ends it with ``'break' outside loop'' exactly when it is visited
  while the cursor is present and no record has a break destination. The record that
  \<^verbatim>\<open>pushLoopContinuation\<close> puts on the stack has the two blocks it is given as its
  continue and break destinations; the record that \<^verbatim>\<open>pushFinallyContinuation\<close> puts
  on the stack has the \<^verbatim>\<open>finally\<close> block as both.
\<close>

theorem continue_break_syntax_error:
  "((visit_stmt src (AST_Continue a) s = Inl (SyntaxError '''continue' not properly in loop''))
      = (curblock s \<noteq> None \<and> list_all (\<lambda>c. continue_dest c = None) (continuations s)))
   \<and> ((visit_stmt src (AST_Break a) s = Inl (SyntaxError '''break' outside loop''))
      = (curblock s \<noteq> None \<and> list_all (\<lambda>c. break_dest c = None) (continuations s)))
   \<and> (\<forall>s1. pushLoopContinuation cd bd s = Inr ((), s1) \<longrightarrow>
         (\<exists>c. continuations s1 = c # continuations s \<and> continue_dest c = Some cd
              \<and> break_dest c = Some bd))
   \<and> (\<forall>s1. pushFinallyContinuation fb nm s = Inr ((), s1) \<longrightarrow>
         (\<exists>c. continuations s1 = c # continuations s \<and> continue_dest c = Some fb
              \<and> break_dest c = Some fb))"
  by (simp add: visit_continue_SyntaxError visit_break_SyntaxError
        doContinue_SyntaxError doBreak_SyntaxError
        pushLoopContinuation_record pushFinallyContinuation_record)

lemma continue_in_while_run:
  "map_option (map_sum id cfg_listing) (computeCFG module_source 100 continue_in_while)
   = Some (Inr
      [(0, [AST_Jump 100 1]),
       (1, [AST_Assign 102 [AST_Name 101 ''#0x2'' Store] (AST_Name 2 ''c'' Load),
            AST_Branch 104 (AST_LangPrimitive 105 NONZERO [AST_Name 103 ''#0x2'' Load])
              (Some 3) (Some 4)]),
       (3, [AST_Jump 106 1]),
       (4, [AST_Return 108 None])])"
  by code_simp

lemma break_in_while_run:
  "map_option (map_sum id cfg_listing) (computeCFG module_source 100 break_in_while)
   = Some (Inr
      [(0, [AST_Assign 102 [AST_Name 101 ''#0x2'' Store] (AST_Name 2 ''c'' Load),
            AST_Branch 104 (AST_LangPrimitive 105 NONZERO [AST_Name 103 ''#0x2'' Load])
              (Some 3) (Some 4)]),
       (3, [AST_Jump 106 2]),
       (4, [AST_Jump 107 2]),
       (2, [AST_Return 108 None])])"
  by code_simp

lemma continue_in_finally_run:
  "computeCFG module_source 100 continue_in_finally
     = Some (Inl (SyntaxError '''continue' not properly in loop''))"
  by code_simp

text \<open>At the start of a module, outside every loop, both statements are errors; after
  \<^verbatim>\<open>pushLoopContinuation\<close> neither is. \<^verbatim>\<open>while c: continue\<close> and \<^verbatim>\<open>while c: break\<close> are
  lowered: the block of the \<^verbatim>\<open>continue\<close> jumps to the test block 1, the block of the
  \<^verbatim>\<open>break\<close> to the exit block 2. \<^verbatim>\<open>try: continue\<close> \<^verbatim>\<open>finally: pass\<close> in no loop is
  an error.\<close>

theorem continue_break_syntax_error_witness:
  "visit_stmt module_source (AST_Continue 1) (new_visitor 100)
     = Inl (SyntaxError '''continue' not properly in loop'')
   \<and> visit_stmt module_source (AST_Break 1) (new_visitor 100)
     = Inl (SyntaxError '''break' outside loop'')
   \<and> (\<exists>s1 c. pushLoopContinuation 1 2 (new_visitor 100) = Inr ((), s1)
         \<and> continuations s1 = [c] \<and> continue_dest c = Some 1 \<and> break_dest c = Some 2
         \<and> visit_stmt module_source (AST_Continue 1) s1
              \<noteq> Inl (SyntaxError '''continue' not properly in loop'')
         \<and> visit_stmt module_source (AST_Break 1) s1 \<noteq> Inl (SyntaxError '''break' outside loop''))
   \<and> (\<exists>s1 c. pushFinallyContinuation 1 ''#0x1_why'' (new_visitor 100) = Inr ((), s1)
         \<and> continuations s1 = [c] \<and> continue_dest c = Some 1 \<and> break_dest c = Some 1)
   \<and> map_option (map_sum id cfg_listing) (computeCFG module_source 100 continue_in_while)
       = Some (Inr
          [(0, [AST_Jump 100 1]),
           (1, [AST_Assign 102 [AST_Name 101 ''#0x2'' Store] (AST_Name 2 ''c'' Load),
                AST_Branch 104 (AST_LangPrimitive 105 NONZERO [AST_Name 103 ''#0x2'' Load])
                  (Some 3) (Some 4)]),
           (3, [AST_Jump 106 1]),
           (4, [AST_Return 108 None])])
   \<and> map_option (map_sum id cfg_listing) (computeCFG module_source 100 break_in_while)
       = Some (Inr
          [(0, [AST_Assign 102 [AST_Name 101 ''#0x2'' Store] (AST_Name 2 ''c'' Load),
                AST_Branch 104 (AST_LangPrimitive 105 NONZERO [AST_Name 103 ''#0x2'' Load])
                  (Some 3) (Some 4)]),
           (3, [AST_Jump 106 2]),
           (4, [AST_Jump 107 2]),
           (2, [AST_Return 108 None])])
   \<and> computeCFG module_source 100 continue_in_finally
       = Some (Inl (SyntaxError '''continue' not properly in loop''))"
proof -
  note t = continue_break_syntax_error [where src = module_source and a = 1]
  have e: "visit_stmt module_source (AST_Continue 1) (new_visitor 100)
             = Inl (SyntaxError '''continue' not properly in loop'')"
          "visit_stmt module_source (AST_Break 1) (new_visitor 100)
             = Inl (SyntaxError '''break' outside loop'')"
    using t [of "new_visitor 100"] by simp_all
  obtain s1 where s1: "pushLoopContinuation 1 2 (new_visitor 100) = Inr ((), s1)"
    by (simp add: pushLoopContinuation_def thn_apply)
  from t [of "new_visitor 100" 1 2] s1
  have "\<exists>c. continuations s1 = c # continuations (new_visitor 100)
          \<and> continue_dest c = Some 1 \<and> break_dest c = Some 2"
    by blast
  then obtain c where
    c: "continuations s1 = [c]" "continue_dest c = Some 1" "break_dest c = Some 2"
    by auto
  with t [of s1] have n:
    "visit_stmt module_source (AST_Continue 1) s1 \<noteq> Inl (SyntaxError '''continue' not properly in loop'')"
    "visit_stmt module_source (AST_Break 1) s1 \<noteq> Inl (SyntaxError '''break' outside loop'')"
    by simp_all
  obtain s2 where s2: "pushFinallyContinuation 1 ''#0x1_why'' (new_visitor 100) = Inr ((), s2)"
    by (simp add: pushFinallyContinuation_def)
  from t [of "new_visitor 100" _ _ 1 "''#0x1_why''"] s2
  have "\<exists>c. continuations s2 = c # continuations (new_visitor 100)
          \<and> continue_dest c = Some 1 \<and> break_dest c = Some 1"
    by blast
  then obtain c2 where
    c2: "continuations s2 = [c2]" "continue_dest c2 = Some 1" "break_dest c2 = Some 1"
    by auto
  from e s1 c n s2 c2 continue_in_while_run break_in_while_run continue_in_finally_run
  show ?thesis by blast
qed

lemma unreachable_continue_run:
  "map_option (map_sum id cfg_listing) (computeCFG module_source 100 unreachable_continue)
     = Some (Inr [(0, [AST_Raise 100 None None None])])"
  by code_simp

lemma continue_then_return_run:
  "map_option (map_sum id cfg_listing) (computeCFG function_source 100 continue_then_return)
     = Some (Inr [(0, [AST_Assign 102 [AST_Name 101 ''#0x1_why'' Store] (AST_Num 100 Num_INT 1),
                       AST_Return 105 (Some (AST_Name 104 ''None'' Load))])])"
  by code_simp

lemma raise_leaves_no_cursor:
  "map_sum id (\<lambda>(u, s). (curblock s, continuations s))
     (visit_stmt module_source (AST_Raise 1 None None None) (new_visitor 100)) = Inr (None, [])"
  by code_simp

text \<open>The claim as it is written fails. In the module \<^verbatim>\<open>raise\<close> followed by
  \<^verbatim>\<open>continue\<close> the \<^verbatim>\<open>continue\<close> is in no loop, it is visited with an empty stack of
  continuations and without a cursor, and \<^verbatim>\<open>computeCFG\<close> returns a CFG of one block. In
  the function body \<^verbatim>\<open>try: continue\<close> \<^verbatim>\<open>finally: return\<close> the \<^verbatim>\<open>continue\<close> is in no
  loop either, and \<^verbatim>\<open>computeCFG\<close> returns a CFG.\<close>

theorem continue_break_syntax_error_counterexample:
  "unreachable_continue = [AST_Raise 1 None None None, AST_Continue 2]
   \<and> map_sum id (\<lambda>(u, s). (curblock s, continuations s))
        (visit_stmt module_source (AST_Raise 1 None None None) (new_visitor 100)) = Inr (None, [])
   \<and> map_option (map_sum id cfg_listing) (computeCFG module_source 100 unreachable_continue)
        = Some (Inr [(0, [AST_Raise 100 None None None])])
   \<and> continue_then_return = [AST_TryFinally 1 [AST_Continue 2] [AST_Return 3 None]]
   \<and> map_option (map_sum id cfg_listing) (computeCFG function_source 100 continue_then_return)
        = Some (Inr [(0, [AST_Assign 102 [AST_Name 101 ''#0x1_why'' Store] (AST_Num 100 Num_INT 1),
                          AST_Return 105 (Some (AST_Name 104 ''None'' Load))])])"
  using unreachable_continue_run continue_then_return_run raise_leaves_no_cursor
  by (simp add: unreachable_continue_def continue_then_return_def)

text \<open>
  C10. With a class body or a module as the root, a \<^verbatim>\<open>return\<close> statement ends the
  pass with the \<open>SyntaxError\<close> ``'return' outside function'' in every state, so also
  when the cursor is absent; a \<^verbatim>\<open>break\<close> or \<^verbatim>\<open>continue\<close> statement visited while the
  cursor is absent leaves the state as it is and raises nothing, whatever the stack of
  continuations holds.
\<close>

theorem unreachable_return_break_continue:
  "(root_type src = ClassDef \<or> root_type src = Module \<longrightarrow>
      visit_stmt src (AST_Return a v) s = Inl (SyntaxError '''return' outside function''))
   \<and> (curblock s = None \<longrightarrow>
        visit_stmt src (AST_Break a) s = Inr ((), s)
      \<and> visit_stmt src (AST_Continue a) s = Inr ((), s))"
  by (auto simp: visit_return_def visit_break_def visit_continue_def bnd_apply)

theorem unreachable_return_break_continue_witness:
  "curblock unreachable_state = None \<and> continuations unreachable_state = []
   \<and> visit_stmt module_source (AST_Return 1 None) unreachable_state
       = Inl (SyntaxError '''return' outside function'')
   \<and> visit_stmt module_source (AST_Break 2) unreachable_state = Inr ((), unreachable_state)
   \<and> visit_stmt module_source (AST_Continue 3) unreachable_state = Inr ((), unreachable_state)"
  using unreachable_return_break_continue [of module_source 1 None unreachable_state]
    unreachable_return_break_continue [of module_source 2 None unreachable_state]
    unreachable_return_break_continue [of module_source 3 None unreachable_state]
  by (simp add: unreachable_state_def module_source_def)

section \<open>The result of the expression lowerer\<close>

lemma bnd_ret_left: "bnd (ret x) f = f x"
  by (rule ext) (simp add: bnd_apply)

lemma remapExpr_of_clscall:
  "remapExpr src (AST_Call ca (AST_ClsAttribute aa (AST_Name na n c) attr) [] [] None None) True
     = remapExpr_clscall (AST_Call ca (AST_ClsAttribute aa (AST_Name na n c) attr) [] [] None None)"
  by (simp add: remapExpr_clscall_def bnd_ret_left bnd_ret_left [unfolded ret_def] ret_def)

lemma nodeName_starts_hash:
  assumes "nodeName node s = Inr (name, s')"
  shows "starts_hash name"
  using assms
  by (auto simp: nodeName_def Let_def thn_def bnd_def assert_that_def ret_def fail_def
      split: if_splits sum.splits)

lemma makeLoad_result:
  assumes "makeLoad name s = Inr (r, s')"
  shows "\<exists>a. r = AST_Name a name Load"
  using assms by (auto simp: makeLoad_def makeName_def bnd_def alloc_def ret_def)

lemma wrap_with_assign_shape:
  assumes "wrap_with_assign node rtn True s = Inr (r, s')"
  shows "is_temp_Name r"
proof (cases "is_temp_Name rtn")
  case True
  with assms show ?thesis by (simp add: wrap_with_assign_def)
next
  case False
  with assms have "bnd (nodeName node) (\<lambda>name. thn (pushAssign_id name rtn) (makeLoad name)) s = Inr (r, s')"
    by (simp add: wrap_with_assign_def)
  then obtain name s1 where n: "nodeName node s = Inr (name, s1)"
    and rest: "thn (pushAssign_id name rtn) (makeLoad name) s1 = Inr (r, s')"
    by (rule bnd_InrE)
  from rest obtain u s2 where "makeLoad name s2 = Inr (r, s')"
    by (rule thn_InrE)
  then obtain a where "r = AST_Name a name Load" using makeLoad_result by blast
  with nodeName_starts_hash [OF n] show ?thesis by simp
qed

lemma bnd_wrap_shape:
  assumes "bnd m (\<lambda>rtn. wrap_with_assign node rtn True) s = Inr (r, s')"
  shows "is_temp_Name r"
  using assms by (elim bnd_InrE) (rule wrap_with_assign_shape)

text \<open>
  Whenever \<^verbatim>\<open>remapExpr\<close> returns for an expression with \<^verbatim>\<open>wrap_with_assign\<close> set, its
  result is a \<open>Name\<close> whose identifier begins with \<^verbatim>\<open>#\<close>, a \<open>Num\<close>, a \<open>Str\<close>, or an
  \<open>Index\<close> of a \<open>Num\<close>.
\<close>

lemma remapExpr_wrapped_shape:
  assumes "remapExpr src e True s = Inr (r, s')"
  shows "is_temp_Name r \<or> is_Num r \<or> is_Str r \<or> (\<exists>a v. r = AST_Index a v \<and> is_Num v)"
proof (cases e)
  case (AST_Lambda a args b)
  then show ?thesis using assms
    by (cases args) (auto dest: bnd_wrap_shape)
next
  case (AST_Index a v)
  then show ?thesis using assms
    by (auto dest: bnd_wrap_shape split: if_splits)
qed (use assms in \<open>auto dest: bnd_wrap_shape wrap_with_assign_shape\<close>)

text \<open>\<^verbatim>\<open>a + 1\<close> at the start of a module: the result is the temporary \<^verbatim>\<open>#0x1\<close>, and
  the entry block holds the two assignments that compute it.\<close>

lemma a_plus_one_run:
  "map_sum id (\<lambda>(r, s). (r, body (heap s ! 0)))
     (remapExpr module_source a_plus_one True (new_visitor 100))
   = Inr (AST_Name 106 ''#0x1'' Load,
          [AST_Assign 102 [AST_Name 101 ''#0x2'' Store] (AST_Name 2 ''a'' Load),
           AST_Assign 105 [AST_Name 104 ''#0x1'' Store]
             (AST_BinOp 100 (AST_Name 103 ''#0x2'' Load) (OtherOp 0) (AST_Num 3 Num_INT 1))])"
  by code_simp

lemma boolop_unreachable_run:
  "remapExpr function_source a_or_b True unreachable_state = Inl BadPointer"
  by code_simp

lemma boolop_reachable_run:
  "map_sum id (\<lambda>(r, s). (r, curblock s)) (remapExpr function_source a_or_b True (new_visitor 100))
   = Inr (AST_Name 115 ''#0x4'' Load, Some 1)"
  by code_simp

lemma boolop_after_return_run:
  "computeCFG function_source 100 boolop_after_return = Some (Inl BadPointer)"
  by code_simp

lemma boolop_assign_run:
  "map_option (map_sum id cfg_listing) (computeCFG function_source 100 boolop_assign)
   = Some (Inr
      [(0, [AST_Assign 101 [AST_Name 100 ''#0x5'' Store] (AST_Name 5 ''a'' Load),
            AST_Assign 104 [AST_Name 103 ''#0x4'' Store] (AST_Name 102 ''#0x5'' Load),
            AST_Branch 105 (AST_LangPrimitive 107 NONZERO [AST_Name 106 ''#0x5'' Load])
              (Some 3) (Some 2)]),
       (2, [AST_Assign 110 [AST_Name 109 ''#0x6'' Store] (AST_Name 6 ''b'' Load),
            AST_Assign 113 [AST_Name 112 ''#0x4'' Store] (AST_Name 111 ''#0x6'' Load),
            AST_Jump 114 1]),
       (3, [AST_Jump 108 1]),
       (1, [AST_Assign 117 [AST_Name 3 ''z'' Store] (AST_Name 116 ''#0x4'' Load),
            AST_Return 118 None])])"
  by code_simp

text \<open>
  C8. \<^verbatim>\<open>remapExpr\<close> does not return an operand for every expression. With the cursor
  on a block, \<^verbatim>\<open>a or b\<close> is lowered to the temporary \<^verbatim>\<open>#0x4\<close> and the cursor moves to
  the exit block of the expression; \<^verbatim>\<open>z = a or b\<close> as the body of a function gives a
  CFG of four blocks. Without a cursor, as it is after a \<^verbatim>\<open>return\<close>, \<^verbatim>\<open>remapBoolOp\<close>
  reads the cursor into \<^verbatim>\<open>was_block\<close> and calls \<^verbatim>\<open>was_block->connectTo\<close> on the null
  pointer: the lowering of \<^verbatim>\<open>a or b\<close> stops there, and so does \<^verbatim>\<open>computeCFG\<close> on the
  function body \<^verbatim>\<open>return\<close> followed by \<^verbatim>\<open>z = a or b\<close>.
\<close>

theorem remapExpr_boolop_without_cursor:
  "map_sum id (\<lambda>(r, s). (r, curblock s)) (remapExpr function_source a_or_b True (new_visitor 100))
     = Inr (AST_Name 115 ''#0x4'' Load, Some 1)
   \<and> map_option (map_sum id cfg_listing) (computeCFG function_source 100 boolop_assign)
     = Some (Inr
        [(0, [AST_Assign 101 [AST_Name 100 ''#0x5'' Store] (AST_Name 5 ''a'' Load),
              AST_Assign 104 [AST_Name 103 ''#0x4'' Store] (AST_Name 102 ''#0x5'' Load),
              AST_Branch 105 (AST_LangPrimitive 107 NONZERO [AST_Name 106 ''#0x5'' Load])
                (Some 3) (Some 2)]),
         (2, [AST_Assign 110 [AST_Name 109 ''#0x6'' Store] (AST_Name 6 ''b'' Load),
              AST_Assign 113 [AST_Name 112 ''#0x4'' Store] (AST_Name 111 ''#0x6'' Load),
              AST_Jump 114 1]),
         (3, [AST_Jump 108 1]),
         (1, [AST_Assign 117 [AST_Name 3 ''z'' Store] (AST_Name 116 ''#0x4'' Load),
              AST_Return 118 None])])
   \<and> curblock unreachable_state = None
   \<and> remapExpr function_source a_or_b True unreachable_state = Inl BadPointer
   \<and> boolop_after_return = AST_Return 1 None # boolop_assign
   \<and> computeCFG function_source 100 boolop_after_return = Some (Inl BadPointer)"
  using boolop_reachable_run boolop_assign_run boolop_unreachable_run boolop_after_return_run
  by (simp add: unreachable_state_def boolop_after_return_def)

section \<open>Two runs of \<^verbatim>\<open>computeCFG\<close>\<close>

text \<open>
  C1. The loop \<^verbatim>\<open>while c:\<close> with the body \<^verbatim>\<open>try: continue\<close> \<^verbatim>\<open>finally: pass\<close>,
  \<^verbatim>\<open>x = 1\<close>. The body of the \<^verbatim>\<open>try\<close> sets the reason to 1 (\<open>CONTINUE\<close>). Block 3
  holds the first test of the dispatch, on the arm that continues the loop (block 6): it
  compares the reason with 3 (\<open>RETURN\<close>). Block 7 compares it with 4 (\<open>EXCEPTION\<close>).
  So with the reason 1 the run reaches block 9, the statement after the \<^verbatim>\<open>try\<close>.
\<close>

theorem tryfinally_continue_arm_compares_with_RETURN:
  "map_option (map_sum id cfg_listing) (computeCFG module_source 100 continue_in_try)
   = Some (Inr
      [(0, [AST_Jump 100 1]),
       (1, [AST_Assign 102 [AST_Name 101 ''#0x2'' Store] (AST_Name 2 ''c'' Load),
            AST_Branch 104 (AST_LangPrimitive 105 NONZERO [AST_Name 103 ''#0x2'' Load])
              (Some 3) (Some 10)]),
       (3, [AST_Assign 108 [AST_Name 107 ''#0x3_why'' Store] (AST_Num 106 Num_INT 1),
            AST_Branch 113
              (AST_LangPrimitive 114 NONZERO
                 [AST_Compare 112 (AST_Name 110 ''#0x3_why'' Load) [Eq] [AST_Num 111 Num_INT 3]])
              (Some 6) (Some 7)]),
       (7, [AST_Branch 119
              (AST_LangPrimitive 120 NONZERO
                 [AST_Compare 118 (AST_Name 116 ''#0x3_why'' Load) [Eq] [AST_Num 117 Num_INT 4]])
              (Some 8) (Some 9)]),
       (6, [AST_Jump 115 1]),
       (9, [AST_Assign 126 [AST_Name 7 ''x'' Store] (AST_Num 125 Num_INT 1),
            AST_Jump 127 1]),
       (8, [AST_Raise 121 (Some (AST_Name 122 ''#0x3_type'' Load))
              (Some (AST_Name 123 ''#0x3_value'' Load))
              (Some (AST_Name 124 ''#0x3_traceback'' Load))]),
       (10, [AST_Return 129 None])])"
  by code_simp

text \<open>
  C7. Two loops \<^verbatim>\<open>while a: pass\<close>. In the CFG that is returned the block at position
  4 of the list has the \<open>idx\<close> 5 and its predecessors have the \<open>idx\<close> 6 and 3, in this
  order: the first one is not less than 4, and the check of the order that was made
  before the merging fails on the result.
\<close>

theorem merged_cfg_first_predecessor:
  "map_option (map_sum id (\<lambda>s. (cfg_edges s, check_order s 4)))
     (computeCFG module_source 100 two_whiles)
   = Some (Inr
      ([(0, [], [1]), (1, [0, 2], [2, 3]), (2, [1], [1]), (3, [1], [5]),
        (5, [6, 3], [6, 7]), (6, [5], [5]), (7, [5], [])],
       Some ''rtn->blocks[i]->predecessors[0]->idx < i''))"
  by code_simp

section \<open>A \<^verbatim>\<open>return\<close> under a \<^verbatim>\<open>finally\<close>\<close>







lemma append_stmt_simps [simp]:
  "curblock (append_stmt cb node s) = curblock s"
  "exc_handlers (append_stmt cb node s) = exc_handlers s"
  "continuations (append_stmt cb node s) = continuations s"
  "blocks (append_stmt cb node s) = blocks s"
  "next_addr (append_stmt cb node s) = next_addr s"
  "length (heap (append_stmt cb node s)) = length (heap s)"
  by (simp_all add: append_stmt_def)


























section \<open>Well-formed states are kept by the operations on blocks\<close>

lemma edges_okD:
  assumes "edges_ok hp"
  shows "x < length hp \<Longrightarrow> y \<in> set (succs hp x) \<Longrightarrow> y < length hp"
    and "x < length hp \<Longrightarrow> y \<in> set (preds hp x) \<Longrightarrow> y < length hp"
    and "x < length hp \<Longrightarrow> y < length hp \<Longrightarrow> count_list (succs hp x) y = count_list (preds hp y) x"
  using assms unfolding edges_ok_def by blast+

lemma edges_okI:
  assumes "\<And>x y. x < length hp \<Longrightarrow> y \<in> set (succs hp x) \<Longrightarrow> y < length hp"
    and "\<And>x y. x < length hp \<Longrightarrow> y \<in> set (preds hp x) \<Longrightarrow> y < length hp"
    and "\<And>x y. x < length hp \<Longrightarrow> y < length hp \<Longrightarrow> count_list (succs hp x) y = count_list (preds hp y) x"
  shows "edges_ok hp"
  using assms unfolding edges_ok_def by blast

lemma edges_ok_same:
  assumes ok: "edges_ok hp" and len: "length hp' = length hp"
    and S: "\<And>z. z < length hp \<Longrightarrow> succs hp' z = succs hp z"
    and P: "\<And>z. z < length hp \<Longrightarrow> preds hp' z = preds hp z"
  shows "edges_ok hp'"
proof (rule edges_okI)
  fix x y assume "x < length hp'" "y \<in> set (succs hp' x)"
  then have "x < length hp" "y \<in> set (succs hp x)" using len S [of x] by simp_all
  then show "y < length hp'" using edges_okD(1) [OF ok] len by simp
next
  fix x y assume "x < length hp'" "y \<in> set (preds hp' x)"
  then have "x < length hp" "y \<in> set (preds hp x)" using len P [of x] by simp_all
  then show "y < length hp'" using edges_okD(2) [OF ok] len by simp
next
  fix x y assume "x < length hp'" "y < length hp'"
  then have "x < length hp" "y < length hp" using len by simp_all
  then show "count_list (succs hp' x) y = count_list (preds hp' y) x"
    using edges_okD(3) [OF ok, of x y] S [of x] P [of y] by simp
qed

lemma edges_ok_append:
  assumes ok: "edges_ok hp" and s: "successors blk = []" and p: "predecessors blk = []"
  shows "edges_ok (hp @ [blk])"
proof -
  have S: "succs (hp @ [blk]) z = (if z < length hp then succs hp z else [])" if "z \<le> length hp" for z
    using that s by (cases "z < length hp") (simp_all add: succs_def nth_append)
  have P: "preds (hp @ [blk]) z = (if z < length hp then preds hp z else [])" if "z \<le> length hp" for z
    using that p by (cases "z < length hp") (simp_all add: preds_def nth_append)
  show ?thesis
  proof (rule edges_okI)
    fix x y assume "x < length (hp @ [blk])" "y \<in> set (succs (hp @ [blk]) x)"
    then have "x < length hp \<and> y \<in> set (succs hp x)"
      by (cases "x < length hp") (simp_all add: S)
    with edges_okD(1) [OF ok] have "y < length hp" by blast
    then show "y < length (hp @ [blk])" by simp
  next
    fix x y assume "x < length (hp @ [blk])" "y \<in> set (preds (hp @ [blk]) x)"
    then have "x < length hp \<and> y \<in> set (preds hp x)"
      by (cases "x < length hp") (simp_all add: P)
    with edges_okD(2) [OF ok] have "y < length hp" by blast
    then show "y < length (hp @ [blk])" by simp
  next
    fix x y assume a: "x < length (hp @ [blk])" "y < length (hp @ [blk])"
    show "count_list (succs (hp @ [blk]) x) y = count_list (preds (hp @ [blk]) y) x"
    proof (cases "x < length hp \<and> y < length hp")
      case True
      then show ?thesis using edges_okD(3) [OF ok, of x y] by (simp add: S P)
    next
      case False
      have "count_list (succs hp x) y = 0" if "x < length hp" "\<not> y < length hp"
        using that edges_okD(1) [OF ok, of x y] by (auto simp: count_list_0_iff)
      moreover have "count_list (preds hp y) x = 0" if "y < length hp" "\<not> x < length hp"
        using that edges_okD(2) [OF ok, of y x] by (auto simp: count_list_0_iff)
      ultimately show ?thesis using a False
        by (cases "x < length hp"; cases "y < length hp") (simp_all add: S P)
    qed
  qed
qed

lemma edges_ok_connect:
  assumes ok: "edges_ok hp" and len: "length hp' = length hp"
    and x: "x < length hp" and y: "y < length hp"
    and S: "\<And>z. succs hp' z = (if z = x then succs hp x @ [y] else succs hp z)"
    and P: "\<And>z. preds hp' z = (if z = y then preds hp y @ [x] else preds hp z)"
  shows "edges_ok hp'"
proof (rule edges_okI)
  fix a b assume "a < length hp'" "b \<in> set (succs hp' a)"
  then have "a < length hp" "b \<in> set (succs hp a) \<or> b = y"
    using len by (auto simp: S split: if_splits)
  then show "b < length hp'" using edges_okD(1) [OF ok, of a b] y len by auto
next
  fix a b assume "a < length hp'" "b \<in> set (preds hp' a)"
  then have "a < length hp" "b \<in> set (preds hp a) \<or> b = x"
    using len by (auto simp: P split: if_splits)
  then show "b < length hp'" using edges_okD(2) [OF ok, of a b] x len by auto
next
  fix a b assume "a < length hp'" "b < length hp'"
  then have "a < length hp" "b < length hp" using len by simp_all
  then show "count_list (succs hp' a) b = count_list (preds hp' b) a"
    using edges_okD(3) [OF ok, of a b] by (auto simp: S P)
qed

lemma count_list_removeAll:
  "count_list (removeAll a xs) b = (if b = a then 0 else count_list xs b)"
  by (induction xs) auto

lemma edges_ok_unconnect:
  assumes ok: "edges_ok hp" and len: "length hp' = length hp"
    and S: "\<And>z. succs hp' z = (if z = x then removeAll y (succs hp x) else succs hp z)"
    and P: "\<And>z. preds hp' z = (if z = y then removeAll x (preds hp y) else preds hp z)"
  shows "edges_ok hp'"
proof (rule edges_okI)
  fix a b assume "a < length hp'" "b \<in> set (succs hp' a)"
  then have "a < length hp" "b \<in> set (succs hp a)"
    using len by (auto simp: S split: if_splits)
  then show "b < length hp'" using edges_okD(1) [OF ok, of a b] len by auto
next
  fix a b assume "a < length hp'" "b \<in> set (preds hp' a)"
  then have "a < length hp" "b \<in> set (preds hp a)"
    using len by (auto simp: P split: if_splits)
  then show "b < length hp'" using edges_okD(2) [OF ok, of a b] len by auto
next
  fix a b assume "a < length hp'" "b < length hp'"
  then have "a < length hp" "b < length hp" using len by simp_all
  then show "count_list (succs hp' a) b = count_list (preds hp' b) a"
    using edges_okD(3) [OF ok, of a b] by (auto simp: S P count_list_removeAll)
qed

lemma wf_stateD:
  assumes "wf_state s"
  shows "edges_ok (heap s)"
    and "b \<in> set (blocks s) \<Longrightarrow> b < length (heap s)"
    and "b < length (heap s) \<Longrightarrow> idx_of (heap s) b \<noteq> -1 \<Longrightarrow> b \<in> set (blocks s)"
    and "i < length (blocks s) \<Longrightarrow> idx_of (heap s) (blocks s ! i) = int i"
  using assms unfolding wf_state_def by blast+

lemma wf_stateI:
  assumes "edges_ok (heap s)"
    and "\<And>b. b \<in> set (blocks s) \<Longrightarrow> b < length (heap s)"
    and "\<And>b. b < length (heap s) \<Longrightarrow> idx_of (heap s) b \<noteq> -1 \<Longrightarrow> b \<in> set (blocks s)"
    and "\<And>i. i < length (blocks s) \<Longrightarrow> idx_of (heap s) (blocks s ! i) = int i"
  shows "wf_state s"
  using assms unfolding wf_state_def by blast

lemma wf_state_same:
  assumes wf: "wf_state s" and bl: "blocks s' = blocks s" and len: "length (heap s') = length (heap s)"
    and S: "\<And>z. z < length (heap s) \<Longrightarrow> succs (heap s') z = succs (heap s) z"
    and P: "\<And>z. z < length (heap s) \<Longrightarrow> preds (heap s') z = preds (heap s) z"
    and I: "\<And>z. z < length (heap s) \<Longrightarrow> idx_of (heap s') z = idx_of (heap s) z"
  shows "wf_state s'"
proof (rule wf_stateI)
  show "edges_ok (heap s')"
    using wf_stateD(1) [OF wf] len S P by (rule edges_ok_same)
next
  fix b assume "b \<in> set (blocks s')"
  then show "b < length (heap s')" using wf_stateD(2) [OF wf, of b] bl len by simp
next
  fix b assume "b < length (heap s')" "idx_of (heap s') b \<noteq> -1"
  then show "b \<in> set (blocks s')" using wf_stateD(3) [OF wf, of b] bl len I [of b] by simp
next
  fix i assume i: "i < length (blocks s')"
  then have "blocks s ! i < length (heap s)" using wf_stateD(2) [OF wf, of "blocks s ! i"] bl by simp
  then show "idx_of (heap s') (blocks s' ! i) = int i"
    using wf_stateD(4) [OF wf, of i] i bl I [of "blocks s ! i"] by simp
qed

lemma wf_state_heap_blocks:
  assumes "wf_state s" "heap s' = heap s" "blocks s' = blocks s"
  shows "wf_state s'"
  using assms by (simp add: wf_state_def)

lemma upd_block_InrD:
  assumes "upd_block b f s = Inr (r, s')"
  shows "b < length (heap s) \<and> s' = s\<lparr>heap := (heap s)[b := f (heap s ! b)]\<rparr>"
  using assms by (auto simp: upd_block_def split: if_splits)

lemma get_block_InrD:
  assumes "get_block b s = Inr (r, s')"
  shows "b < length (heap s) \<and> s' = s \<and> r = heap s ! b"
  using assms by (auto simp: get_block_def split: if_splits)

lemma thn_InrD:
  assumes "thn m n s = Inr x"
  shows "\<exists>y s1. m s = Inr (y, s1) \<and> n s1 = Inr x"
  using assms by (auto simp: thn_def bnd_def split: sum.splits)

lemma bnd_InrD:
  assumes "bnd m f s = Inr x"
  shows "\<exists>y s1. m s = Inr (y, s1) \<and> f y s1 = Inr x"
  using assms by (auto simp: bnd_def split: sum.splits)

lemma presI: "(\<And>s r s'. wf_state s \<Longrightarrow> m s = Inr (r, s') \<Longrightarrow> wf_state s') \<Longrightarrow> pres m"
  unfolding pres_def by blast

lemma presD: "pres m \<Longrightarrow> wf_state s \<Longrightarrow> m s = Inr (r, s') \<Longrightarrow> wf_state s'"
  unfolding pres_def by blast

named_theorems pres_intros

lemma pres_ret [pres_intros]: "pres (ret x)"
  by (rule presI) simp

lemma pres_fail [pres_intros]: "pres (fail e)"
  by (rule presI) simp

lemma pres_Inr [simp, pres_intros]: "pres (\<lambda>s. Inr (x, s))"
  by (rule presI) simp

lemma pres_Inl [simp, pres_intros]: "pres (\<lambda>s. Inl e)"
  by (rule presI) simp

lemma pres_gets [pres_intros]: "pres (gets f)"
  by (rule presI) simp

lemma pres_assert_that [pres_intros]: "pres (assert_that c msg)"
  by (rule presI) (simp split: if_splits)

lemma pres_alloc [pres_intros]: "pres alloc"
  by (rule presI) (auto elim: wf_state_heap_blocks)

lemma pres_get_block [pres_intros]: "pres (get_block b)"
  by (rule presI) (simp add: get_block_def split: if_splits)

lemma pres_bnd [pres_intros]:
  assumes "pres m" "\<And>x. pres (f x)"
  shows "pres (bnd m f)"
proof (rule presI)
  fix s r s'
  assume wf: "wf_state s" and run: "bnd m f s = Inr (r, s')"
  from run obtain y s1 where m: "m s = Inr (y, s1)" and f: "f y s1 = Inr (r, s')"
    by (rule bnd_InrE)
  from presD [OF assms(1) wf m] have "wf_state s1" .
  from presD [OF assms(2) this f] show "wf_state s'" .
qed

lemma pres_thn [pres_intros]: "pres m \<Longrightarrow> pres n \<Longrightarrow> pres (thn m n)"
  unfolding thn_def by (rule pres_bnd)

lemma pres_whenM [pres_intros]: "pres m \<Longrightarrow> pres (whenM c m)"
  by (simp add: whenM_def pres_ret)

lemma pres_if [pres_intros]: "(c \<Longrightarrow> pres a) \<Longrightarrow> (\<not> c \<Longrightarrow> pres b) \<Longrightarrow> pres (if c then a else b)"
  by simp

lemma pres_case_option [pres_intros]:
  "pres a \<Longrightarrow> (\<And>v. pres (f v)) \<Longrightarrow> pres (case x of None \<Rightarrow> a | Some v \<Rightarrow> f v)"
  by (cases x) simp_all

lemma pres_case_list [pres_intros]:
  "pres a \<Longrightarrow> (\<And>v vs. pres (f v vs)) \<Longrightarrow> pres (case x of [] \<Rightarrow> a | v # vs \<Rightarrow> f v vs)"
  by (cases x) simp_all

lemma pres_case_prod [pres_intros]:
  "(\<And>a b. pres (f a b)) \<Longrightarrow> pres (case x of (a, b) \<Rightarrow> f a b)"
  by (cases x) simp_all

lemma pres_Let [pres_intros]: "(\<And>v. pres (f v)) \<Longrightarrow> pres (Let x f)"
  by simp

lemma pres_modify:
  assumes "\<And>s. heap (f s) = heap s" "\<And>s. blocks (f s) = blocks s"
  shows "pres (modify f)"
  by (rule presI) (auto intro: wf_state_heap_blocks simp: assms)

lemma upd_block_obs:
  assumes "b < length hp"
  shows "succs (hp[b := v]) z = (if z = b then successors v else succs hp z)"
    and "preds (hp[b := v]) z = (if z = b then predecessors v else preds hp z)"
    and "idx_of (hp[b := v]) z = (if z = b then idx v else idx_of hp z)"
  using assms by (simp_all add: succs_def preds_def idx_of_def nth_list_update)

lemma pres_upd_block:
  assumes "\<And>blk. idx (f blk) = idx blk" "\<And>blk. predecessors (f blk) = predecessors blk"
    "\<And>blk. successors (f blk) = successors blk"
  shows "pres (upd_block b f)"
proof (rule presI)
  fix s r s' assume wf: "wf_state s" and run: "upd_block b f s = Inr (r, s')"
  from upd_block_InrD [OF run] have b: "b < length (heap s)"
    and s': "s' = s\<lparr>heap := (heap s)[b := f (heap s ! b)]\<rparr>" by simp_all
  show "wf_state s'"
  proof (rule wf_state_same [OF wf])
    show "blocks s' = blocks s" by (simp add: s')
    show "length (heap s') = length (heap s)" by (simp add: s')
    show "succs (heap s') z = succs (heap s) z" for z
      by (simp add: s' upd_block_obs [OF b] assms) (simp add: succs_def)
    show "preds (heap s') z = preds (heap s) z" for z
      by (simp add: s' upd_block_obs [OF b] assms) (simp add: preds_def)
    show "idx_of (heap s') z = idx_of (heap s) z" for z
      by (simp add: s' upd_block_obs [OF b] assms) (simp add: idx_of_def)
  qed
qed

lemma pres_block_push_back [pres_intros]: "pres (block_push_back b node)"
  unfolding block_push_back_def by (rule pres_upd_block) simp_all

lemma pres_set_info [pres_intros]: "pres (set_info b str)"
  unfolding set_info_def by (rule pres_upd_block) simp_all

lemma pres_set_curblock [pres_intros]: "pres (set_curblock c)"
  unfolding set_curblock_def by (rule pres_modify) simp_all

lemma pres_the_curblock [pres_intros]: "pres the_curblock"
  unfolding the_curblock_def by (intro pres_intros)

lemma pres_deref [pres_intros]: "pres (deref p)"
  unfolding deref_def by (intro pres_intros)

lemma pres_map_bodies [pres_intros]: "pres (map_bodies f)"
proof (rule presI)
  fix s r s' assume wf: "wf_state s" and run: "map_bodies f s = Inr (r, s')"
  then have s': "s' = s\<lparr>heap := map (\<lambda>blk. blk\<lparr>body := map f (body blk)\<rparr>) (heap s)\<rparr>"
    by (simp add: map_bodies_def)
  show "wf_state s'"
    by (rule wf_state_same [OF wf]) (simp_all add: s' succs_def preds_def idx_of_def)
qed

lemma nth_append_obs:
  assumes "z < length hp"
  shows "succs (hp @ [blk]) z = succs hp z" "preds (hp @ [blk]) z = preds hp z"
    "idx_of (hp @ [blk]) z = idx_of hp z"
  using assms by (simp_all add: succs_def preds_def idx_of_def nth_append)

lemma new_block_InrD:
  assumes "new_block i s = Inr (b, s')"
  shows "b = length (heap s)
       \<and> s' = s\<lparr>heap := heap s @ [\<lparr>idx = i, info = [], body = [], predecessors = [], successors = []\<rparr>]\<rparr>"
  using assms by (auto simp: new_block_def)

lemma wf_state_new_block:
  assumes wf: "wf_state s"
    and bl: "blocks s' = blocks s \<or> (blocks s' = blocks s @ [length (heap s)] \<and> idx blk = int (length (blocks s)))"
    and hp: "heap s' = heap s @ [blk]"
    and e: "successors blk = []" "predecessors blk = []"
    and i: "blocks s' = blocks s \<Longrightarrow> idx blk = -1"
  shows "wf_state s'"
proof (rule wf_stateI)
  show "edges_ok (heap s')"
    unfolding hp using wf_stateD(1) [OF wf] e by (rule edges_ok_append)
next
  fix b assume "b \<in> set (blocks s')"
  then have "b \<in> set (blocks s) \<or> b = length (heap s)" using bl by auto
  then show "b < length (heap s')" using wf_stateD(2) [OF wf, of b] hp by auto
next
  fix b assume b: "b < length (heap s')" "idx_of (heap s') b \<noteq> -1"
  show "b \<in> set (blocks s')"
  proof (cases "b < length (heap s)")
    case True
    then have "b \<in> set (blocks s)"
      using wf_stateD(3) [OF wf, of b] b(2) by (simp add: hp nth_append_obs)
    then show ?thesis using bl by auto
  next
    case False
    then have "b = length (heap s)" using b(1) hp by simp
    then show ?thesis using b(2) bl i by (auto simp: hp idx_of_def)
  qed
next
  fix j assume j: "j < length (blocks s')"
  show "idx_of (heap s') (blocks s' ! j) = int j"
  proof (cases "j < length (blocks s)")
    case True
    then have eq: "blocks s' ! j = blocks s ! j" using bl by (auto simp: nth_append)
    have "blocks s ! j < length (heap s)" using wf_stateD(2) [OF wf, of "blocks s ! j"] True by simp
    then show ?thesis using wf_stateD(4) [OF wf True] by (simp add: eq hp nth_append_obs)
  next
    case False
    then have "blocks s' = blocks s @ [length (heap s)] \<and> idx blk = int (length (blocks s))"
      and "j = length (blocks s)"
      using bl j by auto
    then show ?thesis by (simp add: hp idx_of_def)
  qed
qed

lemma pres_new_block_deferred: "pres (new_block (-1))"
proof (rule presI)
  fix s r s' assume wf: "wf_state s" and run: "new_block (-1) s = Inr (r, s')"
  from new_block_InrD [OF run] show "wf_state s'"
    by (intro wf_state_new_block [OF wf, where blk = "\<lparr>idx = -1, info = [], body = [],
          predecessors = [], successors = []\<rparr>"]) simp_all
qed

lemma pres_addDeferredBlock [pres_intros]: "pres addDeferredBlock"
  unfolding addDeferredBlock_def by (rule pres_new_block_deferred)

lemma addBlock_InrD:
  assumes "addBlock s = Inr (b, s')"
  shows "b = length (heap s)
       \<and> s' = s\<lparr>heap := heap s @ [\<lparr>idx = int (length (blocks s)), info = [], body = [],
                                        predecessors = [], successors = []\<rparr>],
                  blocks := blocks s @ [length (heap s)]\<rparr>"
  using assms by (auto simp: addBlock_def new_block_def bnd_apply thn_apply)

lemma pres_addBlock [pres_intros]: "pres addBlock"
proof (rule presI)
  fix s r s' assume wf: "wf_state s" and run: "addBlock s = Inr (r, s')"
  from addBlock_InrD [OF run] show "wf_state s'"
    by (intro wf_state_new_block [OF wf, where blk = "\<lparr>idx = int (length (blocks s)), info = [],
          body = [], predecessors = [], successors = []\<rparr>"]) simp_all
qed

lemma placeBlock_InrD:
  assumes "placeBlock b s = Inr (r, s')"
  shows "b < length (heap s) \<and> idx (heap s ! b) = -1
       \<and> s' = s\<lparr>heap := (heap s)[b := (heap s ! b)\<lparr>idx := int (length (blocks s))\<rparr>],
                  blocks := blocks s @ [b]\<rparr>"
  using assms
  by (auto simp: placeBlock_def get_block_def upd_block_def bnd_apply thn_apply split: if_splits)

lemma pres_placeBlock [pres_intros]: "pres (placeBlock b)"
proof (rule presI)
  fix s r s' assume wf: "wf_state s" and run: "placeBlock b s = Inr (r, s')"
  from placeBlock_InrD [OF run] have b: "b < length (heap s)" and ib: "idx_of (heap s) b = -1"
    and s': "s' = s\<lparr>heap := (heap s)[b := (heap s ! b)\<lparr>idx := int (length (blocks s))\<rparr>],
                  blocks := blocks s @ [b]\<rparr>"
    by (simp_all add: idx_of_def)
  have len: "length (heap s') = length (heap s)" by (simp add: s')
  have I: "idx_of (heap s') z = (if z = b then int (length (blocks s)) else idx_of (heap s) z)" for z
    by (simp add: s' upd_block_obs [OF b])
  show "wf_state s'"
  proof (rule wf_stateI)
    show "edges_ok (heap s')"
    proof (rule edges_ok_same [OF wf_stateD(1) [OF wf] len])
      show "succs (heap s') z = succs (heap s) z" for z
        by (simp add: s' upd_block_obs [OF b]) (simp add: succs_def)
      show "preds (heap s') z = preds (heap s) z" for z
        by (simp add: s' upd_block_obs [OF b]) (simp add: preds_def)
    qed
  next
    fix x assume "x \<in> set (blocks s')"
    then show "x < length (heap s')" using wf_stateD(2) [OF wf, of x] b by (auto simp: s')
  next
    fix x assume "x < length (heap s')" "idx_of (heap s') x \<noteq> -1"
    then show "x \<in> set (blocks s')"
      using wf_stateD(3) [OF wf, of x] by (cases "x = b") (simp_all add: I, simp_all add: s')
  next
    fix j assume j: "j < length (blocks s')"
    show "idx_of (heap s') (blocks s' ! j) = int j"
    proof (cases "j < length (blocks s)")
      case True
      then have eq: "blocks s' ! j = blocks s ! j" by (simp add: s' nth_append)
      from wf_stateD(4) [OF wf True] ib have "blocks s ! j \<noteq> b" by auto
      then show ?thesis using wf_stateD(4) [OF wf True] by (simp add: eq I)
    next
      case False
      then have "j = length (blocks s)" using j by (simp add: s')
      then show ?thesis by (simp add: I) (simp add: s')
    qed
  qed
qed

lemma connectTo_InrD:
  assumes "connectTo x y ab s = Inr (r, s')"
  shows "x < length (heap s) \<and> y < length (heap s)
       \<and> s' = s\<lparr>heap := ((heap s)[x := (heap s ! x)\<lparr>successors := successors (heap s ! x) @ [y]\<rparr>])
                  [y := (((heap s)[x := (heap s ! x)\<lparr>successors := successors (heap s ! x) @ [y]\<rparr>]) ! y)
                         \<lparr>predecessors := predecessors (((heap s)[x := (heap s ! x)\<lparr>successors := successors (heap s ! x) @ [y]\<rparr>]) ! y) @ [x]\<rparr>]\<rparr>"
  using assms
  by (auto simp: connectTo_def get_block_def upd_block_def bnd_apply thn_apply whenM_apply
      split: if_splits)

lemma connectTo_effect:
  assumes "connectTo x y ab s = Inr (r, s')"
  shows "x < length (heap s)" "y < length (heap s)"
    "blocks s' = blocks s" "length (heap s') = length (heap s)"
    "succs (heap s') z = (if z = x then succs (heap s) x @ [y] else succs (heap s) z)"
    "preds (heap s') z = (if z = y then preds (heap s) y @ [x] else preds (heap s) z)"
    "idx_of (heap s') z = idx_of (heap s) z"
    "body (heap s' ! z) = body (heap s ! z)"
proof -
  note d = connectTo_InrD [OF assms]
  from d show x: "x < length (heap s)" and y: "y < length (heap s)" by simp_all
  from d show "blocks s' = blocks s" "length (heap s') = length (heap s)" by simp_all
  from d x y show "succs (heap s') z = (if z = x then succs (heap s) x @ [y] else succs (heap s) z)"
    by (cases "z = x"; cases "z = y") (simp_all add: succs_def nth_list_update)
  from d x y show "preds (heap s') z = (if z = y then preds (heap s) y @ [x] else preds (heap s) z)"
    by (cases "z = x"; cases "z = y") (simp_all add: preds_def nth_list_update)
  from d x y show "idx_of (heap s') z = idx_of (heap s) z"
    by (cases "z = x"; cases "z = y") (simp_all add: idx_of_def nth_list_update)
  from d x y show "body (heap s' ! z) = body (heap s ! z)"
    by (cases "z = x"; cases "z = y") (simp_all add: nth_list_update)
qed

lemma pres_connectTo [pres_intros]: "pres (connectTo x y ab)"
proof (rule presI)
  fix s r s' assume wf: "wf_state s" and run: "connectTo x y ab s = Inr (r, s')"
  note e = connectTo_effect [OF run]
  show "wf_state s'"
  proof (rule wf_stateI)
    show "edges_ok (heap s')"
      using wf_stateD(1) [OF wf] e(4) e(1) e(2) e(5) e(6) by (rule edges_ok_connect)
  next
    fix b assume "b \<in> set (blocks s')"
    then show "b < length (heap s')" using wf_stateD(2) [OF wf, of b] e(3) e(4) by simp
  next
    fix b assume "b < length (heap s')" "idx_of (heap s') b \<noteq> -1"
    then show "b \<in> set (blocks s')" using wf_stateD(3) [OF wf, of b] e(3) e(4) e(7) by simp
  next
    fix j assume "j < length (blocks s')"
    then show "idx_of (heap s') (blocks s' ! j) = int j"
      using wf_stateD(4) [OF wf, of j] e(3) e(7) by simp
  qed
qed

section \<open>Every operation of the pass keeps states well-formed\<close>

lemma pres_nodeName [pres_intros]: "pres (nodeName node)"
  unfolding nodeName_def by (intro pres_intros pres_modify; simp)

lemma pres_nodeName_suffix [pres_intros]: "pres (nodeName_suffix node suffix)"
  unfolding nodeName_suffix_def by (intro pres_intros pres_modify; simp)

lemma pres_nodeName_idx [pres_intros]: "pres (nodeName_idx node suffix i)"
  unfolding nodeName_idx_def by (intro pres_intros pres_modify; simp)

lemma pres_makeName [pres_intros]: "pres (makeName ident ctx)"
  unfolding makeName_def by (intro pres_intros pres_modify; simp)

lemma pres_makeLoad [pres_intros]: "pres (makeLoad ident)"
  unfolding makeLoad_def by (intro pres_intros pres_modify; simp)

lemma pres_makeNum [pres_intros]: "pres (makeNum n)"
  unfolding makeNum_def by (intro pres_intros pres_modify; simp)

lemma pres_makeExpr [pres_intros]: "pres (makeExpr e)"
  unfolding makeExpr_def by (intro pres_intros pres_modify; simp)

lemma pres_makeLoadAttribute [pres_intros]: "pres (makeLoadAttribute base name clsonly)"
  unfolding makeLoadAttribute_def by (intro pres_intros pres_modify; simp)

lemma pres_makeCall [pres_intros]: "pres (makeCall func args)"
  unfolding makeCall_def by (intro pres_intros pres_modify; simp)

lemma pres_makeCompare [pres_intros]: "pres (makeCompare oper left right)"
  unfolding makeCompare_def by (intro pres_intros pres_modify; simp)

lemma pres_makeLangPrimitive [pres_intros]: "pres (makeLangPrimitive opc args)"
  unfolding makeLangPrimitive_def by (intro pres_intros pres_modify; simp)

lemma pres_assign_needs_no_invoke [pres_intros]: "pres (assign_needs_no_invoke cb node)"
  unfolding assign_needs_no_invoke_def
  by (auto split: stmt.splits expr.splits intro!: pres_intros)

lemma pres_push_back_Jump: "pres (push_back (AST_Jump a t))"
  by (subst push_back.simps) (intro pres_intros; simp)

lemma pres_pushJump [pres_intros]: "pres (pushJump target allow_backedge)"
  by (subst pushJump.simps) (intro pres_intros pres_push_back_Jump)

lemma pres_push_back [pres_intros]: "pres (push_back node)"
  by (subst push_back.simps) (intro pres_intros)

lemma pres_pushAssign_Name [pres_intros]: "pres (pushAssign_Name target val)"
  unfolding pushAssign_Name_def by (intro pres_intros pres_modify; simp)

lemma pres_pushAssign_id [pres_intros]: "pres (pushAssign_id ident val)"
  unfolding pushAssign_id_def by (intro pres_intros pres_modify; simp)

lemma pres_pushLoopContinuation [pres_intros]: "pres (pushLoopContinuation cont_dest brk_dest)"
  unfolding pushLoopContinuation_def by (intro pres_intros pres_modify; simp)

lemma pres_pushFinallyContinuation [pres_intros]: "pres (pushFinallyContinuation finally_block name)"
  unfolding pushFinallyContinuation_def by (intro pres_intros pres_modify; simp)

lemma pres_popContinuation [pres_intros]: "pres popContinuation"
  unfolding popContinuation_def by (intro pres_intros pres_modify; simp)

lemma pres_mark_did_why [pres_intros]: "pres (mark_did_why i w)"
  unfolding mark_did_why_def by (intro pres_intros pres_modify; simp)

lemma pres_doReturn [pres_intros]: "pres (doReturn v)"
  unfolding doReturn_def by (intro pres_intros pres_modify; simp)

lemma pres_doContinue [pres_intros]: "pres doContinue"
  unfolding doContinue_def by (intro pres_intros pres_modify; simp)

lemma pres_doBreak [pres_intros]: "pres doBreak"
  unfolding doBreak_def by (intro pres_intros pres_modify; simp)

lemma pres_branch_set_iftrue [pres_intros]: "pres (branch_set_iftrue a b)"
  unfolding branch_set_iftrue_def by (intro pres_intros pres_modify; simp)

lemma pres_branch_set_iffalse [pres_intros]: "pres (branch_set_iffalse a b)"
  unfolding branch_set_iffalse_def by (intro pres_intros pres_modify; simp)

lemma pres_dup [pres_intros]: "pres (dup e)"
  by (induction e rule: dup.induct) (auto intro!: pres_intros)

lemma pres_callNonzero [pres_intros]: "pres (callNonzero e)"
  unfolding callNonzero_def by (intro pres_intros pres_modify; simp)

lemma pres_makeBranch [pres_intros]: "pres (makeBranch test)"
  unfolding makeBranch_def by (intro pres_intros pres_modify; simp)

lemma pres_pushBranch [pres_intros]: "pres (pushBranch test iftrue iffalse)"
  unfolding pushBranch_def by (intro pres_intros pres_modify; simp)

lemma pres_wrap_with_assign [pres_intros]: "pres (wrap_with_assign node rtn wrap)"
  unfolding wrap_with_assign_def by (intro pres_intros pres_modify; simp)

lemma pres_remapExpr_clscall [pres_intros]: "pres (remapExpr_clscall call)"
  unfolding remapExpr_clscall_def
  by (auto split: expr.splits list.splits option.splits intro!: pres_intros)

lemma pres_make_store_names [pres_intros]: "pres (make_store_names node i n)"
  by (induction node i n rule: make_store_names.induct) (auto intro!: pres_intros)

lemma pres_place_all [pres_intros]: "pres (place_all bs)"
  by (induction bs) (auto intro!: pres_intros)

lemma pres_genexp_ifs [pres_intros]: "pres (genexp_ifs cs inner)"
  by (induction cs) (auto intro!: pres_intros)

lemma pres_genexp_loops [pres_intros]: "pres (genexp_loops first_generator_name first elt gens)"
  by (induction first_generator_name first elt gens rule: genexp_loops.induct)
     (auto intro!: pres_intros)

lemma pres_registerScopeReplacement [pres_intros]: "pres (registerScopeReplacement node func)"
  unfolding registerScopeReplacement_def by (intro pres_intros pres_modify; simp)

lemma pres_remapGeneratorExp_rest [pres_intros]: "pres (remapGeneratorExp_rest node elt generators first_generator first)"
  unfolding remapGeneratorExp_rest_def by (intro pres_intros pres_modify; simp)

lemma pres_remapBoolOp_round [pres_intros]: "pres (remapBoolOp_round name exit_block op val)"
  unfolding remapBoolOp_round_def by (intro pres_intros pres_modify; simp)

lemma pres_remapBoolOp_final [pres_intros]: "pres (remapBoolOp_final name exit_block final_val)"
  unfolding remapBoolOp_final_def by (intro pres_intros pres_modify; simp)

lemma pres_remapBoolOp_end [pres_intros]: "pres (remapBoolOp_end name exit_block)"
  unfolding remapBoolOp_end_def by (intro pres_intros pres_modify; simp)

lemma pres_remapCompare_round [pres_intros]: "pres (remapCompare_round name exit_block left op right)"
  unfolding remapCompare_round_def by (intro pres_intros pres_modify; simp)

lemma pres_remapCompare_end [pres_intros]: "pres (remapCompare_end name exit_block)"
  unfolding remapCompare_end_def by (intro pres_intros pres_modify; simp)

lemma pres_remapComprehension_start [pres_intros]: "pres (remapComprehension_start node is_dict)"
  unfolding remapComprehension_start_def by (intro pres_intros pres_modify; simp)

lemma pres_remapComprehension_test [pres_intros]: "pres (remapComprehension_test node i remapped_iter)"
  unfolding remapComprehension_test_def by (intro pres_intros pres_modify; simp)

lemma pres_remapComprehension_if [pres_intros]: "pres (remapComprehension_if test_block r)"
  unfolding remapComprehension_if_def by (intro pres_intros pres_modify; simp)

lemma pres_remapComprehension_link [pres_intros]: "pres (remapComprehension_link i finished_block exit_block)"
  unfolding remapComprehension_link_def by (intro pres_intros pres_modify; simp)

lemma pres_remapComprehension_apply [pres_intros]: "pres (remapComprehension_apply name method args test_block exit_blocks)"
  unfolding remapComprehension_apply_def by (intro pres_intros pres_modify; simp)

lemma pres_remapComprehension_end [pres_intros]: "pres (remapComprehension_end rtn_name exit_blocks)"
  unfolding remapComprehension_end_def by (intro pres_intros pres_modify; simp)

lemma pres_remapIfExp_start [pres_intros]: "pres (remapIfExp_start node)"
  unfolding remapIfExp_start_def by (intro pres_intros pres_modify; simp)

lemma pres_remapIfExp_branch [pres_intros]: "pres (remapIfExp_branch test iftrue iffalse)"
  unfolding remapIfExp_branch_def by (intro pres_intros pres_modify; simp)

lemma pres_remapIfExp_else [pres_intros]: "pres (remapIfExp_else rtn_name body_val iffalse exit_block)"
  unfolding remapIfExp_else_def by (intro pres_intros pres_modify; simp)

lemma pres_remapIfExp_end [pres_intros]: "pres (remapIfExp_end rtn_name orelse_val exit_block)"
  unfolding remapIfExp_end_def by (intro pres_intros pres_modify; simp)

lemma pres_remapYield_rest [pres_intros]: "pres (remapYield_rest ya v)"
  unfolding remapYield_rest_def by (intro pres_intros pres_modify; simp)

lemma pres_pushAssign_tuple [pres_intros]: "pres (pushAssign_tuple node c n val)"
  unfolding pushAssign_tuple_def by (intro pres_intros pres_modify; simp)

lemma pres_remapExpr_group:
  "pres (remapExpr src e w)"
  "pres (remapExpr_opt src eo)"
  "pres (remapExprs src es)"
  "pres (remap_keywords src kws)"
  "pres (remapAttribute src v attr c)"
  "pres (remapClsAttribute src v attr)"
  "pres (boolop_loop src name exit_block op vals)"
  "pres (compare_loop src name exit_block left ops cs)"
  "pres (comp_loop src node i fin exits gens)"
  "pres (comp_ifs src tb ifs)"
  "pres (pushAssign src target val)"
  "pres (pushAssign_elts src ta j elts)"
  apply (induction src e w and src eo and src es and src kws and src v attr c and src v attr
        and src name exit_block op vals and src name exit_block left ops cs
        and src node i fin exits gens and src tb ifs and src target val and src ta j elts
      rule: remapExpr_remapExpr_opt_remapExprs_remap_keywords_remapAttribute_remapClsAttribute_boolop_loop_compare_loop_comp_loop_comp_ifs_pushAssign_pushAssign_elts.induct)
  apply (simp_all (no_asm) only: remapExpr.simps remapExpr_opt.simps remapExprs.simps
      remap_keywords.simps boolop_loop.simps compare_loop.simps comp_loop.simps comp_ifs.simps
      pushAssign.simps pushAssign_elts.simps)
  apply ((split expr.split list.split option.split prod.split comprehension.split | intro pres_intros conjI allI impI | assumption | fast | subst remapAttribute.simps | subst remapClsAttribute.simps)+)
  done

lemmas pres_remapExpr [pres_intros] = pres_remapExpr_group

lemma pres_visit_classdef [pres_intros]: "pres (visit_classdef src a name bases decorator_list stmts)"
  unfolding visit_classdef_def by (intro pres_intros pres_modify; simp)

lemma pres_visit_functiondef [pres_intros]: "pres (visit_functiondef src a name args decorator_list stmts)"
  unfolding visit_functiondef_def by ((split expr.split stmt.split list.split option.split prod.split arguments.split import_alias.split | intro pres_intros conjI allI impI)+)

lemma pres_import_attrs [pres_intros]: "pres (import_attrs tmpname name l)"
  apply (induction tmpname name l rule: import_attrs.induct)
  apply (subst import_attrs.simps)
  apply (simp (no_asm) only: Let_def)
  apply ((split expr.split list.split option.split prod.split import_alias.split excepthandler.split | intro pres_intros conjI allI impI | assumption | fast)+)
  done

lemma pres_visit_import_alias [pres_intros]: "pres (visit_import_alias al)"
  unfolding visit_import_alias_def by ((split expr.split stmt.split list.split option.split prod.split arguments.split import_alias.split | intro pres_intros conjI allI impI)+)

lemma pres_visit_import [pres_intros]: "pres (visit_import names)"
  apply (induction names rule: visit_import.induct)
  apply (simp_all (no_asm) only: visit_import.simps)
  apply ((split expr.split list.split option.split prod.split import_alias.split excepthandler.split | intro pres_intros conjI allI impI | assumption | fast)+)
  done

lemma pres_importfrom_strs [pres_intros]: "pres (importfrom_strs names)"
  apply (induction names rule: importfrom_strs.induct)
  apply (simp_all (no_asm) only: importfrom_strs.simps)
  apply ((split expr.split list.split option.split prod.split import_alias.split excepthandler.split | intro pres_intros conjI allI impI | assumption | fast)+)
  done

lemma pres_importfrom_names [pres_intros]: "pres (importfrom_names tmp_module_name names)"
  apply (induction tmp_module_name names rule: importfrom_names.induct)
  apply (simp_all (no_asm) only: importfrom_names.simps)
  apply ((split expr.split list.split option.split prod.split import_alias.split excepthandler.split | intro pres_intros conjI allI impI | assumption | fast)+)
  done

lemma pres_visit_importfrom [pres_intros]: "pres (visit_importfrom src a module names level)"
  unfolding visit_importfrom_def by (intro pres_intros pres_modify; simp)

lemma pres_visit_assert [pres_intros]: "pres (visit_assert src a test msg)"
  unfolding visit_assert_def by (intro pres_intros pres_modify; simp)

lemma pres_assign_targets [pres_intros]: "pres (assign_targets src remapped_value targets)"
  apply (induction src remapped_value targets rule: assign_targets.induct)
  apply (simp_all (no_asm) only: assign_targets.simps)
  apply ((split expr.split list.split option.split prod.split import_alias.split excepthandler.split | intro pres_intros conjI allI impI | assumption | fast)+)
  done

lemma pres_visit_assign [pres_intros]: "pres (visit_assign src targets v)"
  unfolding visit_assign_def by (intro pres_intros pres_modify; simp)

lemma pres_augassign_target [pres_intros]: "pres (augassign_target src target)"
  unfolding augassign_target_def by ((split expr.split stmt.split list.split option.split prod.split arguments.split import_alias.split | intro pres_intros conjI allI impI)+)

lemma pres_visit_augassign [pres_intros]: "pres (visit_augassign src a target op v)"
  unfolding visit_augassign_def by (intro pres_intros pres_modify; simp)

lemma pres_visit_delete_group:
  "pres (visit_delete_target src t)"
  "pres (visit_delete src ts)"
  apply (induction src t and src ts rule: visit_delete_target_visit_delete.induct)
  apply (simp_all (no_asm) only: visit_delete_target.simps visit_delete.simps)
  apply ((split expr.split list.split option.split prod.split import_alias.split excepthandler.split | intro pres_intros conjI allI impI | assumption | fast)+)
  done

lemmas pres_visit_delete [pres_intros] = pres_visit_delete_group

lemma pres_visit_expr [pres_intros]: "pres (visit_expr src v)"
  unfolding visit_expr_def by (intro pres_intros pres_modify; simp)

lemma pres_dup_opt [pres_intros]: "pres (dup_opt v)"
  unfolding dup_opt_def by (intro pres_intros pres_modify; simp)

lemma pres_print_values [pres_intros]: "pres (print_values src dest nl vs)"
  apply (induction src dest nl vs rule: print_values.induct)
  apply (simp_all (no_asm) only: print_values.simps)
  apply ((split expr.split list.split option.split prod.split import_alias.split excepthandler.split | intro pres_intros conjI allI impI | assumption | fast)+)
  done

lemma pres_visit_print [pres_intros]: "pres (visit_print src dest nl vals)"
  unfolding visit_print_def by (intro pres_intros pres_modify; simp)

lemma pres_visit_return [pres_intros]: "pres (visit_return src v)"
  unfolding visit_return_def by (intro pres_intros pres_modify; simp)

lemma pres_visit_break [pres_intros]: "pres visit_break"
  unfolding visit_break_def by (intro pres_intros pres_modify; simp)

lemma pres_visit_continue [pres_intros]: "pres visit_continue"
  unfolding visit_continue_def by (intro pres_intros pres_modify; simp)

lemma pres_visit_exec [pres_intros]: "pres visit_exec"
  unfolding visit_exec_def by (intro pres_intros pres_modify; simp)

lemma pres_visit_raise [pres_intros]: "pres (visit_raise src arg0 arg1 arg2)"
  unfolding visit_raise_def by (intro pres_intros pres_modify; simp)

lemma pres_visit_if_start [pres_intros]: "pres (visit_if_start src test)"
  unfolding visit_if_start_def by (intro pres_intros pres_modify; simp)

lemma pres_jump_if_reachable [pres_intros]: "pres (jump_if_reachable target allow_backedge)"
  unfolding jump_if_reachable_def by (intro pres_intros pres_modify; simp)

lemma pres_visit_if_else [pres_intros]: "pres (visit_if_else ba starting_block exit_block)"
  unfolding visit_if_else_def by (intro pres_intros pres_modify; simp)

lemma pres_place_if_reached [pres_intros]: "pres (place_if_reached b)"
  unfolding place_if_reached_def by (intro pres_intros pres_modify; simp)

lemma pres_visit_if_end [pres_intros]: "pres (visit_if_end exit_block)"
  unfolding visit_if_end_def by (intro pres_intros pres_modify; simp)

lemma pres_visit_while_start [pres_intros]: "pres (visit_while_start src test)"
  unfolding visit_while_start_def by (intro pres_intros pres_modify; simp)

lemma pres_visit_while_else [pres_intros]: "pres (visit_while_else ba test_block test_block_end)"
  unfolding visit_while_else_def by (intro pres_intros pres_modify; simp)

lemma pres_visit_while_end [pres_intros]: "pres (visit_while_end end_block)"
  unfolding visit_while_end_def by (intro pres_intros pres_modify; simp)

lemma pres_for_hasnext_branch [pres_intros]: "pres (for_hasnext_branch src itername)"
  unfolding for_hasnext_branch_def by (intro pres_intros pres_modify; simp)

lemma pres_visit_for_start [pres_intros]: "pres (visit_for_start src node target iter)"
  unfolding visit_for_start_def by (intro pres_intros pres_modify; simp)

lemma pres_visit_for_else [pres_intros]: "pres (visit_for_else src itername loop_block else_block)"
  unfolding visit_for_else_def by (intro pres_intros pres_modify; simp)

lemma pres_visit_for_end [pres_intros]: "pres (visit_for_end end_block)"
  unfolding visit_for_end_def by (intro pres_intros pres_modify; simp)

lemma pres_push_exc_handler [pres_intros]: "pres (push_exc_handler h)"
  unfolding push_exc_handler_def by (intro pres_intros pres_modify; simp)

lemma pres_pop_exc_handler [pres_intros]: "pres pop_exc_handler"
  unfolding pop_exc_handler_def by (intro pres_intros pres_modify; simp)

lemma pres_visit_tryexcept_start [pres_intros]: "pres (visit_tryexcept_start node)"
  unfolding visit_tryexcept_start_def by (intro pres_intros pres_modify; simp)

lemma pres_visit_tryexcept_join [pres_intros]: "pres (visit_tryexcept_join h)"
  unfolding visit_tryexcept_join_def by (intro pres_intros pres_modify; simp)

lemma pres_visit_handler_start [pres_intros]: "pres (visit_handler_start src h exc_obj handler_type handler_name)"
  unfolding visit_handler_start_def by (intro pres_intros pres_modify; simp)

lemma pres_visit_handler_end [pres_intros]: "pres (visit_handler_end join_block exc_next caught_all)"
  unfolding visit_handler_end_def by (intro pres_intros pres_modify; simp)

lemma pres_push_reraise [pres_intros]: "pres (push_reraise type_name value_name traceback_name)"
  unfolding push_reraise_def by (intro pres_intros pres_modify; simp)

lemma pres_visit_tryexcept_uncaught [pres_intros]: "pres (visit_tryexcept_uncaught h caught_all)"
  unfolding visit_tryexcept_uncaught_def by (intro pres_intros pres_modify; simp)

lemma pres_makeFinallyCont [pres_intros]: "pres (makeFinallyCont reason whyexpr then_block)"
  unfolding makeFinallyCont_def by (intro pres_intros pres_modify; simp)

lemma pres_visit_tryfinally_start [pres_intros]: "pres (visit_tryfinally_start node)"
  unfolding visit_tryfinally_start_def by (intro pres_intros pres_modify; simp)

lemma pres_top_did_why [pres_intros]: "pres top_did_why"
  unfolding top_did_why_def by (intro pres_intros pres_modify; simp)

lemma pres_visit_tryfinally_finally [pres_intros]: "pres (visit_tryfinally_finally h exc_why_name finally_block)"
  unfolding visit_tryfinally_finally_def by (intro pres_intros pres_modify; simp)

lemma pres_finally_arm [pres_intros]:
  "pres action \<Longrightarrow> pres (finally_arm tag why_var block_info action)"
  unfolding finally_arm_def by (intro pres_intros pres_modify; simp)

lemma pres_visit_tryfinally_dispatch [pres_intros]: "pres (visit_tryfinally_dispatch h exc_why_name d)"
  unfolding visit_tryfinally_dispatch_def by (intro pres_intros pres_modify; simp)

lemma pres_visit_with_start [pres_intros]: "pres (visit_with_start src node context_expr optional_vars)"
  unfolding visit_with_start_def by (intro pres_intros pres_modify; simp)

lemma pres_assert_finally_otherwise [pres_intros]: "pres assert_finally_otherwise"
  unfolding assert_finally_otherwise_def by (intro pres_intros pres_modify; simp)

lemma pres_visit_with_exc [pres_intros]: "pres (visit_with_exc h node exitname exit_block)"
  unfolding visit_with_exc_def by (intro pres_intros pres_modify; simp)

lemma pres_visit_with_finally [pres_intros]: "pres (visit_with_finally exitname whyname finally_did_why finally_block exit_block)"
  unfolding visit_with_finally_def by (intro pres_intros pres_modify; simp)

lemma pres_visit_with_end [pres_intros]: "pres (visit_with_end h node exitname whyname finally_block exit_block)"
  unfolding visit_with_end_def by (intro pres_intros pres_modify; simp)

lemma pres_visit_stmt_group:
  "pres (visit_stmt src st)"
  "pres (visit_stmts src sts)"
  "pres (visit_handlers src h join_block exc_obj caught_all hs)"
  apply (induction src st and src sts and src h join_block exc_obj caught_all hs
      rule: visit_stmt_visit_stmts_visit_handlers.induct)
  apply (simp_all (no_asm) only: visit_stmt.simps visit_stmts.simps visit_handlers.simps)
  apply ((split expr.split list.split option.split prod.split import_alias.split excepthandler.split | intro pres_intros conjI allI impI | assumption | fast)+)
  done

lemmas pres_visit_stmt [pres_intros] = pres_visit_stmt_group

lemma pres_class_prologue [pres_intros]: "pres (class_prologue src stmts)"
  unfolding class_prologue_def by ((split expr.split stmt.split list.split option.split prod.split arguments.split import_alias.split | intro pres_intros conjI allI impI)+)

lemma pres_final_return [pres_intros]: "pres (final_return src)"
  unfolding final_return_def by (intro pres_intros pres_modify; simp)

lemma pres_walk [pres_intros]: "pres (walk src stmts)"
  unfolding walk_def by (intro pres_intros pres_modify; simp)

section \<open>What the checks before the merge pass establish\<close>

lemma first_failure_None: "(first_failure f xs = None) = (\<forall>x \<in> set xs. f x = None)"
  by (induction xs) (auto split: option.splits)

lemma run_check_InrD: "run_check f s = Inr (u, s') \<Longrightarrow> s' = s \<and> f s = None"
  by (auto simp: run_check_def split: option.splits)

lemma check_cfg_InrD0:
  assumes "check_cfg s = Inr (u, s')"
  shows "s' = s"
    and "blocks s \<noteq> []"
    and "predecessors (heap s ! hd (blocks s)) = []"
    and "first_failure (check_block s (hd (blocks s))) (blocks s) = None"
    and "first_failure (check_critical s) (blocks s) = None"
    and "first_failure (check_order s) [1 ..< length (blocks s)] = None"
  using assms
  by (auto simp: check_cfg_def bnd_apply thn_apply get_block_def run_check_def
      split: list.splits if_splits option.splits)

lemma check_cfg_InrD:
  assumes "check_cfg s = Inr (u, s')"
  shows "s' = s"
    and "blocks s \<noteq> []"
    and "predecessors (heap s ! hd (blocks s)) = []"
    and "\<forall>b \<in> set (blocks s). check_block s (hd (blocks s)) b = None"
    and "\<forall>b \<in> set (blocks s). check_critical s b = None"
    and "\<forall>i. 1 \<le> i \<and> i < length (blocks s) \<longrightarrow> check_order s i = None"
  using check_cfg_InrD0 [OF assms] by (simp_all add: first_failure_None)

lemma wf_state_new_visitor: "wf_state (new_visitor fresh)"
  by (auto simp: wf_state_def edges_ok_def new_visitor_def succs_def preds_def idx_of_def)

lemma merge_invD:
  assumes "merge_inv s"
  shows "edges_ok (heap s)"
    and "b \<in> set (blocks s) \<Longrightarrow> b < length (heap s)"
    and "sorted_wrt (<) (map (idx_of (heap s)) (blocks s))"
    and "b \<in> set (blocks s) \<Longrightarrow> c \<in> set (succs (heap s) b) \<Longrightarrow> c \<in> set (blocks s)"
    and "b \<in> set (blocks s) \<Longrightarrow> c \<in> set (preds (heap s) b) \<Longrightarrow> c \<in> set (blocks s)"
    and "no_critical_edges s"
    and "b \<in> set (blocks s) \<Longrightarrow> preds (heap s) b = [p] \<Longrightarrow> idx_of (heap s) p < idx_of (heap s) b"
  using assms unfolding merge_inv_def by blast+

lemma no_critical_edgesD:
  assumes "no_critical_edges s" "b \<in> set (blocks s)" "2 \<le> length (succs (heap s) b)"
    "c \<in> set (succs (heap s) b)"
  shows "length (preds (heap s) c) = 1"
  using assms unfolding no_critical_edges_def succs_def preds_def by blast

lemma in_succs_in_preds:
  assumes "edges_ok hp" "x < length hp" "y \<in> set (succs hp x)"
  shows "x \<in> set (preds hp y)"
proof -
  from edges_okD(1) [OF assms] have y: "y < length hp" .
  from assms(3) have "count_list (succs hp x) y \<noteq> 0" by (simp add: count_list_0_iff)
  with edges_okD(3) [OF assms(1,2) y] have "count_list (preds hp y) x \<noteq> 0" by simp
  then show ?thesis by (simp add: count_list_0_iff)
qed

lemma in_preds_in_succs:
  assumes "edges_ok hp" "y < length hp" "x \<in> set (preds hp y)"
  shows "y \<in> set (succs hp x)"
proof -
  from edges_okD(2) [OF assms] have x: "x < length hp" .
  from assms(3) have "count_list (preds hp y) x \<noteq> 0" by (simp add: count_list_0_iff)
  with edges_okD(3) [OF assms(1) x assms(2)] have "count_list (succs hp x) y \<noteq> 0" by simp
  then show ?thesis by (simp add: count_list_0_iff)
qed

lemma check_block_NoneD:
  "check_block s start b = None \<Longrightarrow>
     idx (heap s ! b) \<noteq> -1
     \<and> list_all (\<lambda>b2. idx (heap s ! b2) \<noteq> -1) (predecessors (heap s ! b))
     \<and> list_all (\<lambda>b2. idx (heap s ! b2) \<noteq> -1) (successors (heap s ! b))"
  by (simp add: check_block_def Let_def block_at_def split: if_splits)

lemma check_critical_NoneD:
  "check_critical s b = None \<Longrightarrow> 2 \<le> length (successors (heap s ! b)) \<Longrightarrow>
     list_all (\<lambda>b2. length (predecessors (heap s ! b2)) < 2) (successors (heap s ! b))"
  by (simp add: check_critical_def Let_def block_at_def split: if_splits)

lemma check_order_NoneD:
  "check_order s i = None \<Longrightarrow>
     idx (heap s ! hd (predecessors (heap s ! (blocks s ! i)))) < int i"
  by (simp add: check_order_def Let_def block_at_def split: if_splits)

lemma merge_inv_after_check:
  assumes wf: "wf_state s" and chk: "check_cfg s = Inr (u, s')"
  shows "merge_inv s'"
proof -
  note c = check_cfg_InrD [OF chk]
  note w = wf_stateD [OF wf]
  have s': "s' = s" by (rule c(1))
  have listed: "b < length (heap s)" if "b \<in> set (blocks s)" for b using w(2) that .
  have srt: "sorted_wrt (<) (map (idx_of (heap s)) (blocks s))"
    using w(4) by (auto simp: sorted_wrt_iff_nth_less)
  have cb: "idx_of (heap s) q \<noteq> -1"
    if "b \<in> set (blocks s)" "q \<in> set (succs (heap s) b) \<or> q \<in> set (preds (heap s) b)" for b q
  proof -
    from c(4) that(1) have "check_block s (hd (blocks s)) b = None" by blast
    from check_block_NoneD [OF this] that(2) show ?thesis
      by (auto simp: succs_def preds_def idx_of_def list_all_iff)
  qed
  have closed: "q \<in> set (blocks s)"
    if "b \<in> set (blocks s)" "q \<in> set (succs (heap s) b) \<or> q \<in> set (preds (heap s) b)" for b q
  proof -
    from that listed edges_okD(1,2) [OF w(1)] have "q < length (heap s)" by blast
    with cb [OF that] w(3) show ?thesis by blast
  qed
  have nc: "no_critical_edges s"
    unfolding no_critical_edges_def
  proof (intro ballI impI)
    fix b q assume b: "b \<in> set (blocks s)" and two: "2 \<le> length (successors (heap s ! b))"
      and q: "q \<in> set (successors (heap s ! b))"
    from c(5) b have "check_critical s b = None" by blast
    from check_critical_NoneD [OF this two] q have "length (predecessors (heap s ! q)) < 2"
      by (simp add: list_all_iff)
    moreover from in_succs_in_preds [OF w(1) listed [OF b], of q] q
    have "predecessors (heap s ! q) \<noteq> []" by (auto simp: succs_def preds_def)
    ultimately show "length (predecessors (heap s ! q)) = 1"
      by (cases "predecessors (heap s ! q)") auto
  qed
  have ord: "idx_of (heap s) p < idx_of (heap s) b"
    if b: "b \<in> set (blocks s)" and p: "preds (heap s) b = [p]" for b p
  proof -
    from b obtain i where i: "i < length (blocks s)" "blocks s ! i = b"
      by (auto simp: in_set_conv_nth)
    show ?thesis
    proof (cases "i = 0")
      case True
      with i c(2) have "b = hd (blocks s)" by (simp add: hd_conv_nth)
      with c(3) p show ?thesis by (simp add: preds_def)
    next
      case False
      with i c(6) have "check_order s i = None" by simp
      from check_order_NoneD [OF this] p i have "idx_of (heap s) p < int i"
        by (simp add: preds_def idx_of_def)
      with w(4) [OF i(1)] i(2) show ?thesis by simp
    qed
  qed
  show ?thesis
    unfolding s' merge_inv_def using w(1) listed srt closed nc ord by blast
qed

section \<open>The merge pass\<close>

lemma unconnectFrom_effect:
  assumes "unconnectFrom x y s = Inr (r, s')"
  shows "x < length (heap s)" "y < length (heap s)"
    "blocks s' = blocks s" "length (heap s') = length (heap s)"
    "succs (heap s') z = (if z = x then removeAll y (succs (heap s) x) else succs (heap s) z)"
    "preds (heap s') z = (if z = y then removeAll x (preds (heap s) y) else preds (heap s) z)"
    "idx_of (heap s') z = idx_of (heap s) z"
    "body (heap s' ! z) = body (heap s ! z)"
proof -
  from assms have d: "x < length (heap s) \<and> y < length (heap s)
     \<and> s' = s\<lparr>heap := ((heap s)[x := (heap s ! x)\<lparr>successors := removeAll y (successors (heap s ! x))\<rparr>])
                  [y := (((heap s)[x := (heap s ! x)\<lparr>successors := removeAll y (successors (heap s ! x))\<rparr>]) ! y)
                         \<lparr>predecessors := removeAll x (predecessors (((heap s)[x := (heap s ! x)\<lparr>successors := removeAll y (successors (heap s ! x))\<rparr>]) ! y))\<rparr>]\<rparr>"
    by (auto simp: unconnectFrom_def upd_block_def thn_apply split: if_splits)
  from d show x: "x < length (heap s)" and y: "y < length (heap s)" by simp_all
  from d show "blocks s' = blocks s" "length (heap s') = length (heap s)" by simp_all
  from d x y show "succs (heap s') z = (if z = x then removeAll y (succs (heap s) x) else succs (heap s) z)"
    by (cases "z = x"; cases "z = y") (simp_all add: succs_def nth_list_update)
  from d x y show "preds (heap s') z = (if z = y then removeAll x (preds (heap s) y) else preds (heap s) z)"
    by (cases "z = x"; cases "z = y") (simp_all add: preds_def nth_list_update)
  from d x y show "idx_of (heap s') z = idx_of (heap s) z"
    by (cases "z = x"; cases "z = y") (simp_all add: idx_of_def nth_list_update)
  from d x y show "body (heap s' ! z) = body (heap s ! z)"
    by (cases "z = x"; cases "z = y") (simp_all add: nth_list_update)
qed

lemma edges_ok_connectTo:
  assumes "edges_ok (heap s)" "connectTo x y ab s = Inr (r, s')"
  shows "edges_ok (heap s')"
  using assms(1) connectTo_effect(4,1,2,5,6) [OF assms(2)] by (rule edges_ok_connect)

lemma edges_ok_unconnectFrom:
  assumes "edges_ok (heap s)" "unconnectFrom x y s = Inr (r, s')"
  shows "edges_ok (heap s')"
  using assms(1) unconnectFrom_effect(4,5,6) [OF assms(2)] by (rule edges_ok_unconnect)

lemma reconnect_effect:
  assumes "reconnect b b2 cs s = Inr (u, s')" "b \<noteq> b2"
  shows "blocks s' = blocks s \<and> length (heap s') = length (heap s)
    \<and> (edges_ok (heap s) \<longrightarrow> edges_ok (heap s'))
    \<and> (\<forall>z. succs (heap s') z =
          (if z = b then succs (heap s) b @ cs
           else if z = b2 then filter (\<lambda>c. c \<notin> set cs) (succs (heap s) b2)
           else succs (heap s) z))
    \<and> (\<forall>z. preds (heap s') z =
          (if z \<in> set cs then removeAll b2 (preds (heap s) z) @ replicate (count_list cs z) b
           else preds (heap s) z))
    \<and> (\<forall>z. idx_of (heap s') z = idx_of (heap s) z)
    \<and> (\<forall>z. body (heap s' ! z) = body (heap s ! z))"
  using assms
proof (induction cs arbitrary: s)
  case Nil
  then show ?case by simp
next
  case (Cons c rest)
  from Cons.prems(1) obtain u1 s1 u2 s2 where
    c1: "connectTo b c True s = Inr (u1, s1)" and
    c2: "unconnectFrom b2 c s1 = Inr (u2, s2)" and
    c3: "reconnect b b2 rest s2 = Inr (u, s')"
    by (auto simp: thn_apply split: sum.splits)
  note e1 = connectTo_effect [OF c1]
  note e2 = unconnectFrom_effect [OF c2]
  note ih = Cons.IH [OF c3 Cons.prems(2)]
  have ok: "edges_ok (heap s) \<longrightarrow> edges_ok (heap s')"
    using ih edges_ok_connectTo [OF _ c1] edges_ok_unconnectFrom [OF _ c2] by blast
  have S: "succs (heap s') z =
          (if z = b then succs (heap s) b @ c # rest
           else if z = b2 then filter (\<lambda>x. x \<notin> set (c # rest)) (succs (heap s) b2)
           else succs (heap s) z)" for z
    using ih e1(5) e2(5) Cons.prems(2)
    by (auto simp: removeAll_filter_not_eq intro!: filter_cong)
  have P: "preds (heap s') z =
          (if z \<in> set (c # rest)
           then removeAll b2 (preds (heap s) z) @ replicate (count_list (c # rest) z) b
           else preds (heap s) z)" for z
    using ih e1(6) e2(6) Cons.prems(2)
    by (auto simp: replicate_append_same)
  show ?case using ih e1 e2 ok S P by simp
qed

lemma upd_body_effect:
  assumes "upd_block b (\<lambda>blk. blk\<lparr>body := f (body blk)\<rparr>) s = Inr (u, s')"
  shows "b < length (heap s)" "blocks s' = blocks s" "length (heap s') = length (heap s)"
    "succs (heap s') z = succs (heap s) z" "preds (heap s') z = preds (heap s) z"
    "idx_of (heap s') z = idx_of (heap s) z"
    "body (heap s' ! z) = (if z = b then f (body (heap s ! b)) else body (heap s ! z))"
proof -
  note d = upd_block_InrD [OF assms]
  from d show b: "b < length (heap s)" by simp
  from d show "blocks s' = blocks s" "length (heap s') = length (heap s)" by simp_all
  from d b show "succs (heap s') z = succs (heap s) z" "preds (heap s') z = preds (heap s) z"
    "idx_of (heap s') z = idx_of (heap s) z"
    by (cases "z = b"; simp add: succs_def preds_def idx_of_def nth_list_update)+
  from d b show "body (heap s' ! z) = (if z = b then f (body (heap s ! b)) else body (heap s ! z))"
    by (simp add: nth_list_update)
qed

lemma merge_blocks_effect:
  assumes run: "merge_blocks b b2 s = Inr (u, s')" and ne: "b \<noteq> b2"
    and nself: "b2 \<notin> set (succs (heap s) b2)"
  shows "b < length (heap s)" "b2 < length (heap s)"
    "blocks s' = removeAll b2 (blocks s)" "length (heap s') = length (heap s)"
    "edges_ok (heap s) \<Longrightarrow> edges_ok (heap s')"
    "succs (heap s') z =
       (if z = b then removeAll b2 (succs (heap s) b) @ succs (heap s) b2
        else if z = b2 then [] else succs (heap s) z)"
    "preds (heap s') z =
       (if z \<in> set (succs (heap s) b2)
        then removeAll b2 (preds (heap s) z) @ replicate (count_list (succs (heap s) b2) z) b
        else if z = b2 then removeAll b (preds (heap s) b2) else preds (heap s) z)"
    "idx_of (heap s') z = idx_of (heap s) z"
    "body (heap s' ! z) =
       (if z = b then butlast (body (heap s ! b)) @ body (heap s ! b2) else body (heap s ! z))"
proof -
  from run obtain u1 s1 blk2 s1' u2 s2 u3 s3 blk2' s3' u4 s4 where
    r1: "upd_block b (\<lambda>blk. blk\<lparr>body := butlast (body blk)\<rparr>) s = Inr (u1, s1)" and
    g1: "get_block b2 s1 = Inr (blk2, s1')" and
    r2: "upd_block b (\<lambda>blk. blk\<lparr>body := body blk @ body blk2\<rparr>) s1' = Inr (u2, s2)" and
    r3: "unconnectFrom b b2 s2 = Inr (u3, s3)" and
    g2: "get_block b2 s3 = Inr (blk2', s3')" and
    r4: "reconnect b b2 (successors blk2') s3' = Inr (u4, s4)" and
    r5: "s' = s4\<lparr>blocks := removeAll b2 (blocks s4)\<rparr>"
    unfolding merge_blocks_def
    by (auto simp: thn_apply bnd_apply split: sum.splits)
  note e1 = upd_body_effect [OF r1]
  from get_block_InrD [OF g1] have g1': "b2 < length (heap s1)" "s1' = s1" "blk2 = heap s1 ! b2"
    by simp_all
  note e2 = upd_body_effect [OF r2 [unfolded g1'(2)]]
  note e3 = unconnectFrom_effect [OF r3]
  from get_block_InrD [OF g2] have g2': "b2 < length (heap s3)" "s3' = s3" "blk2' = heap s3 ! b2"
    by simp_all
  have cs: "successors blk2' = succs (heap s) b2"
    using g2'(3) e3(5) [of b2] e2(4) [of b2] e1(4) [of b2] ne by (simp add: succs_def)
  note e4 = reconnect_effect [OF r4 [unfolded g2'(2) cs] ne]
  show "b < length (heap s)" by (rule e1(1))
  show "b2 < length (heap s)" using g1'(1) e1(3) by simp
  show "blocks s' = removeAll b2 (blocks s)" using r5 e4 e3(3) e2(2) e1(2) by simp
  show "length (heap s') = length (heap s)" using r5 e4 e3(4) e2(3) e1(3) by simp
  show "edges_ok (heap s')" if "edges_ok (heap s)"
  proof -
    from that have "edges_ok (heap s2)"
      by (rule edges_ok_same) (simp_all add: e1 e2)
    from edges_ok_unconnectFrom [OF this r3] e4 show ?thesis by (simp add: r5)
  qed
  show "succs (heap s') z =
       (if z = b then removeAll b2 (succs (heap s) b) @ succs (heap s) b2
        else if z = b2 then [] else succs (heap s) z)"
    using e4 e3(5) e2(4) e1(4) ne by (simp add: r5)
  show "preds (heap s') z =
       (if z \<in> set (succs (heap s) b2)
        then removeAll b2 (preds (heap s) z) @ replicate (count_list (succs (heap s) b2) z) b
        else if z = b2 then removeAll b (preds (heap s) b2) else preds (heap s) z)"
    using e4 e3(6) e2(5) e1(5) ne nself by (auto simp: r5)
  show "idx_of (heap s') z = idx_of (heap s) z"
    using e4 e3(7) e2(6) e1(6) by (simp add: r5)
  show "body (heap s' ! z) =
       (if z = b then butlast (body (heap s ! b)) @ body (heap s ! b2) else body (heap s ! z))"
    using e4 e3(8) e2(7) e1(7) g1'(3) ne by (simp add: r5)
qed

lemma sorted_wrt_removeAll:
  "sorted_wrt P (map f xs) \<Longrightarrow> sorted_wrt P (map f (removeAll x xs))"
  by (induction xs) auto

lemma merge_inv_merge_blocks:
  assumes J: "merge_inv s" and b: "b \<in> set (blocks s)"
    and sb: "succs (heap s) b = [b2]" and pb2: "preds (heap s) b2 = [b]"
    and run: "merge_blocks b b2 s = Inr (u, s')"
  shows "merge_inv s'" and "b \<in> set (blocks s')" and "b \<noteq> b2"
    and "blocks s' = removeAll b2 (blocks s)"
proof -
  note j = merge_invD [OF J]
  have b2: "b2 \<in> set (blocks s)" using j(4) [OF b] sb by simp
  have lt: "idx_of (heap s) b < idx_of (heap s) b2" using j(7) [OF b2 pb2] .
  then show ne: "b \<noteq> b2" by auto
  have bl: "b < length (heap s)" "b2 < length (heap s)" using j(2) b b2 by simp_all
  have nself: "b2 \<notin> set (succs (heap s) b2)"
  proof
    assume "b2 \<in> set (succs (heap s) b2)"
    from in_succs_in_preds [OF j(1) bl(2) this] pb2 ne show False by simp
  qed
  note e = merge_blocks_effect [OF run ne nself]
  let ?cs = "succs (heap s) b2"
  have S: "succs (heap s') z = (if z = b then ?cs else if z = b2 then [] else succs (heap s) z)" for z
    using e(6) [of z] sb by simp
  have P: "preds (heap s') z =
       (if z \<in> set ?cs then removeAll b2 (preds (heap s) z) @ replicate (count_list ?cs z) b
        else if z = b2 then [] else preds (heap s) z)" for z
    using e(7) [of z] pb2 by simp
  show bl': "blocks s' = removeAll b2 (blocks s)" by (rule e(3))
  show "b \<in> set (blocks s')" using b ne by (simp add: bl')
  have only_b: "x = b" if "x \<in> set (blocks s)" "b2 \<in> set (succs (heap s) x)" for x
    using in_succs_in_preds [OF j(1) j(2) [OF that(1)] that(2)] pb2 by simp
  have in_cs: "z \<in> set ?cs" if "z \<in> set (blocks s)" "b2 \<in> set (preds (heap s) z)" for z
    using in_preds_in_succs [OF j(1) j(2) [OF that(1)] that(2)] .
  have cs_listed: "c \<in> set (blocks s) \<and> c \<noteq> b2" if "c \<in> set ?cs" for c
    using j(4) [OF b2 that] that nself by auto
  show "merge_inv s'"
    unfolding merge_inv_def
  proof (intro conjI ballI allI impI)
    show "edges_ok (heap s')" using e(5) j(1) by simp
  next
    fix x assume "x \<in> set (blocks s')"
    then show "x < length (heap s')" using j(2) [of x] by (simp add: bl' e(4))
  next
    have "map (idx_of (heap s')) (blocks s') = map (idx_of (heap s)) (removeAll b2 (blocks s))"
      by (simp add: bl' e(8))
    with sorted_wrt_removeAll [OF j(3)]
    show "sorted_wrt (<) (map (idx_of (heap s')) (blocks s'))" by simp
  next
    fix x assume x: "x \<in> set (blocks s')"
    then have xl: "x \<in> set (blocks s)" and xn: "x \<noteq> b2" by (simp_all add: bl')
    show "set (succs (heap s') x) \<subseteq> set (blocks s')"
    proof
      fix c assume c: "c \<in> set (succs (heap s') x)"
      show "c \<in> set (blocks s')"
      proof (cases "x = b")
        case True
        with c S have "c \<in> set ?cs" by simp
        with cs_listed show ?thesis by (simp add: bl')
      next
        case False
        with c S xn have c': "c \<in> set (succs (heap s) x)" by simp
        with only_b [OF xl] False have "c \<noteq> b2" by auto
        with j(4) [OF xl c'] show ?thesis by (simp add: bl')
      qed
    qed
    show "set (preds (heap s') x) \<subseteq> set (blocks s')"
    proof
      fix p assume p: "p \<in> set (preds (heap s') x)"
      show "p \<in> set (blocks s')"
      proof (cases "x \<in> set ?cs")
        case True
        with p P have "(p \<in> set (preds (heap s) x) \<and> p \<noteq> b2) \<or> p = b" by (auto split: if_splits)
        with j(5) [OF xl] b ne show ?thesis by (auto simp: bl')
      next
        case False
        with p P xn have p': "p \<in> set (preds (heap s) x)" by simp
        with in_cs [OF xl] False have "p \<noteq> b2" by auto
        with j(5) [OF xl p'] show ?thesis by (simp add: bl')
      qed
    qed
  next
    show "no_critical_edges s'"
      unfolding no_critical_edges_def
    proof (intro ballI impI)
      fix x c assume x: "x \<in> set (blocks s')"
        and two: "2 \<le> length (successors (heap s' ! x))"
        and c: "c \<in> set (successors (heap s' ! x))"
      from x have xl: "x \<in> set (blocks s)" and xn: "x \<noteq> b2" by (simp_all add: bl')
      from two c have two': "2 \<le> length (succs (heap s') x)" and c': "c \<in> set (succs (heap s') x)"
        by (simp_all add: succs_def)
      have "length (preds (heap s') c) = 1"
      proof (cases "x = b")
        case True
        with two' c' S have t: "2 \<le> length ?cs" and cc: "c \<in> set ?cs" by simp_all
        from no_critical_edgesD [OF j(6) b2 t cc] have one: "length (preds (heap s) c) = 1" .
        from in_succs_in_preds [OF j(1) bl(2) cc] one have pc: "preds (heap s) c = [b2]"
          by (cases "preds (heap s) c") auto
        have "count_list ?cs c = 1"
          using edges_okD(3) [OF j(1) bl(2), of c] edges_okD(1) [OF j(1) bl(2) cc] pc by simp
        with P [of c] cc pc show ?thesis by simp
      next
        case False
        with two' c' S xn have t: "2 \<le> length (succs (heap s) x)" and cc: "c \<in> set (succs (heap s) x)"
          by simp_all
        from no_critical_edgesD [OF j(6) xl t cc] have one: "length (preds (heap s) c) = 1" .
        from in_succs_in_preds [OF j(1) j(2) [OF xl] cc] one have pc: "preds (heap s) c = [x]"
          by (cases "preds (heap s) c") auto
        have "c \<notin> set ?cs"
        proof
          assume "c \<in> set ?cs"
          from in_succs_in_preds [OF j(1) bl(2) this] pc xn show False by simp
        qed
        moreover have "c \<noteq> b2" using only_b [OF xl] cc False by auto
        ultimately show ?thesis using P [of c] one by simp
      qed
      then show "length (predecessors (heap s' ! c)) = 1" by (simp add: preds_def)
    qed
  next
    fix y p assume y: "y \<in> set (blocks s')" and py: "preds (heap s') y = [p]"
    from y have yl: "y \<in> set (blocks s)" and yn: "y \<noteq> b2" by (simp_all add: bl')
    show "idx_of (heap s') p < idx_of (heap s') y"
    proof (cases "y \<in> set ?cs")
      case True
      from in_succs_in_preds [OF j(1) bl(2) True] have m: "b2 \<in> set (preds (heap s) y)" .
      from True have k: "0 < count_list ?cs y" by (metis count_list_0_iff gr0I)
      from P [of y] True py
      have eq: "removeAll b2 (preds (heap s) y) @ replicate (count_list ?cs y) b = [p]" by simp
      with k have r: "removeAll b2 (preds (heap s) y) = []" "count_list ?cs y = 1" "p = b"
        by (cases "count_list ?cs y"; cases "count_list ?cs y - 1"; auto simp: append_eq_Cons_conv)+
      from edges_okD(3) [OF j(1) bl(2) j(2) [OF yl]] r(2)
      have "count_list (preds (heap s) y) b2 = 1" by simp
      moreover from r(1) have "set (preds (heap s) y) \<subseteq> {b2}" by (auto simp: removeAll_filter_not_eq filter_empty_conv)
      ultimately have "preds (heap s) y = [b2]"
        by (cases "preds (heap s) y"; cases "tl (preds (heap s) y)") (auto split: if_splits)
      from j(7) [OF yl this] lt r(3) show ?thesis by (simp add: e(8))
    next
      case False
      with P [of y] yn py have "preds (heap s) y = [p]" by simp
      from j(7) [OF yl this] show ?thesis by (simp add: e(8))
    qed
  qed
qed

lemma merge_try_cases:
  assumes "merge_try b s = Inr (again, s')"
  obtains (stop) "\<not> again" "s' = s"
  | (merge) b2 where "again" "succs (heap s) b = [b2]" "length (preds (heap s) b2) = 1"
      "merge_blocks b b2 s = Inr ((), s')" "b < length (heap s)"
proof -
  from assms have "(\<not> again \<and> s' = s)
      \<or> (again \<and> length (succs (heap s) b) = 1 \<and> length (preds (heap s) (hd (succs (heap s) b))) = 1
           \<and> merge_blocks b (hd (succs (heap s) b)) s = Inr ((), s') \<and> b < length (heap s))"
    by (auto simp: merge_try_def bnd_apply thn_apply get_block_def succs_def preds_def
        split: if_splits sum.splits stmt.splits)
  then show thesis
  proof (elim disjE conjE)
    assume "\<not> again" "s' = s" then show thesis by (rule stop)
  next
    assume a: "again" "length (succs (heap s) b) = 1"
      "length (preds (heap s) (hd (succs (heap s) b))) = 1"
      "merge_blocks b (hd (succs (heap s) b)) s = Inr ((), s')" "b < length (heap s)"
    from a(2) have "succs (heap s) b = [hd (succs (heap s) b)]"
      by (cases "succs (heap s) b") auto
    from this a(3,4,5) a(1) show thesis by (rule merge [rotated])
  qed
qed

lemma merge_inv_merge_try:
  assumes J: "merge_inv s" and b: "b \<in> set (blocks s)"
    and run: "merge_try b s = Inr (again, s')"
  shows "merge_inv s' \<and> b \<in> set (blocks s')"
  using run
proof (cases rule: merge_try_cases)
  case stop
  with J b show ?thesis by simp
next
  case (merge b2)
  note j = merge_invD [OF J]
  from in_succs_in_preds [OF j(1) merge(5), of b2] merge(2)
  have "b \<in> set (preds (heap s) b2)" by simp
  with merge(3) have "preds (heap s) b2 = [b]" by (cases "preds (heap s) b2") auto
  from merge_inv_merge_blocks(1,2) [OF J b merge(2) this merge(4)] show ?thesis by simp
qed

lemma merge_inv_merge_inner:
  assumes "merge_inner b s = Some r" "merge_inv s" "b \<in> set (blocks s)"
  shows "case r of Inl e \<Rightarrow> True | Inr s' \<Rightarrow> merge_inv s'"
  using assms
proof (induction rule: merge_inner.raw_induct [rotated 1, consumes 1])
  case (1 merge_inner' b s r)
  show ?case
  proof (cases "merge_try b s")
    case (Inl e)
    with 1(2) show ?thesis by auto
  next
    case (Inr p)
    obtain again s1 where p: "p = (again, s1)" by (cases p)
    from merge_inv_merge_try [OF 1(3,4) Inr [unfolded p]] have j1: "merge_inv s1" "b \<in> set (blocks s1)"
      by simp_all
    show ?thesis
    proof (cases again)
      case True
      with 1(2) Inr p have "merge_inner' b s1 = Some r" by simp
      from 1(1) [OF this j1] show ?thesis .
    next
      case False
      with 1(2) Inr p j1 show ?thesis by auto
    qed
  qed
qed

lemma merge_inv_merge_outer:
  assumes "merge_outer i s = Some r" "merge_inv s"
  shows "case r of Inl e \<Rightarrow> True | Inr s' \<Rightarrow> merge_inv s'"
  using assms
proof (induction rule: merge_outer.raw_induct [rotated 1, consumes 1])
  case (1 merge_outer' i s r)
  show ?case
  proof (cases "i < length (blocks s)")
    case False
    with 1(2,3) show ?thesis by auto
  next
    case True
    with 1(2) obtain r1 where r1: "merge_inner (blocks s ! i) s = Some r1"
      and rest: "(case r1 of Inl e \<Rightarrow> Some (Inl e) | Inr s' \<Rightarrow> merge_outer' (Suc i) s') = Some r"
      by (auto simp: bind_eq_Some_conv)
    from True have "blocks s ! i \<in> set (blocks s)" by simp
    from merge_inv_merge_inner [OF r1 1(3) this]
    show ?thesis
    proof (cases r1)
      case (Inl e)
      with rest show ?thesis by auto
    next
      case (Inr s1)
      with rest have "merge_outer' (Suc i) s1 = Some r" by simp
      moreover from merge_inv_merge_inner [OF r1 1(3) \<open>blocks s ! i \<in> set (blocks s)\<close>] Inr
      have "merge_inv s1" by simp
      ultimately show ?thesis by (rule 1(1))
    qed
  qed
qed

lemma length_removeAll_count: "length (removeAll x xs) + count_list xs x = length xs"
  by (induction xs) auto

lemma merge_try_depends:
  assumes "x < length (heap s)" "length (heap s') = length (heap s)"
    and "succs (heap s') x = succs (heap s) x"
    and "body (heap s' ! x) = body (heap s ! x)"
    and "\<And>c. succs (heap s) x = [c] \<Longrightarrow> c < length (heap s)
            \<Longrightarrow> length (preds (heap s') c) = length (preds (heap s) c)"
    and "merge_try x s = Inr (False, s)"
  shows "merge_try x s' = Inr (False, s')"
proof (cases "length (succs (heap s) x) = 1")
  case False
  with assms(1-3) show ?thesis
    by (simp add: merge_try_def bnd_apply get_block_def succs_def)
next
  case True
  then obtain c where c: "succs (heap s) x = [c]" by (cases "succs (heap s) x") auto
  from assms(6) c assms(1) have cl: "c < length (heap s)"
    by (auto simp: merge_try_def bnd_apply get_block_def succs_def split: if_splits)
  note p = assms(5) [OF c cl]
  from c assms(3) have c': "successors (heap s' ! x) = [c]" "successors (heap s ! x) = [c]"
    by (simp_all add: succs_def)
  from p have p': "length (predecessors (heap s' ! c)) = length (predecessors (heap s ! c))"
    by (simp add: preds_def)
  show ?thesis
  proof (cases "length (predecessors (heap s ! c)) = 1")
    case False
    with assms(1,2) cl c' p' show ?thesis
      by (simp add: merge_try_def bnd_apply get_block_def)
  next
    case True
    with assms(1,2,4,6) cl c' p' show ?thesis
      by (auto simp: merge_try_def bnd_apply thn_apply get_block_def
          split: if_splits stmt.splits sum.splits)
  qed
qed

lemma settled_merge_blocks:
  assumes J: "merge_inv s" and b: "b \<in> set (blocks s)"
    and sb: "succs (heap s) b = [b2]" and pb2: "preds (heap s) b2 = [b]"
    and run: "merge_blocks b b2 s = Inr (u, s')"
    and x: "x \<in> set (blocks s)" "x \<noteq> b" "x \<noteq> b2" and st: "settled s x"
  shows "settled s' x"
proof -
  note j = merge_invD [OF J]
  have b2: "b2 \<in> set (blocks s)" using j(4) [OF b] sb by simp
  have ne: "b \<noteq> b2" using j(7) [OF b2 pb2] by auto
  have bl: "b < length (heap s)" "b2 < length (heap s)" using j(2) b b2 by simp_all
  have nself: "b2 \<notin> set (succs (heap s) b2)"
  proof
    assume "b2 \<in> set (succs (heap s) b2)"
    from in_succs_in_preds [OF j(1) bl(2) this] pb2 ne show False by simp
  qed
  note e = merge_blocks_effect [OF run ne nself]
  let ?cs = "succs (heap s) b2"
  have xl: "x < length (heap s)" using j(2) x(1) by simp
  show ?thesis
    unfolding settled_def
  proof (rule merge_try_depends [OF xl e(4)])
    show "succs (heap s') x = succs (heap s) x" using e(6) [of x] x(2,3) by simp
    show "body (heap s' ! x) = body (heap s ! x)" using e(9) [of x] x(2) by simp
    show "merge_try x s = Inr (False, s)" using st by (simp add: settled_def)
  next
    fix c assume c: "succs (heap s) x = [c]" and cl: "c < length (heap s)"
    show "length (preds (heap s') c) = length (preds (heap s) c)"
    proof (cases "c \<in> set ?cs")
      case True
      from edges_okD(3) [OF j(1) bl(2) cl]
      have "count_list ?cs c = count_list (preds (heap s) c) b2" .
      with e(7) [of c] True length_removeAll_count [of b2 "preds (heap s) c"]
      show ?thesis by simp
    next
      case False
      have "c \<noteq> b2"
      proof
        assume "c = b2"
        with c have "b2 \<in> set (succs (heap s) x)" by simp
        from in_succs_in_preds [OF j(1) xl this] pb2 x(2) show False by simp
      qed
      with e(7) [of c] False show ?thesis by simp
    qed
  qed
qed

lemma take_removeAll:
  "x \<notin> set (take n xs) \<Longrightarrow> take n (removeAll x xs) = take n xs"
  by (induction xs arbitrary: n) (auto simp: take_Cons split: nat.splits)

lemma later_not_in_take:
  fixes f :: "'a \<Rightarrow> int"
  assumes srt: "sorted_wrt (<) (map f xs)" and i: "i < length xs" and lt: "f (xs ! i) < f y"
  shows "y \<notin> set (take (Suc i) xs)"
proof
  assume "y \<in> set (take (Suc i) xs)"
  then obtain k where k: "k < Suc i" "k < length xs" "xs ! k = y"
    by (auto simp: in_set_conv_nth)
  show False
  proof (cases "k = i")
    case True
    with k lt show False by simp
  next
    case False
    with k(1) have "k < i" by simp
    with srt i have "f (xs ! k) < f (xs ! i)" by (simp add: sorted_wrt_iff_nth_less)
    with k(3) lt show False by simp
  qed
qed

text \<open>One round of the inner loop at position \<open>i\<close>.\<close>

lemma merge_try_round:
  assumes J: "merge_inv s" and i: "i < length (blocks s)"
    and D: "\<forall>x \<in> set (take i (blocks s)). settled s x"
    and run: "merge_try (blocks s ! i) s = Inr (again, s')"
  shows "merge_inv s'" "i < length (blocks s')" "blocks s' ! i = blocks s ! i"
    "\<forall>x \<in> set (take i (blocks s')). settled s' x"
    "\<not> again \<Longrightarrow> s' = s \<and> settled s (blocks s ! i)"
proof -
  let ?b = "blocks s ! i"
  have b: "?b \<in> set (blocks s)" using i by simp
  note j = merge_invD [OF J]
  have "merge_inv s' \<and> i < length (blocks s') \<and> blocks s' ! i = ?b
        \<and> (\<forall>x \<in> set (take i (blocks s')). settled s' x)
        \<and> (\<not> again \<longrightarrow> s' = s \<and> settled s ?b)"
    using run
  proof (cases rule: merge_try_cases)
    case stop
    with J i D run show ?thesis by (simp add: settled_def)
  next
    case (merge b2)
    from in_succs_in_preds [OF j(1) merge(5), of b2] merge(2)
    have "?b \<in> set (preds (heap s) b2)" by simp
    with merge(3) have pb2: "preds (heap s) b2 = [?b]" by (cases "preds (heap s) b2") auto
    note m = merge_inv_merge_blocks [OF J b merge(2) pb2 merge(4)]
    have b2: "b2 \<in> set (blocks s)" using j(4) [OF b] merge(2) by simp
    from j(7) [OF b2 pb2] have lt: "idx_of (heap s) ?b < idx_of (heap s) b2" .
    from later_not_in_take [OF j(3) i lt] have nin: "b2 \<notin> set (take (Suc i) (blocks s))" .
    from take_removeAll [OF nin] m(4)
    have tk: "take (Suc i) (blocks s') = take (Suc i) (blocks s)" by simp
    then have len: "i < length (blocks s')"
      using i by (metis length_take lessI min_less_iff_conj)
    from tk i len have nth: "blocks s' ! i = ?b"
      by (metis lessI nth_take)
    from tk have tk': "take i (blocks s') = take i (blocks s)"
      by (metis le_add2 plus_1_eq_Suc take_take min.absorb1 Suc_leD le_refl)
    have "settled s' x" if "x \<in> set (take i (blocks s'))" for x
    proof -
      from that tk' have xi: "x \<in> set (take i (blocks s))" by simp
      then have xl: "x \<in> set (blocks s)" by (rule in_set_takeD)
      from xi obtain k where k: "k < i" "blocks s ! k = x"
        using i by (auto simp: in_set_conv_nth)
      from j(3) k i have "idx_of (heap s) x < idx_of (heap s) ?b"
        by (auto simp: sorted_wrt_iff_nth_less)
      with lt have "x \<noteq> ?b" "x \<noteq> b2" by auto
      from settled_merge_blocks [OF J b merge(2) pb2 merge(4) xl this] D xi
      show ?thesis by blast
    qed
    with m(1) len nth merge(1) show ?thesis by blast
  qed
  then show "merge_inv s'" "i < length (blocks s')" "blocks s' ! i = blocks s ! i"
    "\<forall>x \<in> set (take i (blocks s')). settled s' x"
    "\<not> again \<Longrightarrow> s' = s \<and> settled s (blocks s ! i)"
    by blast+
qed

lemma merge_inner_settles:
  assumes "merge_inner b s = Some r" "merge_inv s" "i < length (blocks s)" "blocks s ! i = b"
    "\<forall>x \<in> set (take i (blocks s)). settled s x"
  shows "case r of Inl e \<Rightarrow> True
         | Inr s' \<Rightarrow> merge_inv s' \<and> i < length (blocks s')
                      \<and> (\<forall>x \<in> set (take (Suc i) (blocks s')). settled s' x)"
  using assms
proof (induction rule: merge_inner.raw_induct [rotated 1, consumes 1])
  case (1 merge_inner' b s r)
  show ?case
  proof (cases "merge_try b s")
    case (Inl e)
    with 1(2) show ?thesis by auto
  next
    case (Inr p)
    obtain again s1 where p: "p = (again, s1)" by (cases p)
    from Inr p 1(5) have run: "merge_try (blocks s ! i) s = Inr (again, s1)" by simp
    note t = merge_try_round [OF 1(3,4,6) run]
    show ?thesis
    proof (cases again)
      case True
      with 1(2) Inr p have "merge_inner' b s1 = Some r" by simp
      from 1(1) [OF this t(1,2) _ t(4)] t(3) 1(5) show ?thesis by simp
    next
      case False
      with t(5) have s1: "s1 = s" and sb: "settled s b" using 1(5) by simp_all
      from False 1(2) Inr p s1 have r: "r = Inr s" by simp
      have "take (Suc i) (blocks s) = take i (blocks s) @ [b]"
        using 1(4,5) by (simp add: take_Suc_conv_app_nth)
      with 1(3,4,6) sb r show ?thesis by simp
    qed
  qed
qed

lemma merge_outer_settles:
  assumes "merge_outer i s = Some r" "merge_inv s" "\<forall>x \<in> set (take i (blocks s)). settled s x"
  shows "case r of Inl e \<Rightarrow> True
         | Inr s' \<Rightarrow> merge_inv s' \<and> (\<forall>x \<in> set (blocks s'). settled s' x)"
  using assms
proof (induction rule: merge_outer.raw_induct [rotated 1, consumes 1])
  case (1 merge_outer' i s r)
  show ?case
  proof (cases "i < length (blocks s)")
    case False
    with 1(2,3,4) show ?thesis by auto
  next
    case True
    with 1(2) obtain r1 where r1: "merge_inner (blocks s ! i) s = Some r1"
      and rest: "(case r1 of Inl e \<Rightarrow> Some (Inl e) | Inr s' \<Rightarrow> merge_outer' (Suc i) s') = Some r"
      by (auto simp: bind_eq_Some_conv)
    note t = merge_inner_settles [OF r1 1(3) True refl 1(4)]
    show ?thesis
    proof (cases r1)
      case (Inl e)
      with rest show ?thesis by auto
    next
      case (Inr s1)
      with rest have "merge_outer' (Suc i) s1 = Some r" by simp
      moreover from t Inr have "merge_inv s1" "\<forall>x \<in> set (take (Suc i) (blocks s1)). settled s1 x"
        by simp_all
      ultimately show ?thesis by (rule 1(1))
    qed
  qed
qed

lemma settled_merge_inner: "settled s b \<Longrightarrow> merge_inner b s = Some (Inr s)"
  by (subst merge_inner.simps) (simp add: settled_def)

lemma all_settled_merge_outer:
  assumes "\<forall>x \<in> set (blocks s). settled s x"
  shows "merge_outer i s = Some (Inr s)"
proof (induction "length (blocks s) - i" arbitrary: i)
  case 0
  then show ?case by (subst merge_outer.simps) simp
next
  case (Suc n)
  then have i: "i < length (blocks s)" and n: "n = length (blocks s) - Suc i" by simp_all
  from i assms have "settled s (blocks s ! i)" by simp
  from settled_merge_inner [OF this] Suc(1) [OF n] i show ?case
    by (subst merge_outer.simps) simp
qed

section \<open>The CFG that \<^verbatim>\<open>computeCFG\<close> returns\<close>

lemma computeCFG_InrD:
  assumes "computeCFG src fresh stmts = Some (Inr s)"
  obtains s0 where "merge_inv s0" "merge_outer 0 s0 = Some (Inr s)"
proof -
  from assms obtain u s0 where
    w: "thn (walk src stmts) check_cfg (new_visitor fresh) = Inr (u, s0)"
    by (auto simp: computeCFG_def split: sum.splits)
  with assms obtain r where m0: "merge_outer 0 s0 = Some r"
    and r: "(case r of Inl e \<Rightarrow> Some (Inl e)
             | Inr s' \<Rightarrow> (case visitor_destructor s' of Inl e \<Rightarrow> Some (Inl e)
                          | Inr (u', s'') \<Rightarrow> Some (Inr s''))) = Some (Inr s)"
    by (auto simp: computeCFG_def bind_eq_Some_conv)
  from r obtain s1 where r1: "r = Inr s1" by (cases r) auto
  with r obtain u' where d: "visitor_destructor s1 = Inr (u', s)"
    by (cases "visitor_destructor s1") auto
  from m0 r1 have m: "merge_outer 0 s0 = Some (Inr s1)" by simp
  from d have s1: "s1 = s"
    by (auto simp: visitor_destructor_def bnd_apply thn_apply split: if_splits)
  from w obtain u1 s2 where w1: "walk src stmts (new_visitor fresh) = Inr (u1, s2)"
    and c: "check_cfg s2 = Inr (u, s0)"
    by (rule thn_InrE)
  from presD [OF pres_walk wf_state_new_visitor w1] have "wf_state s2" .
  from merge_inv_after_check [OF this c] have "merge_inv s0" .
  with m s1 that show thesis by simp
qed

lemma computeCFG_merge_inv:
  assumes "computeCFG src fresh stmts = Some (Inr s)"
  shows "merge_inv s" and "\<forall>x \<in> set (blocks s). settled s x"
proof -
  from assms obtain s0 where j: "merge_inv s0" and m: "merge_outer 0 s0 = Some (Inr s)"
    by (rule computeCFG_InrD)
  from merge_outer_settles [OF m j] show "merge_inv s" "\<forall>x \<in> set (blocks s). settled s x"
    by simp_all
qed


lemma settledD:
  assumes "settled s b"
  shows "\<not> (\<exists>b2. successors (heap s ! b) = [b2] \<and> length (predecessors (heap s ! b2)) = 1
             \<and> body (heap s ! b) \<noteq> [] \<and> is_Jump (last (body (heap s ! b))))"
  using assms
  by (auto simp: settled_def merge_try_def bnd_apply thn_apply get_block_def
      split: if_splits stmt.splits sum.splits)


lemma continue_in_while_links:
  "map_option (map_sum id cfg_links) (computeCFG module_source 100 continue_in_while)
   = Some (Inr [(0, [], [1]), (1, [0, 3], [3, 4]), (3, [1], [1]), (4, [1], [])])"
  by code_simp

lemma two_whiles_links:
  "map_option (map_sum id cfg_links) (computeCFG module_source 100 two_whiles)
   = Some (Inr [(0, [], [1]), (1, [0, 3], [3, 4]), (3, [1], [1]), (4, [1], [5]),
                (5, [7, 4], [7, 8]), (7, [5], [5]), (8, [5], [])])"
  by code_simp


text \<open>
  C6. In the CFG that \<^verbatim>\<open>computeCFG\<close> returns, every successor of a block of the list
  that has two or more successors is itself a block of the list and has exactly one
  predecessor, that block. \<^verbatim>\<open>computeCFG\<close> asserts the absence of critical edges before
  the merge pass (the model stops with \<open>Abort\<close> where the assertion fails), and the
  merge pass keeps it.
\<close>

theorem computeCFG_no_critical_edges:
  assumes "computeCFG src fresh stmts = Some (Inr s)"
    and "b \<in> set (blocks s)" "2 \<le> length (successors (heap s ! b))"
    and "c \<in> set (successors (heap s ! b))"
  shows "predecessors (heap s ! c) = [b] \<and> c \<in> set (blocks s)"
proof -
  note j = merge_invD [OF computeCFG_merge_inv(1) [OF assms(1)]]
  from assms(3,4) have t: "2 \<le> length (succs (heap s) b)" "c \<in> set (succs (heap s) b)"
    by (simp_all add: succs_def)
  from no_critical_edgesD [OF j(6) assms(2) t] have "length (preds (heap s) c) = 1" .
  moreover from in_succs_in_preds [OF j(1) j(2) [OF assms(2)] t(2)]
  have "b \<in> set (preds (heap s) c)" .
  ultimately have "preds (heap s) c = [b]" by (cases "preds (heap s) c") auto
  with j(4) [OF assms(2) t(2)] show ?thesis by (simp add: preds_def)
qed


text \<open>\<^verbatim>\<open>while c: continue\<close>: block 1 is the test of the loop, its two successors 3 and
  4 have the one predecessor 1.\<close>

theorem computeCFG_no_critical_edges_witness:
  "\<exists>s. computeCFG module_source 100 continue_in_while = Some (Inr s)
      \<and> cfg_links s = [(0, [], [1]), (1, [0, 3], [3, 4]), (3, [1], [1]), (4, [1], [])]
      \<and> predecessors (heap s ! 3) = [1] \<and> 3 \<in> set (blocks s)
      \<and> predecessors (heap s ! 4) = [1] \<and> 4 \<in> set (blocks s)"
proof -
  from continue_in_while_links obtain x where
    x: "computeCFG module_source 100 continue_in_while = Some x"
       "map_sum id cfg_links x = Inr [(0, [], [1]), (1, [0, 3], [3, 4]), (3, [1], [1]), (4, [1], [])]"
    by (cases "computeCFG module_source 100 continue_in_while") auto
  then obtain s where
    r: "computeCFG module_source 100 continue_in_while = Some (Inr s)" and
    l: "cfg_links s = [(0, [], [1]), (1, [0, 3], [3, 4]), (3, [1], [1]), (4, [1], [])]"
    by (cases x) auto
  from l have b: "1 \<in> set (blocks s)" and sc: "successors (heap s ! 1) = [3, 4]"
    by (auto simp: cfg_links_def map_eq_Cons_conv)
  from computeCFG_no_critical_edges [OF r b, of 3] computeCFG_no_critical_edges [OF r b, of 4] sc
  have "predecessors (heap s ! 3) = [1] \<and> 3 \<in> set (blocks s)"
       "predecessors (heap s ! 4) = [1] \<and> 4 \<in> set (blocks s)"
    by simp_all
  with r l show ?thesis by blast
qed


text \<open>
  C9. On the CFG that \<^verbatim>\<open>computeCFG\<close> returns, the merge pass run once more returns the
  same CFG: for every block of the list one round of the inner loop leaves the loop at
  once with the state as it is, and no block of the list has one successor with one
  predecessor and a \<open>Jump\<close> as its last statement.
\<close>

theorem merge_pass_idempotent:
  assumes "computeCFG src fresh stmts = Some (Inr s)"
  shows "merge_outer 0 s = Some (Inr s)
       \<and> (\<forall>b \<in> set (blocks s). merge_try b s = Inr (False, s)
            \<and> \<not> (\<exists>b2. successors (heap s ! b) = [b2] \<and> length (predecessors (heap s ! b2)) = 1
                     \<and> body (heap s ! b) \<noteq> [] \<and> is_Jump (last (body (heap s ! b)))))"
proof -
  note a = computeCFG_merge_inv(2) [OF assms]
  from all_settled_merge_outer [OF a] a settledD show ?thesis
    by (auto simp: settled_def)
qed


text \<open>Two loops \<^verbatim>\<open>while a: pass\<close> one after the other: the pass merged the exit of
  the first loop with the block before the second loop (block 4); run again, it changes
  nothing.\<close>

theorem merge_pass_idempotent_witness:
  "\<exists>s. computeCFG module_source 100 two_whiles = Some (Inr s)
      \<and> cfg_links s = [(0, [], [1]), (1, [0, 3], [3, 4]), (3, [1], [1]), (4, [1], [5]),
                       (5, [7, 4], [7, 8]), (7, [5], [5]), (8, [5], [])]
      \<and> merge_outer 0 s = Some (Inr s)
      \<and> merge_try 4 s = Inr (False, s)"
proof -
  from two_whiles_links obtain x where
    x: "computeCFG module_source 100 two_whiles = Some x"
       "map_sum id cfg_links x = Inr [(0, [], [1]), (1, [0, 3], [3, 4]), (3, [1], [1]), (4, [1], [5]),
                       (5, [7, 4], [7, 8]), (7, [5], [5]), (8, [5], [])]"
    by (cases "computeCFG module_source 100 two_whiles") auto
  then obtain s where
    r: "computeCFG module_source 100 two_whiles = Some (Inr s)" and
    l: "cfg_links s = [(0, [], [1]), (1, [0, 3], [3, 4]), (3, [1], [1]), (4, [1], [5]),
                       (5, [7, 4], [7, 8]), (7, [5], [5]), (8, [5], [])]"
    by (cases x) auto
  from l have b: "4 \<in> set (blocks s)"
    by (auto simp: cfg_links_def map_eq_Cons_conv)
  from merge_pass_idempotent [OF r] b r l show ?thesis by blast
qed

end
